(* ===== verification/Prelude.thy ===== *)
theory Prelude
  imports Main "HOL-Library.Word" "HOL-Library.List_Lexorder" "HOL-Library.Char_ord"
begin

text \<open>
  The vocabulary every other theory shares: fallible results as sums with the loops that stop at
  the first error, insertion-ordered maps (the code's IndexMap), Rust strings as UTF-8 byte
  lists with the operations of str the code calls (strip_prefix, find, split, trim, lines,
  join), and decimal printing. A char is one byte of the UTF-8 text, so length is Rust's
  len() and a character beyond ASCII is the list of the bytes of its encoding.
\<close>

named_theorems result_simps \<open>when a fallible computation succeeds\<close>
named_theorems str_simps \<open>facts on the string operations\<close>

section \<open>Fallible results\<close>

text \<open>Result<T, E> is a sum: \<open>Inl\<close> the error, \<open>Inr\<close> the value.\<close>

type_synonym ('e, 'a) result = "'e + 'a"

fun and_then :: "'e + 'a \<Rightarrow> ('a \<Rightarrow> 'e + 'b) \<Rightarrow> 'e + 'b" where
  "and_then (Inl e) f = Inl e"
| "and_then (Inr x) f = f x"

fun map_err :: "('e \<Rightarrow> 'f) \<Rightarrow> 'e + 'a \<Rightarrow> 'f + 'a" where
  "map_err f (Inl e) = Inl (f e)"
| "map_err f (Inr x) = Inr x"

fun is_ok :: "'e + 'a \<Rightarrow> bool" where
  "is_ok (Inl e) = False"
| "is_ok (Inr x) = True"

text \<open>\<open>if c { return Err(e) }\<close>, and a sequence of such statements.\<close>

definition fail_if :: "bool \<Rightarrow> 'e \<Rightarrow> 'e + unit" where
  "fail_if c e = (if c then Inl e else Inr ())"

fun for_each :: "('a \<Rightarrow> 'e + unit) \<Rightarrow> 'a list \<Rightarrow> 'e + unit" where
  "for_each f [] = Inr ()"
| "for_each f (x # xs) = (case f x of Inl e \<Rightarrow> Inl e | Inr _ \<Rightarrow> for_each f xs)"

definition checks :: "('e + unit) list \<Rightarrow> 'e + unit" where
  "checks cs = for_each (\<lambda>c. c) cs"

text \<open>\<open>iter().map(f).collect::<Result<_, _>>()\<close>: the first error wins.\<close>

fun map_res :: "('a \<Rightarrow> 'e + 'b) \<Rightarrow> 'a list \<Rightarrow> 'e + 'b list" where
  "map_res f [] = Inr []"
| "map_res f (x # xs) =
     (case f x of Inl e \<Rightarrow> Inl e
      | Inr y \<Rightarrow> (case map_res f xs of Inl e \<Rightarrow> Inl e | Inr ys \<Rightarrow> Inr (y # ys)))"

text \<open>\<open>opt.map(f).transpose()\<close>.\<close>

fun opt_res :: "('a \<Rightarrow> 'e + 'b) \<Rightarrow> 'a option \<Rightarrow> 'e + 'b option" where
  "opt_res f None = Inr None"
| "opt_res f (Some x) = (case f x of Inl e \<Rightarrow> Inl e | Inr y \<Rightarrow> Inr (Some y))"

fun ok_or :: "'e \<Rightarrow> 'a option \<Rightarrow> ('e, 'a) result" where
  "ok_or e None = Inl e"
| "ok_or e (Some x) = Inr x"

lemma ok_or_ok [result_simps]: "ok_or e x = Inr y \<longleftrightarrow> x = Some y"
  by (cases x) auto

section \<open>Insertion-ordered maps\<close>

text \<open>
  IndexMap<String, V> is an association list in insertion order; lookup is \<open>map_of\<close>. Inserting
  a known key replaces its value in place.
\<close>

type_synonym 'v imap = "(string \<times> 'v) list"

definition ikeys :: "'v imap \<Rightarrow> string list" where
  "ikeys m = map fst m"

definition has_key :: "'v imap \<Rightarrow> string \<Rightarrow> bool" where
  "has_key m k = (k \<in> set (ikeys m))"

fun imap_insert :: "string \<Rightarrow> 'v \<Rightarrow> 'v imap \<Rightarrow> 'v imap" where
  "imap_insert k v [] = [(k, v)]"
| "imap_insert k v ((k', v') # m) =
     (if k = k' then (k, v) # m else (k', v') # imap_insert k v m)"

definition imap_remove :: "string \<Rightarrow> 'v imap \<Rightarrow> 'v imap" where
  "imap_remove k m = filter (\<lambda>(k', _). k' \<noteq> k) m"

definition imap_ok :: "'v imap \<Rightarrow> bool" where
  "imap_ok m = distinct (ikeys m)"

section \<open>Strings\<close>

fun strip_prefix :: "string \<Rightarrow> string \<Rightarrow> string option" where
  "strip_prefix [] s = Some s"
| "strip_prefix (p # ps) [] = None"
| "strip_prefix (p # ps) (c # cs) = (if p = c then strip_prefix ps cs else None)"

definition starts_with :: "string \<Rightarrow> string \<Rightarrow> bool" where
  "starts_with p s = (strip_prefix p s \<noteq> None)"

definition strip_suffix :: "string \<Rightarrow> string \<Rightarrow> string option" where
  "strip_suffix p s = map_option rev (strip_prefix (rev p) (rev s))"

text \<open>The text before and after the first occurrence of a pattern.\<close>

fun split_once :: "string \<Rightarrow> string \<Rightarrow> (string \<times> string) option" where
  "split_once p [] = (if p = [] then Some ([], []) else None)"
| "split_once p (c # cs) =
     (case strip_prefix p (c # cs) of
        Some r \<Rightarrow> Some ([], r)
      | None \<Rightarrow> map_option (\<lambda>(a, b). (c # a, b)) (split_once p cs))"

definition str_contains :: "string \<Rightarrow> string \<Rightarrow> bool" where
  "str_contains p s = (split_once p s \<noteq> None)"

text \<open>\<open>s.split(c)\<close>: always at least one piece.\<close>

fun split_on :: "char \<Rightarrow> string \<Rightarrow> string list" where
  "split_on d [] = [[]]"
| "split_on d (c # cs) =
     (if c = d then [] # split_on d cs
      else (case split_on d cs of [] \<Rightarrow> [[c]] | p # ps \<Rightarrow> (c # p) # ps))"

fun join :: "string \<Rightarrow> string list \<Rightarrow> string" where
  "join sep [] = []"
| "join sep [x] = x"
| "join sep (x # y # ys) = x @ sep @ join sep (y # ys)"

text \<open>
  The UTF-8 encodings of the characters with Unicode's White_Space property, which is what
  \<open>char::is_whitespace\<close> tests and \<open>str::trim\<close> removes.
\<close>

definition ws_chars :: "string list" where
  "ws_chars =
     [[CHR 0x09], [CHR 0x0A], [CHR 0x0B], [CHR 0x0C], [CHR 0x0D], [CHR 0x20],
      [CHR 0xC2, CHR 0x85], [CHR 0xC2, CHR 0xA0], [CHR 0xE1, CHR 0x9A, CHR 0x80],
      [CHR 0xE2, CHR 0x80, CHR 0x80], [CHR 0xE2, CHR 0x80, CHR 0x81],
      [CHR 0xE2, CHR 0x80, CHR 0x82], [CHR 0xE2, CHR 0x80, CHR 0x83],
      [CHR 0xE2, CHR 0x80, CHR 0x84], [CHR 0xE2, CHR 0x80, CHR 0x85],
      [CHR 0xE2, CHR 0x80, CHR 0x86], [CHR 0xE2, CHR 0x80, CHR 0x87],
      [CHR 0xE2, CHR 0x80, CHR 0x88], [CHR 0xE2, CHR 0x80, CHR 0x89],
      [CHR 0xE2, CHR 0x80, CHR 0x8A], [CHR 0xE2, CHR 0x80, CHR 0xA8],
      [CHR 0xE2, CHR 0x80, CHR 0xA9], [CHR 0xE2, CHR 0x80, CHR 0xAF],
      [CHR 0xE2, CHR 0x81, CHR 0x9F], [CHR 0xE3, CHR 0x80, CHR 0x80]]"

fun strip_any :: "string list \<Rightarrow> string \<Rightarrow> string option" where
  "strip_any [] s = None"
| "strip_any (w # ws) s =
     (case strip_prefix w s of Some r \<Rightarrow> Some r | None \<Rightarrow> strip_any ws s)"

definition ws_set :: "string list \<Rightarrow> bool" where
  "ws_set ws = ([] \<notin> set ws)"

text \<open>Removing every leading member of \<open>ws\<close>; the fuel is the length of the text.\<close>

fun strip_all :: "nat \<Rightarrow> string list \<Rightarrow> string \<Rightarrow> string" where
  "strip_all 0 ws s = s"
| "strip_all (Suc n) ws s =
     (case strip_any ws s of None \<Rightarrow> s | Some r \<Rightarrow> strip_all n ws r)"

definition trim_start :: "string \<Rightarrow> string" where
  "trim_start s = strip_all (length s) ws_chars s"

definition trim_end :: "string \<Rightarrow> string" where
  "trim_end s = rev (strip_all (length s) (map rev ws_chars) (rev s))"

definition trim :: "string \<Rightarrow> string" where
  "trim s = trim_end (trim_start s)"

text \<open>\<open>s.chars().any(char::is_whitespace)\<close>.\<close>

fun has_ws :: "string \<Rightarrow> bool" where
  "has_ws [] = False"
| "has_ws (c # cs) = (strip_any ws_chars (c # cs) \<noteq> None \<or> has_ws cs)"

definition is_digit :: "char \<Rightarrow> bool" where
  "is_digit c = (48 \<le> (of_char c :: nat) \<and> (of_char c :: nat) \<le> 57)"

definition is_ascii_alpha :: "char \<Rightarrow> bool" where
  "is_ascii_alpha c =
     (let n = (of_char c :: nat) in (65 \<le> n \<and> n \<le> 90) \<or> (97 \<le> n \<and> n \<le> 122))"

definition ascii_lower :: "char \<Rightarrow> char" where
  "ascii_lower c =
     (let n = (of_char c :: nat) in if 65 \<le> n \<and> n \<le> 90 then char_of (n + 32) else c)"

definition digit_val :: "char \<Rightarrow> nat" where
  "digit_val c = of_char c - 48"

definition digit_chr :: "nat \<Rightarrow> char" where
  "digit_chr d = char_of (48 + d)"

fun show_nat :: "nat \<Rightarrow> string" where
  "show_nat n = (if n < 10 then [digit_chr n] else show_nat (n div 10) @ [digit_chr (n mod 10)])"

declare show_nat.simps [simp del]

definition read_nat :: "string \<Rightarrow> nat" where
  "read_nat s = foldl (\<lambda>a c. 10 * a + digit_val c) 0 s"

text \<open>A text between single quotes.\<close>

definition squote :: "string \<Rightarrow> string" where
  "squote t = [CHR 0x27] @ t @ [CHR 0x27]"

section \<open>Lemmas on results\<close>

lemma fail_if_ok [result_simps]: "fail_if c e = Inr u \<longleftrightarrow> \<not> c"
  by (simp add: fail_if_def)

lemma for_each_ok [result_simps]: "for_each f xs = Inr u \<longleftrightarrow> (\<forall>x\<in>set xs. f x = Inr ())"
  by (induction xs) (auto split: sum.splits)

lemma checks_ok [result_simps]: "checks cs = Inr u \<longleftrightarrow> (\<forall>c\<in>set cs. c = Inr ())"
  by (simp add: checks_def for_each_ok)

lemma and_then_ok [result_simps]: "and_then m f = Inr y \<longleftrightarrow> (\<exists>x. m = Inr x \<and> f x = Inr y)"
  by (cases m) auto

lemma map_err_ok [result_simps]: "map_err f m = Inr y \<longleftrightarrow> m = Inr y"
  by (cases m) auto

lemma is_ok_iff: "is_ok m \<longleftrightarrow> (\<exists>x. m = Inr x)"
  by (cases m) auto

lemma for_each_err: "for_each f xs = Inl e \<Longrightarrow> \<exists>x\<in>set xs. f x = Inl e"
  by (induction xs) (auto split: sum.splits)

lemma map_res_ok: "map_res f xs = Inr ys \<longleftrightarrow> list_all2 (\<lambda>x y. f x = Inr y) xs ys"
proof (induction xs arbitrary: ys)
  case Nil
  then show ?case by auto
next
  case (Cons x xs)
  show ?case
  proof (cases "map_res f xs")
    case (Inl e)
    with Cons.IH have "\<not> list_all2 (\<lambda>x y. f x = Inr y) xs zs" for zs by simp
    with Inl show ?thesis by (auto split: sum.splits simp: list_all2_Cons1)
  next
    case (Inr zs)
    with Cons.IH have "list_all2 (\<lambda>x y. f x = Inr y) xs zs' \<longleftrightarrow> zs' = zs" for zs'
      by (metis sum.inject(2))
    with Inr show ?thesis by (auto split: sum.splits simp: list_all2_Cons1)
  qed
qed

lemma opt_res_ok [result_simps]:
  "opt_res f x = Inr y \<longleftrightarrow>
     (case x of None \<Rightarrow> y = None | Some v \<Rightarrow> (\<exists>w. f v = Inr w \<and> y = Some w))"
  by (cases x) (auto split: sum.splits)

section \<open>The map interface\<close>

text \<open>
  What the code relies on of a string-keyed map: an insert is seen by the next lookup and by no
  other key, a remove likewise, and both keep the map's own well-formedness. IndexMap and
  serde_json's Map both provide it.
\<close>

locale string_map =
  fixes lookup :: "'m \<Rightarrow> string \<Rightarrow> 'v option"
    and insert :: "string \<Rightarrow> 'v \<Rightarrow> 'm \<Rightarrow> 'm"
    and remove :: "string \<Rightarrow> 'm \<Rightarrow> 'm"
    and ok :: "'m \<Rightarrow> bool"
  assumes lookup_insert: "lookup (insert k v m) j = (if j = k then Some v else lookup m j)"
    and lookup_remove: "lookup (remove k m) j = (if j = k then None else lookup m j)"
    and insert_ok: "ok m \<Longrightarrow> ok (insert k v m)"
    and remove_ok: "ok m \<Longrightarrow> ok (remove k m)"
begin

lemma insert_same: "lookup (insert k v m) k = Some v"
  by (simp add: lookup_insert)

lemma insert_other: "j \<noteq> k \<Longrightarrow> lookup (insert k v m) j = lookup m j"
  by (simp add: lookup_insert)

lemma insert_twice: "lookup (insert k w (insert k v m)) = lookup (insert k w m)"
  by (auto simp: lookup_insert)

lemma insert_commute:
  "j \<noteq> k \<Longrightarrow> lookup (insert j w (insert k v m)) = lookup (insert k v (insert j w m))"
  by (auto simp: lookup_insert)

lemma remove_insert: "lookup (remove k (insert k v m)) = lookup (remove k m)"
  by (auto simp: lookup_insert lookup_remove)

end

lemma imap_insert_lookup: "map_of (imap_insert k v m) j = (if j = k then Some v else map_of m j)"
  by (induction k v m rule: imap_insert.induct) auto

lemma imap_remove_lookup: "map_of (imap_remove k m) j = (if j = k then None else map_of m j)"
  by (induction m) (auto simp: imap_remove_def)

lemma imap_insert_keys: "set (ikeys (imap_insert k v m)) = Set.insert k (set (ikeys m))"
  by (induction k v m rule: imap_insert.induct) (auto simp: ikeys_def)

lemma imap_insert_ok: "imap_ok m \<Longrightarrow> imap_ok (imap_insert k v m)"
proof (induction k v m rule: imap_insert.induct)
  case (2 k v k' v' m)
  then show ?case
    using imap_insert_keys [of k v m] by (auto simp: imap_ok_def ikeys_def)
qed (simp add: imap_ok_def ikeys_def)

lemma imap_remove_ok: "imap_ok m \<Longrightarrow> imap_ok (imap_remove k m)"
  by (auto simp: imap_ok_def ikeys_def imap_remove_def intro: distinct_map_filter)

interpretation imap: string_map map_of imap_insert imap_remove imap_ok
  by unfold_locales (auto simp: imap_insert_lookup imap_remove_lookup imap_insert_ok imap_remove_ok)

lemma has_key_map_of: "has_key m k \<longleftrightarrow> map_of m k \<noteq> None"
  by (auto simp: has_key_def ikeys_def map_of_eq_None_iff)

lemma has_key_iff: "has_key m k \<longleftrightarrow> (\<exists>v. map_of m k = Some v)"
  by (auto simp: has_key_map_of)

lemma has_key_fst: "has_key m k \<longleftrightarrow> k \<in> fst ` set m"
  by (simp add: has_key_def ikeys_def)

lemma map_of_in_set: "imap_ok m \<Longrightarrow> (k, v) \<in> set m \<longleftrightarrow> map_of m k = Some v"
  by (metis imap_ok_def ikeys_def map_of_SomeD map_of_is_SomeI)

section \<open>Lemmas on strings\<close>

lemma strip_prefix_Some [str_simps]: "strip_prefix p s = Some r \<longleftrightarrow> s = p @ r"
  by (induction p s rule: strip_prefix.induct) auto

lemma strip_prefix_self [simp]: "strip_prefix p (p @ s) = Some s"
  by (simp add: strip_prefix_Some)

lemma starts_with_iff [str_simps]: "starts_with p s \<longleftrightarrow> (\<exists>r. s = p @ r)"
  by (auto simp: starts_with_def strip_prefix_Some)

lemma strip_suffix_Some [str_simps]: "strip_suffix p s = Some r \<longleftrightarrow> s = r @ p"
proof -
  have "strip_suffix p s = Some r \<longleftrightarrow> rev s = rev p @ rev r"
    by (auto simp: strip_suffix_def strip_prefix_Some)
  also have "\<dots> \<longleftrightarrow> s = r @ p"
    by (metis rev_append rev_rev_ident)
  finally show ?thesis .
qed

lemma split_once_Some: "split_once p s = Some (a, b) \<Longrightarrow> s = a @ p @ b"
  by (induction p s arbitrary: a rule: split_once.induct)
     (auto split: option.splits if_splits simp: strip_prefix_Some)

lemma split_once_None: "split_once p s = None \<longleftrightarrow> (\<forall>a b. s \<noteq> a @ p @ b)"
proof (induction p s rule: split_once.induct)
  case (1 p)
  then show ?case by auto
next
  case (2 p c cs)
  show ?case
  proof (cases "strip_prefix p (c # cs)")
    case None
    then have no: "\<And>b. c # cs \<noteq> p @ b"
      by (metis option.distinct(1) strip_prefix_Some)
    have "(\<forall>a b. c # cs \<noteq> a @ p @ b) \<longleftrightarrow> (\<forall>a b. cs \<noteq> a @ p @ b)"
      using no by (metis append_Cons append_Nil list.inject neq_Nil_conv)
    with "2.IH" None show ?thesis by simp
  next
    case (Some r)
    then have "c # cs = [] @ p @ r" by (simp add: strip_prefix_Some)
    with Some show ?thesis by (metis option.distinct(1) option.simps(5) split_once.simps(2))
  qed
qed

lemma split_once_char: "split_once [d] s = Some (a, b) \<longleftrightarrow> s = a @ d # b \<and> d \<notin> set a"
proof (induction s arbitrary: a)
  case (Cons c s)
  then show ?case by (cases a) auto
qed simp

lemma split_once_first:
  "split_once p s = Some (a, b) \<Longrightarrow> p \<noteq> [] \<Longrightarrow> \<not> str_contains p a"
proof (induction p s arbitrary: a rule: split_once.induct)
  case (1 p)
  then show ?case by simp
next
  case (2 p c cs)
  show ?case
  proof (cases "strip_prefix p (c # cs)")
    case (Some r)
    with "2.prems" show ?thesis by (auto simp: str_contains_def)
  next
    case None
    with "2.prems" obtain a' where a: "a = c # a'" and sp: "split_once p cs = Some (a', b)"
      by (auto split: option.splits)
    have "strip_prefix p (c # a') = None"
    proof (rule ccontr)
      assume "strip_prefix p (c # a') \<noteq> None"
      then obtain q where "c # a' = p @ q" by (auto simp: strip_prefix_Some)
      with split_once_Some [OF sp] have "c # cs = p @ (q @ p @ b)" by simp
      with None show False by (metis option.distinct(1) strip_prefix_Some)
    qed
    with "2.IH" [OF None sp "2.prems"(2)] a show ?thesis
      by (auto simp: str_contains_def)
  qed
qed

lemma str_contains_iff [str_simps]: "str_contains p s \<longleftrightarrow> (\<exists>a b. s = a @ p @ b)"
  by (auto simp: str_contains_def split_once_None)

lemma split_on_ne [simp]: "split_on d s \<noteq> []"
  by (cases s) (auto split: list.splits)

lemma split_on_join: "join [d] (split_on d s) = s"
proof (induction d s rule: split_on.induct)
  case (2 d c cs)
  then show ?case
    by (cases "split_on d cs"; cases "tl (split_on d cs)") (auto split: list.splits)
qed simp

lemma split_on_no_sep: "p \<in> set (split_on d s) \<Longrightarrow> d \<notin> set p"
  by (induction d s arbitrary: p rule: split_on.induct) (fastforce split: list.splits if_splits)+

lemma strip_any_Some: "strip_any ws s = Some r \<Longrightarrow> \<exists>w\<in>set ws. s = w @ r"
  by (induction ws s rule: strip_any.induct) (auto split: option.splits simp: strip_prefix_Some)

lemma strip_any_None: "strip_any ws s = None \<longleftrightarrow> (\<forall>w\<in>set ws. \<forall>r. s \<noteq> w @ r)"
proof (induction ws s rule: strip_any.induct)
  case (2 w ws s)
  show ?case
  proof (cases "strip_prefix w s")
    case None
    then have "s \<noteq> w @ r" for r by (metis option.distinct(1) strip_prefix_Some)
    with None 2 show ?thesis by simp
  next
    case (Some r)
    then have "s = w @ r" by (simp add: strip_prefix_Some)
    with Some show ?thesis by auto
  qed
qed simp

lemma strip_any_shorter: "strip_any ws s = Some r \<Longrightarrow> ws_set ws \<Longrightarrow> length r < length s"
  by (fastforce dest!: strip_any_Some simp: ws_set_def)

lemma strip_all_suffix: "\<exists>q. s = q @ strip_all n ws s"
proof (induction n ws s rule: strip_all.induct)
  case (2 n ws s)
  show ?case
  proof (cases "strip_any ws s")
    case (Some r)
    with 2 strip_any_Some [OF Some] show ?thesis by (metis append.assoc option.simps(5) strip_all.simps(2))
  qed simp
qed simp

text \<open>With the text's length as fuel nothing strippable is left in front.\<close>

lemma strip_all_done:
  "length s \<le> n \<Longrightarrow> ws_set ws \<Longrightarrow> strip_any ws (strip_all n ws s) = None"
proof (induction n ws s rule: strip_all.induct)
  case (1 ws s)
  then show ?case by (auto simp: strip_any_None ws_set_def)
next
  case (2 n ws s)
  then show ?case by (fastforce split: option.splits dest: strip_any_shorter)
qed

lemma ws_set_ws_chars [simp]: "ws_set ws_chars" "ws_set (map rev ws_chars)"
  by (auto simp: ws_set_def ws_chars_def)

lemma trim_start_done: "strip_any ws_chars (trim_start s) = None"
  by (simp add: trim_start_def strip_all_done)

lemma trim_start_suffix: "\<exists>q. s = q @ trim_start s"
  by (simp add: trim_start_def strip_all_suffix)

lemma trim_end_prefix: "\<exists>q. s = trim_end s @ q"
proof -
  obtain q where "rev s = q @ strip_all (length s) (map rev ws_chars) (rev s)"
    using strip_all_suffix by blast
  then have "s = rev (strip_all (length s) (map rev ws_chars) (rev s)) @ rev q"
    by (metis rev_append rev_rev_ident)
  then show ?thesis by (auto simp: trim_end_def)
qed

lemma trim_end_done: "strip_any (map rev ws_chars) (rev (trim_end s)) = None"
  using strip_all_done [of "rev s" "length s" "map rev ws_chars"] by (simp add: trim_end_def)

lemma strip_all_id: "strip_any ws s = None \<Longrightarrow> strip_all n ws s = s"
  by (cases n) auto

lemma trim_end_idem [simp]: "trim_end (trim_end s) = trim_end s"
  using strip_all_id [OF trim_end_done [of s]] by (simp add: trim_end_def)

lemma trim_start_trim_end: "strip_any ws_chars s = None \<Longrightarrow> strip_any ws_chars (trim_end s) = None"
  using trim_end_prefix [of s] by (metis append.assoc strip_any_None)

lemma trim_idem [simp]: "trim (trim s) = trim s"
proof -
  have "strip_any ws_chars (trim s) = None"
    by (simp add: trim_def trim_start_trim_end trim_start_done)
  then have "trim_start (trim s) = trim s"
    by (simp add: trim_start_def strip_all_id)
  then show ?thesis by (simp add: trim_def)
qed

section \<open>Lemmas on decimal numbers\<close>

lemma digit_chr_digit: "d < 10 \<Longrightarrow> is_digit (digit_chr d)"
  by (simp add: is_digit_def digit_chr_def of_char_of)

lemma digit_val_chr: "d < 10 \<Longrightarrow> digit_val (digit_chr d) = d"
  by (simp add: digit_val_def digit_chr_def of_char_of)

lemma show_nat_digits: "c \<in> set (show_nat n) \<Longrightarrow> is_digit c"
proof (induction n rule: show_nat.induct)
  case (1 n)
  then show ?case
    by (cases "n < 10") (auto simp: show_nat.simps [of n] digit_chr_digit)
qed

lemma show_nat_ne [simp]: "show_nat n \<noteq> []"
  by (subst show_nat.simps) simp

lemma read_nat_snoc [simp]: "read_nat (s @ [c]) = 10 * read_nat s + digit_val c"
  by (simp add: read_nat_def)

lemma read_show_nat [simp]: "read_nat (show_nat n) = n"
proof (induction n rule: show_nat.induct)
  case (1 n)
  show ?case
  proof (cases "n < 10")
    case True
    then show ?thesis
      by (simp add: show_nat.simps [of n] read_nat_def digit_val_chr)
  next
    case False
    with 1 show ?thesis
      by (simp add: show_nat.simps [of n] digit_val_chr)
  qed
qed

end
