(* ===== verification/Durations.thy ===== *)
theory Durations
  imports Prelude
begin

text \<open>
  chocofactory-core/src/duration.rs: the \<open><integer><unit>\<close> spelling of durations shared by the
  workflow loader and the command line. A std::time::Duration is its whole seconds (a u64)
  and its nanoseconds (below 10^9), ordered lexicographically as the derived order is.
\<close>

datatype duration = Duration (as_secs: nat) (subsec_nanos: nat)

definition duration_zero :: duration where
  "duration_zero = Duration 0 0"

definition from_secs :: "nat \<Rightarrow> duration" where
  "from_secs n = Duration n 0"

text \<open>The values a Duration can have.\<close>

definition duration_wf :: "duration \<Rightarrow> bool" where
  "duration_wf d = (as_secs d < 2 ^ 64 \<and> subsec_nanos d < 10 ^ 9)"

instantiation duration :: linorder
begin

definition less_eq_duration :: "duration \<Rightarrow> duration \<Rightarrow> bool" where
  "d \<le> e \<longleftrightarrow> as_secs d < as_secs e \<or> (as_secs d = as_secs e \<and> subsec_nanos d \<le> subsec_nanos e)"

definition less_duration :: "duration \<Rightarrow> duration \<Rightarrow> bool" where
  "d < e \<longleftrightarrow> as_secs d < as_secs e \<or> (as_secs d = as_secs e \<and> subsec_nanos d < subsec_nanos e)"

instance
  by standard (auto simp: less_eq_duration_def less_duration_def duration.expand)

end

text \<open>\<open>str::parse::<u64>()\<close>: an optional plus sign, at least one digit, no overflow.\<close>

definition parse_u64 :: "string \<Rightarrow> nat option" where
  "parse_u64 s =
     (let ds = (case s of [] \<Rightarrow> [] | c # cs \<Rightarrow> if c = CHR ''+'' then cs else s)
      in if ds \<noteq> [] \<and> list_all is_digit ds \<and> read_nat ds < 2 ^ 64 then Some (read_nat ds) else None)"

definition checked_mul_u64 :: "nat \<Rightarrow> nat \<Rightarrow> nat option" where
  "checked_mul_u64 a b = (if a * b < 2 ^ 64 then Some (a * b) else None)"

definition unit_multiplier :: "char \<Rightarrow> nat option" where
  "unit_multiplier u =
     (if u = CHR ''s'' then Some 1 else if u = CHR ''m'' then Some 60
      else if u = CHR ''h'' then Some 3600 else None)"

definition parse_duration :: "string \<Rightarrow> (string, duration) result" where
  "parse_duration s =
     (if s = [] then Inl s
      else (case parse_u64 (butlast s) of
          None \<Rightarrow> Inl s
        | Some amount \<Rightarrow>
            (case unit_multiplier (last s) of
               None \<Rightarrow> Inl s
             | Some multiplier \<Rightarrow>
                 (case checked_mul_u64 amount multiplier of
                    None \<Rightarrow> Inl s
                  | Some secs \<Rightarrow> if secs = 0 then Inl s else Inr (from_secs secs)))))"

definition format_duration :: "duration \<Rightarrow> string" where
  "format_duration d =
     (let total = as_secs d;
          h = total div 3600; m = (total mod 3600) div 60; s = total mod 60;
          out = (if h > 0 then show_nat h @ ''h'' else []);
          out = out @ (if m > 0 then show_nat m @ ''m'' else []);
          out = out @ (if s > 0 \<or> out = [] then show_nat s @ ''s'' else [])
      in out)"

text \<open>A duration one unit can spell: just one of its hour, minute and second parts is not zero.\<close>

definition whole_unit :: "duration \<Rightarrow> bool" where
  "whole_unit d =
     (let t = as_secs d; h = t div 3600; m = (t mod 3600) div 60; s = t mod 60
      in (h > 0 \<and> m = 0 \<and> s = 0) \<or> (h = 0 \<and> m > 0 \<and> s = 0) \<or> (h = 0 \<and> m = 0 \<and> s > 0))"

section \<open>Lemmas\<close>

lemma parse_u64_show [simp]: "n < 2 ^ 64 \<Longrightarrow> parse_u64 (show_nat n) = Some n"
proof -
  assume n: "n < 2 ^ 64"
  have "show_nat n \<noteq> CHR ''+'' # cs" for cs
    using show_nat_digits [of "CHR ''+''" n] by (auto simp: is_digit_def)
  then have "(case show_nat n of [] \<Rightarrow> [] | c # cs \<Rightarrow> if c = CHR ''+'' then cs else show_nat n) = show_nat n"
    by (auto split: list.splits)
  with n show ?thesis
    by (simp add: parse_u64_def list_all_iff show_nat_digits)
qed

lemma parse_u64_digits: "parse_u64 s = Some n \<Longrightarrow> c \<in> set s \<Longrightarrow> is_digit c \<or> c = CHR ''+''"
  by (auto simp: parse_u64_def Let_def list_all_iff split: list.splits if_splits)

lemma parse_duration_snoc:
  "parse_duration (ds @ [u]) =
     (case parse_u64 ds of None \<Rightarrow> Inl (ds @ [u])
      | Some a \<Rightarrow> (case unit_multiplier u of None \<Rightarrow> Inl (ds @ [u])
          | Some m \<Rightarrow> (if a * m < 2 ^ 64 \<and> a * m \<noteq> 0 then Inr (from_secs (a * m)) else Inl (ds @ [u]))))"
  by (auto simp: parse_duration_def checked_mul_u64_def split: option.splits)

lemma parse_duration_not_digit:
  assumes "c \<in> set ds" and "\<not> is_digit c" and "c \<noteq> CHR ''+''"
  shows "parse_duration (ds @ [u]) = Inl (ds @ [u])"
proof -
  have "parse_u64 ds = None"
    using assms parse_u64_digits by (cases "parse_u64 ds") blast+
  then show ?thesis by (simp add: parse_duration_snoc)
qed

lemma parse_duration_error: "parse_duration s = Inl e \<Longrightarrow> e = s"
  by (auto simp: parse_duration_def split: if_splits option.splits)

lemma parse_duration_positive:
  "parse_duration s = Inr d \<Longrightarrow> duration_wf d \<and> subsec_nanos d = 0 \<and> 0 < as_secs d"
  by (auto simp: parse_duration_def checked_mul_u64_def from_secs_def duration_wf_def
      split: if_splits option.splits)

lemma one_unit_parses:
  "n * k < 2 ^ 64 \<Longrightarrow> unit_multiplier u = Some k \<Longrightarrow> n * k \<noteq> 0 \<Longrightarrow> n < 2 ^ 64 \<Longrightarrow>
     parse_duration (show_nat n @ [u]) = Inr (Duration (n * k) 0)"
  by (simp add: parse_duration_snoc from_secs_def)

lemma two_units_rejected:
  "\<not> is_digit v \<Longrightarrow> v \<noteq> CHR ''+'' \<Longrightarrow>
     parse_duration (xs @ v # ys @ [u]) = Inl (xs @ v # ys @ [u])"
  using parse_duration_not_digit [of v "xs @ v # ys" u] by simp

lemma format_duration_cases:
  "format_duration (Duration t n) =
     (let h = t div 3600; m = (t mod 3600) div 60; s = t mod 60 in
      if h > 0 then
        (if m > 0 then
           (if s > 0 then show_nat h @ CHR ''h'' # show_nat m @ CHR ''m'' # show_nat s @ [CHR ''s'']
            else show_nat h @ CHR ''h'' # show_nat m @ [CHR ''m''])
         else (if s > 0 then show_nat h @ CHR ''h'' # show_nat s @ [CHR ''s'']
               else show_nat h @ [CHR ''h'']))
      else (if m > 0 then
              (if s > 0 then show_nat m @ CHR ''m'' # show_nat s @ [CHR ''s'']
               else show_nat m @ [CHR ''m''])
            else show_nat s @ [CHR ''s'']))"
  by (simp add: format_duration_def Let_def)

lemma duration_parts: "(t::nat) = t div 3600 * 3600 + (t mod 3600) div 60 * 60 + t mod 60"
proof -
  have "t mod 3600 = (t mod 3600) div 60 * 60 + t mod 3600 mod 60"
    by (rule div_mult_mod_eq [symmetric])
  moreover have "t mod 3600 mod 60 = t mod 60"
    by (simp add: mod_mod_cancel)
  ultimately show ?thesis
    using div_mult_mod_eq [of t 3600] by linarith
qed

section \<open>Properties\<close>

text \<open>
  The format inverts the parser for just the durations one unit can spell: a positive
  duration printed by format_duration is read back by parse_duration (losing the sub-second
  part) if and only if only one of its hour, minute and second parts is not zero; every other
  printed duration, such as 1h30m, is rejected with the text itself as the error.
\<close>

theorem format_parse_duration:
  assumes "0 < as_secs d" and "duration_wf d"
  shows "parse_duration (format_duration d) =
           (if whole_unit d then Inr (Duration (as_secs d) 0) else Inl (format_duration d))"
proof -
  obtain t n where d: "d = Duration t n" by (cases d)
  let ?h = "t div 3600" and ?m = "(t mod 3600) div 60" and ?s = "t mod 60"
  have t: "t = ?h * 3600 + ?m * 60 + ?s" by (rule duration_parts)
  have pos: "0 < t" and lt: "t < 2 ^ 64" using assms d by (auto simp: duration_wf_def)
  have nd: "\<not> is_digit (CHR ''h'')" "\<not> is_digit (CHR ''m'')" by (auto simp: is_digit_def)
  have small: "?h < 2 ^ 64" "?m < 2 ^ 64" "?s < 2 ^ 64"
    using t lt by linarith+
  have um: "unit_multiplier (CHR ''s'') = Some 1" "unit_multiplier (CHR ''m'') = Some 60"
    "unit_multiplier (CHR ''h'') = Some 3600" by (auto simp: unit_multiplier_def)
  have H: "parse_duration (show_nat ?h @ [CHR ''h'']) = Inr (Duration t 0)" if "?m = 0" "?s = 0"
    using one_unit_parses [of ?h 3600, OF _ um(3)] that t pos lt small by auto
  have M: "parse_duration (show_nat ?m @ [CHR ''m'']) = Inr (Duration t 0)" if "?h = 0" "?s = 0"
    using one_unit_parses [of ?m 60, OF _ um(2)] that t pos lt small by auto
  have S: "parse_duration (show_nat ?s @ [CHR ''s'']) = Inr (Duration t 0)" if "?h = 0" "?m = 0"
    using one_unit_parses [of ?s 1, OF _ um(1)] that t pos lt small by auto
  note rej = two_units_rejected [OF nd(1)] two_units_rejected [OF nd(2)]
  have rej3: "parse_duration (show_nat ?h @ CHR ''h'' # show_nat ?m @ CHR ''m'' # show_nat ?s @ [CHR ''s''])
      = Inl (show_nat ?h @ CHR ''h'' # show_nat ?m @ CHR ''m'' # show_nat ?s @ [CHR ''s''])"
    using rej(1) [of "show_nat ?h" "show_nat ?m @ CHR ''m'' # show_nat ?s" "CHR ''s''"] by simp
  show ?thesis
    unfolding d format_duration_cases whole_unit_def Let_def
    using H M S rej rej3 pos t by auto
qed

theorem format_parse_duration_witness:
  "parse_duration (format_duration (Duration 5400 7)) = Inl ''1h30m'' \<and>
   parse_duration (format_duration (Duration 7200 7)) = Inr (Duration 7200 0)"
proof -
  have "format_duration (Duration 5400 7) = ''1h30m''" by code_simp
  then show ?thesis
    using format_parse_duration [of "Duration 5400 7"] format_parse_duration [of "Duration 7200 7"]
    by (simp add: duration_wf_def whole_unit_def)
qed

end
