(* ===== verification/Json.thy ===== *)
theory Json
  imports Prelude
begin

text \<open>
  serde_json's Value, the type of a task's payload and loop counters. Numbers keep serde_json's
  three forms: a non-negative integer (u64), a negative one (i64) and a float, which is kept as
  the text it prints as. An object is a BTreeMap: an association list sorted by key, so that
  iterating it visits the keys in byte order.
\<close>

type_synonym u64 = "64 word"
type_synonym u32 = "32 word"

datatype jnum = PosInt u64 | NegInt int | Float string

datatype json =
    JNull
  | JBool bool
  | JNum jnum
  | JStr string
  | JArr "json list"
  | JObj "(string \<times> json) list"

text \<open>BTreeMap's insert and remove.\<close>

fun obj_insert :: "string \<Rightarrow> 'v \<Rightarrow> (string \<times> 'v) list \<Rightarrow> (string \<times> 'v) list" where
  "obj_insert k v [] = [(k, v)]"
| "obj_insert k v ((k', v') # m) =
     (if k = k' then (k, v) # m
      else if k < k' then (k, v) # (k', v') # m
      else (k', v') # obj_insert k v m)"

definition obj_remove :: "string \<Rightarrow> (string \<times> 'v) list \<Rightarrow> (string \<times> 'v) list" where
  "obj_remove k m = filter (\<lambda>(k', _). k' \<noteq> k) m"

definition obj_ok :: "(string \<times> 'v) list \<Rightarrow> bool" where
  "obj_ok m = sorted_wrt (<) (map fst m)"

text \<open>The json! macro on an object literal.\<close>

definition obj_of :: "(string \<times> json) list \<Rightarrow> json" where
  "obj_of kvs = JObj (fold (\<lambda>(k, v). obj_insert k v) kvs [])"

fun jget :: "string \<Rightarrow> json \<Rightarrow> json option" where
  "jget k (JObj m) = map_of m k"
| "jget k _ = None"

fun is_object :: "json \<Rightarrow> bool" where
  "is_object (JObj m) = True"
| "is_object _ = False"

fun is_array :: "json \<Rightarrow> bool" where
  "is_array (JArr xs) = True"
| "is_array _ = False"

text \<open>The map behind a value that has just been made an object.\<close>

fun as_object :: "json \<Rightarrow> (string \<times> json) list option" where
  "as_object (JObj m) = Some m"
| "as_object _ = None"

fun as_array :: "json \<Rightarrow> json list option" where
  "as_array (JArr xs) = Some xs"
| "as_array _ = None"

fun as_str :: "json \<Rightarrow> string option" where
  "as_str (JStr s) = Some s"
| "as_str _ = None"

fun as_u64 :: "json \<Rightarrow> u64 option" where
  "as_u64 (JNum (PosInt n)) = Some n"
| "as_u64 _ = None"

text \<open>\<open>Value::as_i64\<close>, and a Value made from an i64.\<close>

fun as_i64 :: "json \<Rightarrow> int option" where
  "as_i64 (JNum (PosInt n)) = (if uint n < 2 ^ 63 then Some (uint n) else None)"
| "as_i64 (JNum (NegInt i)) = Some i"
| "as_i64 _ = None"

definition json_i64 :: "int \<Rightarrow> json" where
  "json_i64 i = JNum (if 0 \<le> i then PosInt (of_int i) else NegInt i)"

definition json_u64 :: "u64 \<Rightarrow> json" where
  "json_u64 n = JNum (PosInt n)"

text \<open>The code's "not an object: replace it by an empty one", and the writes through it.\<close>

definition ensure_object :: "json \<Rightarrow> json" where
  "ensure_object v = (if is_object v then v else JObj [])"

fun fields :: "json \<Rightarrow> (string \<times> json) list" where
  "fields (JObj m) = m"
| "fields _ = []"

text \<open>\<open>object.insert(k, v)\<close> and \<open>object.remove(k)\<close> on a value known to be an object.\<close>

definition jset :: "string \<Rightarrow> json \<Rightarrow> json \<Rightarrow> json" where
  "jset k v p = JObj (obj_insert k v (fields p))"

definition jremove :: "string \<Rightarrow> json \<Rightarrow> json" where
  "jremove k p = JObj (obj_remove k (fields p))"

fun show_jnum :: "jnum \<Rightarrow> string" where
  "show_jnum (PosInt n) = show_nat (unat n)"
| "show_jnum (NegInt i) =
     (if i < 0 then CHR ''-'' # show_nat (nat (- i)) else show_nat (nat i))"
| "show_jnum (Float t) = t"

definition show_bool :: "bool \<Rightarrow> string" where
  "show_bool b = (if b then ''true'' else ''false'')"

section \<open>Objects provide the map interface\<close>

lemma obj_insert_lookup: "map_of (obj_insert k v m) j = (if j = k then Some v else map_of m j)"
  by (induction k v m rule: obj_insert.induct) auto

lemma obj_remove_lookup: "map_of (obj_remove k m) j = (if j = k then None else map_of m j)"
  by (induction m) (auto simp: obj_remove_def)

lemma obj_insert_keys: "fst ` set (obj_insert k v m) = insert k (fst ` set m)"
  by (induction k v m rule: obj_insert.induct) auto

lemma obj_ok_Cons: "obj_ok ((k, v) # m) \<longleftrightarrow> (\<forall>j\<in>fst ` set m. k < j) \<and> obj_ok m"
  by (auto simp: obj_ok_def)

lemma obj_insert_ok: "obj_ok m \<Longrightarrow> obj_ok (obj_insert k v m)"
proof (induction k v m rule: obj_insert.induct)
  case (2 k v k' v' m)
  from "2.prems" have ok: "\<forall>j\<in>fst ` set m. k' < j" "obj_ok m"
    by (simp_all add: obj_ok_Cons)
  consider "k = k'" | "k \<noteq> k'" "k < k'" | "k \<noteq> k'" "\<not> k < k'" by blast
  then show ?case
  proof cases
    case 2
    with ok have "\<forall>j\<in>fst ` set m. k < j" by (meson order_less_trans)
    with 2 ok show ?thesis by (simp add: obj_ok_Cons)
  next
    case 3
    then have lt: "k' < k" by (meson antisym_conv3)
    have "obj_ok (obj_insert k v m)" using "2.IH" 3 ok by simp
    moreover have "\<forall>j\<in>fst ` set (obj_insert k v m). k' < j"
      using lt ok(1) by (simp only: obj_insert_keys) blast
    ultimately show ?thesis using 3 by (simp add: obj_ok_Cons)
  qed (use ok in \<open>simp add: obj_ok_Cons\<close>)
qed (simp add: obj_ok_def)

lemma obj_remove_ok: "obj_ok m \<Longrightarrow> obj_ok (obj_remove k m)"
proof -
  have "map fst (obj_remove k m) = filter (\<lambda>j. j \<noteq> k) (map fst m)"
    by (induction m) (auto simp: obj_remove_def)
  then show "obj_ok m \<Longrightarrow> obj_ok (obj_remove k m)"
    by (simp add: obj_ok_def sorted_wrt_filter)
qed

interpretation obj: string_map map_of obj_insert obj_remove obj_ok
  by unfold_locales (auto simp: obj_insert_lookup obj_remove_lookup obj_insert_ok obj_remove_ok)

lemma obj_ok_Nil [simp]: "obj_ok []"
  by (simp add: obj_ok_def)

lemma obj_ok_distinct: "obj_ok m \<Longrightarrow> distinct (map fst m)"
  unfolding obj_ok_def by (simp add: strict_sorted_iff)

section \<open>Reading after a write\<close>

lemma fields_ensure [simp]: "fields (ensure_object p) = fields p"
  by (cases p) (auto simp: ensure_object_def)

lemma is_object_ensure [simp]: "is_object (ensure_object p)"
  by (simp add: ensure_object_def)

lemma jget_fields: "jget k p = map_of (fields p) k"
  by (cases p) auto

lemma jget_ensure [simp]: "jget k (ensure_object p) = jget k p"
  by (simp add: jget_fields)

lemma jget_set: "jget j (jset k v p) = (if j = k then Some v else jget j p)"
  by (simp add: jset_def obj.lookup_insert jget_fields)

lemma jget_remove: "jget j (jremove k p) = (if j = k then None else jget j p)"
  by (simp add: jremove_def obj.lookup_remove jget_fields)

lemma jget_set_same [simp]: "jget k (jset k v p) = Some v"
  by (simp add: jget_set)

lemma jget_set_other [simp]: "j \<noteq> k \<Longrightarrow> jget j (jset k v p) = jget j p"
  by (simp add: jget_set)

lemma is_object_set [simp]: "is_object (jset k v p)" "is_object (jremove k p)"
  by (auto simp: jset_def jremove_def)

lemma fields_set [simp]:
  "fields (jset k v p) = obj_insert k v (fields p)" "fields (jremove k p) = obj_remove k (fields p)"
  by (auto simp: jset_def jremove_def)

lemma jget_obj_of [simp]: "jget k (obj_of []) = None"
  by (simp add: obj_of_def)

lemma jget_obj_of_snoc:
  "jget j (obj_of (kvs @ [(k, v)])) = (if j = k then Some v else jget j (obj_of kvs))"
  by (simp add: obj_of_def obj.lookup_insert)

lemma jget_obj_of_map: "jget j (obj_of kvs) = map_of (rev kvs) j"
proof (induction kvs rule: rev_induct)
  case (snoc kv kvs)
  then show ?case by (cases kv) (simp add: jget_obj_of_snoc)
qed simp

lemma is_object_obj_of [simp]: "is_object (obj_of kvs)"
  by (simp add: obj_of_def)

lemma as_object_iff: "as_object v = Some m \<longleftrightarrow> v = JObj m"
  by (cases v) auto

lemma as_str_iff: "as_str v = Some s \<longleftrightarrow> v = JStr s"
  by (cases v) auto

lemma jget_Some_object: "jget k v = Some w \<Longrightarrow> is_object v"
  by (cases v) auto

section \<open>The contract of a payload write\<close>

text \<open>
  Each engine-owned fact is written into the one payload blob by its own function. What the
  engine relies on is that such a write leaves an object and touches only its own keys; the
  consequences for a chain of writes are proved here once.
\<close>

locale payload_write =
  fixes w :: "json \<Rightarrow> json" and own :: "string set"
  assumes keeps_object: "is_object (w p)"
    and frame: "k \<notin> own \<Longrightarrow> jget k (w p) = jget k p"
begin

lemma frame_path: "k \<notin> own \<Longrightarrow>
    Option.bind (jget k (w p)) (jget j) = Option.bind (jget k p) (jget j)"
  by (simp add: frame)

lemma frame_compose:
  "k \<notin> own \<Longrightarrow> (\<And>q. jget k (f q) = jget k q) \<Longrightarrow> jget k (w (f p)) = jget k p"
  by (simp add: frame)

end

end
