(* ===== verification/Template.thy ===== *)
theory Template
  imports Json
begin

text \<open>
  chocofactoryd/src/template.rs: the substitution of \<open>{{ stages.<name>.<field> }}\<close> and its
  three sibling roots in commands and prompts. The scanner (parse), the reference grammar
  (parse_reference), the lookup in a task's payload (resolve) and render, which replaces a
  missing value by the empty string but aborts on broken syntax.
\<close>

section \<open>Data\<close>

definition OPEN :: string where "OPEN = ''{{''"
definition CLOSE :: string where "CLOSE = ''}}''"
definition NAMESPACE :: string where "NAMESPACE = ''stages''"
definition TASK_NAMESPACE :: string where "TASK_NAMESPACE = ''task''"
definition ARRIVAL_NAMESPACE :: string where "ARRIVAL_NAMESPACE = ''arrival''"
definition LEFT_AT :: string where "LEFT_AT = ''left_at''"
definition FINISHED_STAGES :: string where "FINISHED_STAGES = ''finished_stages''"

datatype root = StageRoot string | TaskRoot | ArrivalRoot | LeftAtRoot string

record template_ref =
  placeholder :: string
  root_of :: root
  path :: "string list"

datatype template_error =
    Malformed string string
  | UnknownNamespace string string
  | UnresolvedStage string string
  | UnresolvedField string string string
  | UnresolvedTaskField string string
  | UnresolvedArrivalField string string
  | UnresolvedLeftAt string string
  | NotScalar string string

datatype segment = Literal string | Reference template_ref

datatype unresolved_kind = StageNotRunYet | Missing

record unresolved =
  un_placeholder :: string
  un_kind :: unresolved_kind

section \<open>Parsing\<close>

definition is_missing_value :: "template_error \<Rightarrow> bool" where
  "is_missing_value e =
     (case e of
        Malformed _ _ \<Rightarrow> False
      | UnknownNamespace _ _ \<Rightarrow> False
      | _ \<Rightarrow> True)"

text \<open>The message an error is shown with.\<close>

fun show_template_error :: "template_error \<Rightarrow> string" where
  "show_template_error (Malformed ph reason) = ph @ '' is not a valid reference: '' @ reason"
| "show_template_error (UnknownNamespace ph r) =
     ph @ '' reads from '' @ squote r @ '', but '' @ squote NAMESPACE @ '', '' @ squote TASK_NAMESPACE @
     '', '' @ squote ARRIVAL_NAMESPACE @ '' and '' @ squote LEFT_AT @
     '' are the only namespaces a template can read from''"
| "show_template_error (UnresolvedStage ph stage) =
     ph @ '' has nothing to resolve against: stage '' @ squote stage @
     '' has captured nothing (it has not run yet, or it declares no '' @ squote ''capture:'' @ '')''"
| "show_template_error (UnresolvedField ph stage field) =
     ph @ '' has no value: stage '' @ squote stage @ '' captured no '' @ squote field"
| "show_template_error (UnresolvedTaskField ph field) =
     ph @ '' has no value: the task has no '' @ squote field"
| "show_template_error (UnresolvedArrivalField ph field) =
     ph @ '' has no value: the task has no arrival '' @ squote field @ '' (a payload from before #112)''"
| "show_template_error (UnresolvedLeftAt ph stage) =
     ph @ '' has no value: the task has not left stage '' @ squote stage @
     '' yet (or its payload is from before '' @ squote ''left_at'' @ '')''"
| "show_template_error (NotScalar ph k) =
     ph @ '' resolves to '' @ k @
     '', which cannot be substituted into a command or prompt; reference a single scalar field instead''"

definition parse_reference :: "string \<Rightarrow> (template_error, template_ref) result" where
  "parse_reference body =
     (let ph = OPEN @ body @ CLOSE; p = trim body in
      if p = [] then Inl (Malformed ph ''it is empty'')
      else if has_ws p then Inl (Malformed ph ''it has whitespace inside the path'')
      else
        (let parts = split_on (CHR ''.'') p; root_name = hd parts; remainder = tl parts in
         if [] \<in> set remainder then Inl (Malformed ph ''it has an empty path segment'')
         else if root_name = NAMESPACE then
           (case remainder of
              [] \<Rightarrow> Inl (Malformed ph ''it names no stage (expected `stages.<stage>`)'')
            | stage # rest \<Rightarrow>
                Inr \<lparr>placeholder = ph, root_of = StageRoot stage, path = rest\<rparr>)
         else if root_name = TASK_NAMESPACE then
           Inr \<lparr>placeholder = ph, root_of = TaskRoot, path = remainder\<rparr>
         else if root_name = ARRIVAL_NAMESPACE then
           (if remainder = [''from''] \<or> remainder = [''outcome''] then
              Inr \<lparr>placeholder = ph, root_of = ArrivalRoot, path = remainder\<rparr>
            else Inl (Malformed ph ''`arrival` only has `from` and `outcome` fields''))
         else if root_name = LEFT_AT then
           (case remainder of
              [stage] \<Rightarrow> Inr \<lparr>placeholder = ph, root_of = LeftAtRoot stage, path = []\<rparr>
            | _ \<Rightarrow> Inl (Malformed ph
                ''it must be `left_at.<stage>` with exactly one segment''))
         else Inl (UnknownNamespace ph root_name)))"

function parse :: "string \<Rightarrow> (template_error, segment list) result" where
  "parse rest =
     (case split_once OPEN rest of
        None \<Rightarrow> Inr (if rest = [] then [] else [Literal rest])
      | Some (before, after_open) \<Rightarrow>
          (case split_once CLOSE after_open of
             None \<Rightarrow> Inl (Malformed (OPEN @ after_open) ''no closing `}}`'')
           | Some (body, rest') \<Rightarrow>
               (case parse_reference body of
                  Inl e \<Rightarrow> Inl e
                | Inr r \<Rightarrow>
                    (case parse rest' of
                       Inl e \<Rightarrow> Inl e
                     | Inr segs \<Rightarrow>
                         Inr ((if before = [] then [] else [Literal before]) @ Reference r # segs)))))"
  by pat_completeness auto
termination
  by (relation "measure length") (auto dest!: split_once_Some simp: OPEN_def)

declare parse.simps [simp del]

fun refs_of :: "segment list \<Rightarrow> template_ref list" where
  "refs_of [] = []"
| "refs_of (Literal t # segs) = refs_of segs"
| "refs_of (Reference r # segs) = r # refs_of segs"

definition references :: "string \<Rightarrow> (template_error, template_ref list) result" where
  "references input = (case parse input of Inl e \<Rightarrow> Inl e | Inr segs \<Rightarrow> Inr (refs_of segs))"

section \<open>Resolving\<close>

text \<open>
  The fields of a path followed into a value; \<open>seen\<close> is the part already followed, for the
  error, which names the path up to the field that is not there.
\<close>

fun follow :: "template_ref \<Rightarrow> string list \<Rightarrow> string list \<Rightarrow> json \<Rightarrow> (template_error, json) result"
where
  "follow r seen [] v = Inr v"
| "follow r seen (f # fs) v =
     (case jget f v of
        Some v' \<Rightarrow> follow r (seen @ [f]) fs v'
      | None \<Rightarrow>
          (let field = join ''.'' (seen @ [f]) in
           case root_of r of
             StageRoot stage \<Rightarrow> Inl (UnresolvedField (placeholder r) stage field)
           | TaskRoot \<Rightarrow> Inl (UnresolvedTaskField (placeholder r) field)
           | ArrivalRoot \<Rightarrow> Inl (UnresolvedArrivalField (placeholder r) field)
           | LeftAtRoot stage \<Rightarrow> Inl (UnresolvedLeftAt (placeholder r) stage)))"

definition root_value :: "template_ref \<Rightarrow> json \<Rightarrow> (template_error, json) result" where
  "root_value r payload =
     (case root_of r of
        StageRoot stage \<Rightarrow>
          (case Option.bind (jget NAMESPACE payload) (jget stage) of
             Some v \<Rightarrow> Inr v | None \<Rightarrow> Inl (UnresolvedStage (placeholder r) stage))
      | TaskRoot \<Rightarrow> Inr (case jget TASK_NAMESPACE payload of Some v \<Rightarrow> v | None \<Rightarrow> JNull)
      | ArrivalRoot \<Rightarrow> Inr (case jget ARRIVAL_NAMESPACE payload of Some v \<Rightarrow> v | None \<Rightarrow> JNull)
      | LeftAtRoot stage \<Rightarrow>
          (case Option.bind (jget LEFT_AT payload) (jget stage) of
             Some v \<Rightarrow> Inr v | None \<Rightarrow> Inl (UnresolvedLeftAt (placeholder r) stage)))"

definition scalar_text :: "template_ref \<Rightarrow> json \<Rightarrow> (template_error, string) result" where
  "scalar_text r v =
     (case v of
        JStr t \<Rightarrow> Inr t
      | JNum n \<Rightarrow> Inr (show_jnum n)
      | JBool b \<Rightarrow> Inr (show_bool b)
      | JNull \<Rightarrow> Inl (NotScalar (placeholder r) ''null'')
      | JObj _ \<Rightarrow> Inl (NotScalar (placeholder r) ''an object'')
      | JArr _ \<Rightarrow> Inl (NotScalar (placeholder r) ''an array''))"

definition resolve :: "template_ref \<Rightarrow> json \<Rightarrow> (template_error, string) result" where
  "resolve r payload =
     and_then (root_value r payload) (\<lambda>v. and_then (follow r [] (path r) v) (scalar_text r))"

definition stage_finished :: "json \<Rightarrow> string \<Rightarrow> bool" where
  "stage_finished payload stage =
     (case Option.bind (jget FINISHED_STAGES payload) as_array of
        None \<Rightarrow> False
      | Some done \<Rightarrow> list_ex (\<lambda>s. as_str s = Some stage) done)"

section \<open>Rendering\<close>

definition unresolved_kind_of :: "json \<Rightarrow> template_error \<Rightarrow> unresolved_kind" where
  "unresolved_kind_of payload e =
     (case e of
        UnresolvedStage _ stage \<Rightarrow>
          (if \<not> stage_finished payload stage then StageNotRunYet else Missing)
      | UnresolvedLeftAt _ _ \<Rightarrow> StageNotRunYet
      | _ \<Rightarrow> Missing)"

text \<open>The loop over the segments, with the text and the notes so far.\<close>

fun render_segments ::
  "json \<Rightarrow> segment list \<Rightarrow> string \<Rightarrow> unresolved list \<Rightarrow> (template_error, string \<times> unresolved list) result"
where
  "render_segments payload [] rendered notes = Inr (rendered, notes)"
| "render_segments payload (Literal t # segs) rendered notes =
     render_segments payload segs (rendered @ t) notes"
| "render_segments payload (Reference r # segs) rendered notes =
     (case resolve r payload of
        Inr t \<Rightarrow> render_segments payload segs (rendered @ t) notes
      | Inl e \<Rightarrow>
          (if is_missing_value e then
             render_segments payload segs rendered
               (notes @ [\<lparr>un_placeholder = placeholder r, un_kind = unresolved_kind_of payload e\<rparr>])
           else Inl e))"

definition render :: "string \<Rightarrow> json \<Rightarrow> (template_error, string \<times> unresolved list) result" where
  "render input payload =
     (if \<not> str_contains OPEN input then Inr (input, [])
      else (case parse input of
              Inl e \<Rightarrow> Inl e
            | Inr segs \<Rightarrow> render_segments payload segs [] []))"

section \<open>What the functions are compared with\<close>

fun segment_text :: "segment \<Rightarrow> string" where
  "segment_text (Literal t) = t"
| "segment_text (Reference r) = placeholder r"

text \<open>What one reference contributes to the rendered text, and to the notes.\<close>

definition ref_text :: "json \<Rightarrow> template_ref \<Rightarrow> string" where
  "ref_text payload r = (case resolve r payload of Inr t \<Rightarrow> t | Inl _ \<Rightarrow> [])"

definition ref_notes :: "json \<Rightarrow> template_ref \<Rightarrow> unresolved list" where
  "ref_notes payload r =
     (case resolve r payload of
        Inr t \<Rightarrow> []
      | Inl e \<Rightarrow> [\<lparr>un_placeholder = placeholder r, un_kind = unresolved_kind_of payload e\<rparr>])"

fun segment_value :: "json \<Rightarrow> segment \<Rightarrow> string" where
  "segment_value payload (Literal t) = t"
| "segment_value payload (Reference r) = ref_text payload r"

text \<open>What the loader may rely on of every reference the parser returns.\<close>

definition segment_name_ok :: "string \<Rightarrow> bool" where
  "segment_name_ok s = (s \<noteq> [] \<and> CHR ''.'' \<notin> set s \<and> \<not> has_ws s)"

definition ref_wf :: "template_ref \<Rightarrow> bool" where
  "ref_wf r =
     ((\<exists>body. placeholder r = OPEN @ body @ CLOSE) \<and>
      list_all segment_name_ok (path r) \<and>
      (case root_of r of
         StageRoot stage \<Rightarrow> segment_name_ok stage
       | TaskRoot \<Rightarrow> True
       | ArrivalRoot \<Rightarrow> path r = [''from''] \<or> path r = [''outcome'']
       | LeftAtRoot stage \<Rightarrow> segment_name_ok stage \<and> path r = []))"

section \<open>Lemmas\<close>

lemma has_ws_append: "has_ws x \<or> has_ws y \<Longrightarrow> has_ws (x @ y)"
proof (induction x)
  case (Cons c x)
  have "strip_any ws_chars (c # x) \<noteq> None \<Longrightarrow> strip_any ws_chars (c # x @ y) \<noteq> None"
    by (auto simp: strip_any_None) (metis append_Cons append_assoc)
  with Cons show ?case by auto
qed simp

lemma join_no_ws: "\<not> has_ws (join sep xs) \<Longrightarrow> x \<in> set xs \<Longrightarrow> \<not> has_ws x"
proof (induction sep xs rule: join.induct)
  case (3 sep y z zs)
  have "\<not> has_ws y" "\<not> has_ws (join sep (z # zs))"
    using "3.prems"(1) has_ws_append [of y "sep @ join sep (z # zs)"]
      has_ws_append [of sep "join sep (z # zs)"] by auto
  with 3 show ?case by auto
qed auto

lemma split_on_no_ws: "\<not> has_ws p \<Longrightarrow> x \<in> set (split_on d p) \<Longrightarrow> \<not> has_ws x"
  using join_no_ws [of "[d]" "split_on d p" x] by (simp add: split_on_join)

lemma parse_reference_placeholder:
  "parse_reference body = Inr r \<Longrightarrow> placeholder r = OPEN @ body @ CLOSE"
  by (auto simp: parse_reference_def Let_def split: if_splits list.splits)

lemma parse_reference_wf: "parse_reference body = Inr r \<Longrightarrow> ref_wf r"
proof -
  assume a: "parse_reference body = Inr r"
  let ?parts = "split_on (CHR ''.'') (trim body)"
  have ne: "\<not> has_ws (trim body)" and segs: "[] \<notin> set (tl ?parts)"
    using a by (auto simp: parse_reference_def Let_def split: if_splits)
  have parts: "segment_name_ok x" if "x \<in> set (tl ?parts)" for x
    using that segs split_on_no_ws [OF ne] split_on_no_sep
    by (metis list.set_sel(2) segment_name_ok_def split_on_ne)
  show ?thesis
    using a parts
    by (auto simp: parse_reference_def Let_def ref_wf_def list_all_iff segment_name_ok_def
        split: if_splits list.splits)
qed

lemma parse_step:
  assumes "split_once OPEN rest = Some (before, after_open)"
    and "split_once CLOSE after_open = Some (body, rest')"
    and "parse_reference body = Inr r" and "parse rest' = Inr segs"
  shows "parse rest = Inr ((if before = [] then [] else [Literal before]) @ Reference r # segs)"
  using assms by (subst parse.simps) simp

lemma parse_cases:
  assumes "parse rest = Inr out"
  obtains (rest) "split_once OPEN rest = None" "out = (if rest = [] then [] else [Literal rest])"
  | (ref) before after_open body rest' r segs where
      "split_once OPEN rest = Some (before, after_open)"
      "split_once CLOSE after_open = Some (body, rest')"
      "parse_reference body = Inr r" "parse rest' = Inr segs"
      "out = (if before = [] then [] else [Literal before]) @ Reference r # segs"
  using assms
  by (subst (asm) parse.simps) (auto split: option.splits sum.splits prod.splits)

lemma parse_text: "parse input = Inr segs \<Longrightarrow> concat (map segment_text segs) = input"
proof (induction input arbitrary: segs rule: parse.induct)
  case (1 rest)
  from "1.prems" show ?case
  proof (cases rule: parse_cases)
    case rest
    then show ?thesis by simp
  next
    case (ref before after_open body rest' r segs')
    then show ?thesis
      using "1.IH" [OF ref(1) refl ref(2) refl ref(3) ref(4)]
        split_once_Some [OF ref(1)] split_once_Some [OF ref(2)]
      by (simp add: parse_reference_placeholder)
  qed
qed

lemma parse_refs_wf: "parse input = Inr segs \<Longrightarrow> Reference r \<in> set segs \<Longrightarrow> ref_wf r"
proof (induction input arbitrary: segs rule: parse.induct)
  case (1 rest)
  from "1.prems"(1) show ?case
  proof (cases rule: parse_cases)
    case rest
    then show ?thesis using "1.prems"(2) by (auto split: if_splits)
  next
    case (ref before after_open body rest' r' segs')
    then show ?thesis
      using "1.IH" [OF ref(1) refl ref(2) refl ref(3) ref(4)] "1.prems"(2) parse_reference_wf
      by (auto split: if_splits)
  qed
qed

lemma parse_literal_clean:
  "parse input = Inr segs \<Longrightarrow> Literal t \<in> set segs \<Longrightarrow> t \<noteq> [] \<and> \<not> str_contains OPEN t"
proof (induction input arbitrary: segs rule: parse.induct)
  case (1 rest)
  from "1.prems"(1) show ?case
  proof (cases rule: parse_cases)
    case rest
    then show ?thesis
      using "1.prems"(2) by (auto simp: str_contains_def split: if_splits)
  next
    case (ref before after_open body rest' r' segs')
    have "\<not> str_contains OPEN before"
      using split_once_first [OF ref(1)] by (simp add: OPEN_def)
    then show ?thesis
      using ref "1.IH" [OF ref(1) refl ref(2) refl ref(3) ref(4)] "1.prems"(2)
      by (auto split: if_splits)
  qed
qed

lemma refs_of_set: "r \<in> set (refs_of segs) \<longleftrightarrow> Reference r \<in> set segs"
  by (induction segs rule: refs_of.induct) auto

lemma follow_missing: "follow r seen fs v = Inl e \<Longrightarrow> is_missing_value e"
  by (induction r seen fs v rule: follow.induct)
     (auto simp: is_missing_value_def Let_def split: option.splits root.splits)

lemma root_value_missing: "root_value r payload = Inl e \<Longrightarrow> is_missing_value e"
  by (auto simp: root_value_def is_missing_value_def split: root.splits option.splits)

lemma scalar_text_missing: "scalar_text r v = Inl e \<Longrightarrow> is_missing_value e"
  by (auto simp: scalar_text_def is_missing_value_def split: json.splits)

lemma resolve_missing: "resolve r payload = Inl e \<Longrightarrow> is_missing_value e"
  by (cases "root_value r payload"; cases "follow r [] (path r) (projr (root_value r payload))")
     (auto simp: resolve_def dest: root_value_missing scalar_text_missing follow_missing)

lemma render_segments_eq:
  "render_segments payload segs rendered acc =
     Inr (rendered @ concat (map (segment_value payload) segs),
          acc @ concat (map (ref_notes payload) (refs_of segs)))"
  by (induction payload segs rendered acc rule: render_segments.induct)
     (auto simp: ref_text_def ref_notes_def split: sum.splits dest: resolve_missing)

lemma parse_no_open: "\<not> str_contains OPEN input \<Longrightarrow> parse input = Inr (if input = [] then [] else [Literal input])"
  by (subst parse.simps) (simp add: str_contains_def del: not_None_eq)

lemma render_eq:
  "render input payload =
     (case parse input of
        Inl e \<Rightarrow> Inl e
      | Inr segs \<Rightarrow> Inr (concat (map (segment_value payload) segs),
                       concat (map (ref_notes payload) (refs_of segs))))"
  by (auto simp: render_def render_segments_eq parse_no_open split: sum.splits)

section \<open>Properties\<close>

text \<open>
  C30. Scanning loses nothing: the literal texts and the placeholders of the segments, put back
  together in order, are the input, every literal is non-empty and holds no opening braces, and
  every reference is well formed (its path segments are non-empty, without dots or white space,
  an arrival reference names from or outcome, and a left_at reference has an empty path, so
  resolve's last branch is never reached).
\<close>

theorem parse_lossless:
  assumes "parse input = Inr segs"
  shows "concat (map segment_text segs) = input
    \<and> (\<forall>t. Literal t \<in> set segs \<longrightarrow> t \<noteq> [] \<and> \<not> str_contains OPEN t)
    \<and> (\<forall>r. Reference r \<in> set segs \<longrightarrow> ref_wf r)"
  using assms parse_text parse_literal_clean parse_refs_wf by blast

theorem parse_lossless_witness:
  "\<exists>r. concat (map segment_text [Literal ''a'', Reference r]) = ''a{{ task.title }}'' \<and> ref_wf r"
proof -
  let ?r = "\<lparr>placeholder = ''{{ task.title }}'', root_of = TaskRoot, path = [''title'']\<rparr>"
  have "parse ''a{{ task.title }}'' = Inr [Literal ''a'', Reference ?r]" by code_simp
  from parse_lossless [OF this] show ?thesis by (intro exI [of _ ?r]) simp
qed

text \<open>
  The loader's check is exact: rendering a text fails on some payload if and only if
  references rejects the text, with the same error and whatever the payload is. A definition
  whose templates passed the load-time check therefore never fails to render at run time; a
  value that is missing only ever becomes an empty string.
\<close>

theorem render_fails_iff_references_fails:
  "render input payload = Inl e \<longleftrightarrow> references input = Inl e"
  by (simp add: render_eq references_def split: sum.splits)

text \<open>
  A rendered text is the input with each reference replaced by its value, or by nothing when
  it has none, and the notes name exactly the references without a value, in order, each with
  the kind its error has. The early return for a text without placeholders makes no difference.
\<close>

theorem render_substitutes:
  assumes "references input = Inr refs"
  shows "\<exists>segs. parse input = Inr segs \<and> refs_of segs = refs \<and>
     render input payload =
       Inr (concat (map (segment_value payload) segs), concat (map (ref_notes payload) refs))"
  using assms by (auto simp: references_def render_eq split: sum.splits)

theorem render_substitutes_witness:
  "\<exists>segs. parse ''{{ left_at.code }}!'' = Inr segs \<and>
     render ''{{ left_at.code }}!'' (obj_of []) =
       Inr (concat (map (segment_value (obj_of [])) segs),
            [\<lparr>un_placeholder = ''{{ left_at.code }}'', un_kind = StageNotRunYet\<rparr>])"
proof -
  let ?r = "\<lparr>placeholder = ''{{ left_at.code }}'', root_of = LeftAtRoot ''code'', path = []\<rparr>"
  have "references ''{{ left_at.code }}!'' = Inr [?r]" by code_simp
  from render_substitutes [OF this, of "obj_of []"] show ?thesis
    by (auto simp: ref_notes_def resolve_def root_value_def unresolved_kind_of_def)
qed

end
