(* ===== verification/Report.thy ===== *)
theory Report
  imports Json "HOL-Library.Sublist"
begin

text \<open>
  chocofactory-core/src/mcp.rs: the rules of the report_outcome tool. normalize_report_heading
  and the functions below it reduce a heading to what matching cares about, missing_sections
  finds the required sections a summary does not account for, and check_report_call validates
  one call, counting the section rejections of its process. Lower-casing and the alphanumeric
  class beyond ASCII come from Unicode's tables, the parameter \<open>unicode\<close>.
\<close>

section \<open>Characters\<close>

record unicode =
  u_lower :: "string \<Rightarrow> string"
  u_alnum :: "string \<Rightarrow> bool"

text \<open>The documented behaviour of the tables on ASCII.\<close>

definition unicode_ok :: "unicode \<Rightarrow> bool" where
  "unicode_ok U =
     (\<forall>s. list_all (\<lambda>c. (of_char c :: nat) < 128) s \<longrightarrow> u_lower U s = map ascii_lower s)"

definition is_cont :: "char \<Rightarrow> bool" where
  "is_cont c = (128 \<le> (of_char c :: nat) \<and> (of_char c :: nat) < 192)"

text \<open>The characters of a text, each as the bytes of its encoding.\<close>

fun uchars :: "string \<Rightarrow> string list" where
  "uchars [] = []"
| "uchars (c # cs) =
     (case uchars cs of
        [] \<Rightarrow> [[c]]
      | u # us \<Rightarrow> if u \<noteq> [] \<and> is_cont (hd u) then (c # u) # us else [c] # u # us)"

fun is_alphanumeric :: "unicode \<Rightarrow> string \<Rightarrow> bool" where
  "is_alphanumeric U [] = False"
| "is_alphanumeric U [c] = (is_digit c \<or> is_ascii_alpha c)"
| "is_alphanumeric U (c # d # cs) = u_alnum U (c # d # cs)"

fun ws_pieces :: "string list \<Rightarrow> string list" where
  "ws_pieces [] = [[]]"
| "ws_pieces (u # us) =
     (if u \<in> set ws_chars then [] # ws_pieces us
      else (case ws_pieces us of [] \<Rightarrow> [u] | p # ps \<Rightarrow> (u @ p) # ps))"

definition split_whitespace :: "string \<Rightarrow> string list" where
  "split_whitespace s = filter (\<lambda>p. p \<noteq> []) (ws_pieces (uchars s))"

text \<open>\<open>str::lines\<close>: a line ends at a newline, which takes one carriage return before it along.\<close>

definition str_lines :: "string \<Rightarrow> string list" where
  "str_lines s =
     (let ps = split_on (CHR 0x0A) s;
          chomp = (\<lambda>l. if l \<noteq> [] \<and> last l = CHR 0x0D then butlast l else l)
      in map chomp (butlast ps) @ (if last ps = [] then [] else [last ps]))"

fun replace_all :: "string \<Rightarrow> string \<Rightarrow> nat \<Rightarrow> string \<Rightarrow> string" where
  "replace_all p q 0 s = s"
| "replace_all p q (Suc n) s =
     (case split_once p s of None \<Rightarrow> s | Some (a, b) \<Rightarrow> a @ q @ replace_all p q n b)"

section \<open>Headings\<close>

definition ARROW :: string where "ARROW = [CHR 0xE2, CHR 0x86, CHR 0x92]"
definition EM_DASH :: string where "EM_DASH = [CHR 0xE2, CHR 0x80, CHR 0x94]"
definition EN_DASH :: string where "EN_DASH = [CHR 0xE2, CHR 0x80, CHR 0x93]"

text \<open>\<open>trim_start_matches\<close> and \<open>trim_end_matches\<close> of a set of characters.\<close>

definition trim_start_of :: "string list \<Rightarrow> string \<Rightarrow> string" where
  "trim_start_of ws s = strip_all (length s) ws s"

definition trim_end_of :: "string list \<Rightarrow> string \<Rightarrow> string" where
  "trim_end_of ws s = rev (strip_all (length s) (map rev ws) (rev s))"

definition starts_a_bullet :: "string \<Rightarrow> bool" where
  "starts_a_bullet text =
     (case trim_start text of
        [] \<Rightarrow> False
      | c # rest \<Rightarrow> c \<in> set ''-*+'' \<and> strip_any ws_chars rest \<noteq> None)"

definition strip_ordered_list_marker :: "string \<Rightarrow> string" where
  "strip_ordered_list_marker text =
     (let digits = takeWhile is_digit text in
      if digits = [] then text
      else (case drop (length digits) text of
              [] \<Rightarrow> text
            | c # rest \<Rightarrow>
                (if c \<in> set ''.)'' then (if strip_any ws_chars rest \<noteq> None then rest else text)
                 else text)))"

text \<open>One pass of the loop in strip_leading_markers.\<close>

definition strip_pass :: "string \<Rightarrow> string" where
  "strip_pass before =
     (let rest = trim_start_of [''#'', ''>'', ''`'', [CHR 0x22], ''_'', ''*''] before;
          rest = strip_all (length rest) [''**''] rest;
          rest = (if starts_a_bullet rest then tl (trim_start rest) else rest);
          rest = strip_ordered_list_marker rest
      in trim_start rest)"

text \<open>A pass only ever drops a prefix, so the loop, which stops when a pass changes nothing, ends.\<close>

definition is_suffix :: "string \<Rightarrow> string \<Rightarrow> bool" where
  "is_suffix r s = (\<exists>q. s = q @ r)"

lemma is_suffix_refl [simp]: "is_suffix s s"
  by (simp add: is_suffix_def)

lemma is_suffix_trans: "is_suffix r s \<Longrightarrow> is_suffix s t \<Longrightarrow> is_suffix r t"
  by (auto simp: is_suffix_def)

lemma is_suffix_strip_all: "is_suffix (strip_all n ws s) s"
  using strip_all_suffix by (auto simp: is_suffix_def)

lemma is_suffix_trim_start: "is_suffix (trim_start s) s"
  by (simp add: trim_start_def is_suffix_strip_all)

lemma is_suffix_tl: "is_suffix (tl s) s"
  by (cases s) (auto simp: is_suffix_def)

lemma is_suffix_marker: "is_suffix (strip_ordered_list_marker s) s"
proof -
  have "is_suffix (drop n s) s" for n
    by (metis append_take_drop_id is_suffix_def)
  then show ?thesis
    using is_suffix_trans [OF is_suffix_tl, of "drop (length (takeWhile is_digit s)) s" s]
    by (auto simp: strip_ordered_list_marker_def Let_def split: list.splits)
qed

lemma is_suffix_pass: "is_suffix (strip_pass s) s"
  unfolding strip_pass_def Let_def trim_start_of_def
  by (auto intro!: is_suffix_trans [OF is_suffix_trim_start] is_suffix_trans [OF is_suffix_marker]
      is_suffix_trans [OF is_suffix_tl] is_suffix_trans [OF is_suffix_strip_all] is_suffix_strip_all)

lemma is_suffix_length: "is_suffix r s \<Longrightarrow> r \<noteq> s \<Longrightarrow> length r < length s"
  by (auto simp: is_suffix_def)

function strip_markers_loop :: "string \<Rightarrow> string" where
  "strip_markers_loop rest =
     (let next_rest = strip_pass rest in
      if next_rest = rest then rest else strip_markers_loop next_rest)"
  by pat_completeness auto
termination
  by (relation "measure length") (auto intro: is_suffix_length is_suffix_pass)

declare strip_markers_loop.simps [simp del]

definition strip_leading_markers :: "string \<Rightarrow> string" where
  "strip_leading_markers text = strip_markers_loop (trim_start text)"

definition split_word_internal_hyphens :: "unicode \<Rightarrow> string \<Rightarrow> string" where
  "split_word_internal_hyphens U text =
     (let chars = uchars text in
      concat (map (\<lambda>i. if chars ! i = ''-''
                         \<and> i > 0 \<and> is_alphanumeric U (chars ! (i - 1))
                         \<and> i + 1 < length chars \<and> is_alphanumeric U (chars ! (i + 1))
                       then '' '' else chars ! i) [0..<length chars]))"

definition normalize_report_heading :: "unicode \<Rightarrow> string \<Rightarrow> string" where
  "normalize_report_heading U text =
     (let lowered = u_lower U (replace_all ARROW ''->'' (length text) text);
          without_markers = strip_leading_markers lowered;
          without_markers =
            trim_end_of [''*'', ''_'', ''#'', ''`'', [CHR 0x22], '' '', [CHR 0x09]] without_markers;
          unhyphenated = split_word_internal_hyphens U without_markers
      in join '' '' (split_whitespace unhyphenated))"

section \<open>Sections\<close>

definition heads_a_section :: "unicode \<Rightarrow> string \<Rightarrow> bool" where
  "heads_a_section U rest =
     (if (case uchars rest of [] \<Rightarrow> False | u # _ \<Rightarrow> is_alphanumeric U u) then False
      else (let rest = trim rest in
            rest = [] \<or>
            list_ex (\<lambda>p. starts_with p rest)
              ['':'', ''('', ''['', ''{'', EM_DASH, EN_DASH, ''-'', '','', ''.'', ''/'', ''*'', ''#'']))"

text \<open>\<open>max_by_key\<close> keeps the last of several maxima.\<close>

fun longest_name :: "(nat \<times> string) list \<Rightarrow> (nat \<times> string) option" where
  "longest_name [] = None"
| "longest_name (x # xs) =
     (case longest_name xs of
        None \<Rightarrow> Some x
      | Some y \<Rightarrow> if length (snd x) > length (snd y) then Some x else Some y)"

definition heading_for :: "unicode \<Rightarrow> string \<Rightarrow> string list \<Rightarrow> (nat \<times> string) option" where
  "heading_for U line normalized_names =
     (let normalized_line = normalize_report_heading U line;
          matches = filter (\<lambda>(i, name). case strip_prefix name normalized_line of
                                          None \<Rightarrow> False | Some rest \<Rightarrow> heads_a_section U rest)
                      (enumerate 0 normalized_names)
      in case longest_name matches of
           None \<Rightarrow> None
         | Some (index, name) \<Rightarrow>
             Some (index,
               trim_start_of ['':'', ''-'', EM_DASH, EN_DASH, ''*'', ''_'', ''#'', ''.'', '' '', [CHR 0x09]]
                 (drop (length name) normalized_line)))"

text \<open>The loop over the lines, each with the section it is a heading for.\<close>

fun scan_sections :: "(string \<times> (nat \<times> string) option) list \<Rightarrow> bool list \<Rightarrow> bool list" where
  "scan_sections [] satisfied = satisfied"
| "scan_sections ((line, None) # later) satisfied = scan_sections later satisfied"
| "scan_sections ((line, Some (sec, rest_of_line)) # later) satisfied =
     (if satisfied ! sec then scan_sections later satisfied
      else
        (let has_content =
               (trim rest_of_line \<noteq> [] \<or>
                list_ex (\<lambda>(l, _). trim l \<noteq> [])
                  (takeWhile (\<lambda>(_, h). case h of Some (other, _) \<Rightarrow> satisfied ! other | None \<Rightarrow> True)
                     later))
         in scan_sections later (satisfied[sec := has_content])))"

definition missing_sections :: "unicode \<Rightarrow> string \<Rightarrow> string list \<Rightarrow> string list" where
  "missing_sections U summary required =
     (if required = [] then []
      else
        (let names = map (normalize_report_heading U) required;
             lines = str_lines summary;
             headings = map (\<lambda>l. heading_for U l names) lines;
             satisfied = scan_sections (zip lines headings) (replicate (length required) False)
         in map fst (filter (\<lambda>(_, ok). \<not> ok) (zip required satisfied))))"

section \<open>The tool's answers\<close>

definition MAX_SECTION_REJECTIONS :: u32 where "MAX_SECTION_REJECTIONS = 2"

record stage_report =
  outcomes :: "string list"
  required_sections :: "string list"

record report_check =
  rc_text :: string
  rc_is_error :: bool

definition rc_error :: "string \<Rightarrow> report_check" where
  "rc_error t = \<lparr>rc_text = t, rc_is_error = True\<rparr>"

definition rc_success :: "string \<Rightarrow> report_check" where
  "rc_success t = \<lparr>rc_text = t, rc_is_error = False\<rparr>"

definition quoted_list :: "string list \<Rightarrow> string" where
  "quoted_list items =
     (let quoted = map squote items in
      case quoted of
        [] \<Rightarrow> []
      | [x] \<Rightarrow> x
      | _ \<Rightarrow> join '', '' (butlast quoted) @ '' and '' @ last quoted)"

definition allowed_clause :: "string list \<Rightarrow> string" where
  "allowed_clause os =
     (if os = [] then [] else '' Allowed values are: '' @ join '', '' os @ ''.'')"

definition missing_sections_message :: "string list \<Rightarrow> string list \<Rightarrow> string" where
  "missing_sections_message missing required =
     ''Your report'' @ [CHR 0x27] @ ''s '' @ squote ''summary'' @ '' is missing '' @ quoted_list missing @
     '': each required section needs a heading line with something under it (a section with genuinely nothing in it says '' @
     [CHR 0x22] @ ''<section>: none'' @ [CHR 0x22] @
     ''). Required sections, in order: '' @ join '', '' required @
     ''. Finish the walks you skipped, then call this tool again with the complete report.''"

definition check_report_call ::
  "unicode \<Rightarrow> stage_report \<Rightarrow> u32 \<Rightarrow> json \<Rightarrow> report_check \<times> u32"
where
  "check_report_call U stage thin_reports arguments =
     (let allowed = outcomes stage;
          given = Option.bind (jget ''outcome'' arguments) as_str
      in case (case given of Some oc \<Rightarrow> (if trim oc \<noteq> [] then Some (trim oc) else None) | None \<Rightarrow> None) of
           None \<Rightarrow>
             (rc_error (squote ''outcome'' @ '' is required and must be a non-empty string.'' @ allowed_clause allowed),
              thin_reports)
         | Some outcome \<Rightarrow>
             (if allowed \<noteq> [] \<and> outcome \<notin> set allowed then
                (rc_error (squote outcome @ '' is not a valid outcome for this stage.'' @
                   allowed_clause allowed @ '' Call this tool again with one of those.''),
                 thin_reports)
              else
                (case Option.bind (jget ''summary'' arguments) as_str of
                   None \<Rightarrow>
                     (rc_error (squote ''summary'' @ '' is required and must be a string (it may be empty).''),
                      thin_reports)
                 | Some summary \<Rightarrow>
                     (let missing = missing_sections U summary (required_sections stage) in
                      if missing \<noteq> [] then
                        (let thin = thin_reports + 1 in
                         if thin \<le> MAX_SECTION_REJECTIONS then
                           (rc_error (missing_sections_message missing (required_sections stage)), thin)
                         else
                           (rc_success (''Recorded outcome '' @ squote outcome @
                              ''. Its report is still missing '' @ quoted_list missing @
                              '', and this is attempt '' @ show_nat (unat thin) @
                              '', so it was recorded as it stands.''), thin))
                      else
                        (rc_success (''Recorded outcome '' @ squote outcome @ ''.''),
                         thin_reports)))))"

definition sections_clause :: "string list \<Rightarrow> string" where
  "sections_clause required =
     (if required = [] then []
      else '' Its '' @ squote ''summary'' @
        '' must carry these sections, best written in this order: '' @ join '', '' required @ ''.'')"

definition tool_definition :: "stage_report \<Rightarrow> json" where
  "tool_definition stage =
     (let os = outcomes stage; req = required_sections stage;
          outcome_schema =
            obj_of [(''type'', JStr ''string''),
                    (''description'',
                     JStr (if os = [] then ''A short outcome label for this stage.''
                           else ''One of: '' @ join '', '' os @ ''.''))];
          outcome_schema =
            (if os = [] then outcome_schema else jset ''enum'' (JArr (map JStr os)) outcome_schema);
          description =
            (if os = [] then
               ''Report a status for this stage. Optional '' @ EM_DASH @
               '' this stage does not route on reported outcomes, so the report is recorded on the task'' @
               [CHR 0x27] @ ''s timeline but does not affect what happens next.'' @ sections_clause req
             else
               ''Report this stage'' @ [CHR 0x27] @
               ''s outcome so the workflow can route on it. Call this before you end your turn. '' @
               squote ''outcome'' @ '' must be exactly one of: '' @ join '', '' os @ ''.'' @
               sections_clause req);
          summary_description =
            ''Your reasoning, specific enough for whoever acts on this next to work from without re-reading your whole turn. Write this out in full *before* you settle on '' @
            squote ''outcome'' @
            '': the outcome follows from what you found, not the other way round.'' @
            (if req = [] then '' May be empty when there is nothing to add.''
             else '' This stage requires these sections, each with a heading line and something under it '' @
               EM_DASH @ '' a section with genuinely nothing in it says '' @ [CHR 0x22] @
               ''<section>: none'' @ [CHR 0x22] @ '': '' @ join '', '' req @
               ''. Write in that order. A report missing any of them is rejected and you will be asked to call again.'')
      in obj_of [(''name'', JStr ''report_outcome''),
                 (''description'', JStr description),
                 (''inputSchema'',
                  obj_of [(''type'', JStr ''object''),
                          (''properties'',
                           obj_of [(''outcome'', outcome_schema),
                                   (''summary'',
                                    obj_of [(''type'', JStr ''string''),
                                            (''description'', JStr summary_description)])]),
                          (''required'', JArr [JStr ''outcome'', JStr ''summary''])])])"

text \<open>A process's calls one after another, threading the rejection counter.\<close>

fun report_run :: "unicode \<Rightarrow> stage_report \<Rightarrow> u32 \<Rightarrow> json list \<Rightarrow> report_check list \<times> u32" where
  "report_run U stage thin [] = ([], thin)"
| "report_run U stage thin (a # as) =
     (let (c, thin') = check_report_call U stage thin a;
          (cs, thin'') = report_run U stage thin' as
      in (c # cs, thin''))"

text \<open>A call that is right in everything but its sections.\<close>

definition well_formed_call :: "stage_report \<Rightarrow> json \<Rightarrow> bool" where
  "well_formed_call stage a =
     (case Option.bind (jget ''outcome'' a) as_str of
        None \<Rightarrow> False
      | Some oc \<Rightarrow> trim oc \<noteq> [] \<and> (outcomes stage = [] \<or> trim oc \<in> set (outcomes stage)) \<and>
          Option.bind (jget ''summary'' a) as_str \<noteq> None)"

section \<open>Lemmas\<close>

lemma strip_markers_fixpoint: "strip_pass (strip_markers_loop s) = strip_markers_loop s"
proof (induction s rule: strip_markers_loop.induct)
  case (1 rest)
  then show ?case
    by (cases "strip_pass rest = rest") (simp_all add: strip_markers_loop.simps [of rest] Let_def)
qed

lemma longest_name_mem: "longest_name xs = Some x \<Longrightarrow> x \<in> set xs"
  by (induction xs arbitrary: x) (auto split: option.splits if_splits)

lemma heading_for_index:
  "heading_for U line names = Some (i, r) \<Longrightarrow> i < length names"
  by (auto simp: heading_for_def Let_def in_set_enumerate_eq split: option.splits
      dest!: longest_name_mem)

lemma length_scan [simp]: "length (scan_sections ls sat) = length sat"
  by (induction ls sat rule: scan_sections.induct) (auto simp: Let_def)

lemma scan_keeps: "i < length sat \<Longrightarrow> sat ! i \<Longrightarrow> scan_sections ls sat ! i"
proof (induction ls sat rule: scan_sections.induct)
  case (3 line sec r later satisfied)
  show ?case
  proof (cases "satisfied ! sec")
    case True
    with 3 show ?thesis by simp
  next
    case False
    with "3.prems" have "i \<noteq> sec" by auto
    with 3 False show ?thesis by (simp add: Let_def)
  qed
qed auto

text \<open>A section credited by the scan has a heading line, with text on it or in the lines after.\<close>

definition credited :: "nat \<Rightarrow> (string \<times> (nat \<times> string) option) list \<Rightarrow> bool" where
  "credited i ls \<longleftrightarrow> (\<exists>before line r later. ls = before @ (line, Some (i, r)) # later \<and>
     (trim r \<noteq> [] \<or> (\<exists>l\<in>set later. trim (fst l) \<noteq> [])))"

lemma credited_Cons: "credited i ls \<Longrightarrow> credited i (x # ls)"
  unfolding credited_def by (metis append_Cons)

lemma credited_here:
  "trim r \<noteq> [] \<or> (\<exists>l\<in>set later. trim (fst l) \<noteq> []) \<Longrightarrow> credited i ((line, Some (i, r)) # later)"
  unfolding credited_def by (metis append_Nil)

lemma scan_sound:
  "i < length sat \<Longrightarrow> scan_sections ls sat ! i \<Longrightarrow> \<not> sat ! i \<Longrightarrow> credited i ls"
proof (induction ls sat rule: scan_sections.induct)
  case (2 line later satisfied)
  then show ?case by (simp add: credited_Cons)
next
  case (3 line sec r later satisfied)
  let ?hc = "trim r \<noteq> [] \<or> list_ex (\<lambda>(l, _). trim l \<noteq> [])
      (takeWhile (\<lambda>(_, h). case h of Some (other, _) \<Rightarrow> satisfied ! other | None \<Rightarrow> True) later)"
  show ?case
  proof (cases "satisfied ! sec")
    case True
    with 3 show ?thesis by (simp add: credited_Cons)
  next
    case False
    show ?thesis
    proof (cases "i = sec \<and> ?hc")
      case True
      then have "trim r \<noteq> [] \<or> (\<exists>l\<in>set later. trim (fst l) \<noteq> [])"
        by (fastforce simp: list_ex_iff dest: set_takeWhileD)
      with True show ?thesis by (simp add: credited_here)
    next
      case no: False
      let ?sat = "satisfied[sec := ?hc]"
      have "scan_sections later ?sat ! i"
        using "3.prems"(2) False by (simp add: Let_def)
      moreover have "\<not> ?sat ! i"
        using "3.prems" no by (cases "i = sec") auto
      ultimately show ?thesis
        using "3.IH"(2) [OF False refl] "3.prems"(1) by (simp add: credited_Cons)
    qed
  qed
qed simp

text \<open>A heading with text on its own line is always credited.\<close>

lemma scan_complete:
  "(line, Some (i, r)) \<in> set ls \<Longrightarrow> trim r \<noteq> [] \<Longrightarrow> i < length sat \<Longrightarrow>
     scan_sections ls sat ! i"
proof (induction ls sat rule: scan_sections.induct)
  case (3 line' sec r' later satisfied)
  then show ?case
    by (cases "satisfied ! sec"; cases "(line', Some (sec, r')) = (line, Some (i, r))")
       (auto simp: Let_def scan_keeps)
qed auto

lemma missing_sections_mem:
  "map fst (filter (\<lambda>(_, ok). \<not> ok) (zip xs bs)) = [] \<longleftrightarrow>
     (\<forall>i < min (length xs) (length bs). bs ! i)"
  by (auto simp: filter_empty_conv in_set_zip set_zip)

lemma missing_sections_subseq: "subseq (missing_sections U summary required) required"
proof -
  have "subseq (map fst (filter P (zip xs bs))) xs" for P and xs :: "string list" and bs :: "bool list"
  proof (induction xs arbitrary: bs)
    case (Cons x xs)
    then show ?case by (cases bs) auto
  qed simp
  then show ?thesis by (simp add: missing_sections_def Let_def)
qed

lemma check_report_step:
  "check_report_call U stage thin a = (c, thin') \<Longrightarrow>
     (thin' = thin \<or> thin' = thin + 1) \<and>
     (well_formed_call stage a \<and> rc_is_error c \<longrightarrow> thin' = thin + 1 \<and> thin' \<le> 2)"
  by (auto simp: check_report_call_def well_formed_call_def Let_def rc_error_def rc_success_def
      MAX_SECTION_REJECTIONS_def split: option.splits if_splits)

definition heading_lines ::
  "unicode \<Rightarrow> string \<Rightarrow> string list \<Rightarrow> (string \<times> (nat \<times> string) option) list"
where
  "heading_lines U summary required =
     map (\<lambda>l. (l, heading_for U l (map (normalize_report_heading U) required))) (str_lines summary)"

lemma missing_sections_scan:
  "missing_sections U summary required = [] \<longleftrightarrow>
     (\<forall>i < length required.
        scan_sections (heading_lines U summary required) (replicate (length required) False) ! i)"
proof -
  have "zip ls (map f ls) = map (\<lambda>l. (l, f l)) ls" for ls :: "string list" and f :: "string \<Rightarrow> (nat \<times> string) option"
    by (induction ls) auto
  then show ?thesis
    using missing_sections_mem [of required]
    by (auto simp: missing_sections_def heading_lines_def Let_def)
qed

lemma unat_add_1: "unat (t :: u32) + 1 < 2 ^ 32 \<Longrightarrow> unat (t + 1) = unat t + 1"
  by (simp add: unat_word_ariths)

lemma report_run_bound:
  "list_all (well_formed_call stage) calls \<Longrightarrow> unat thin + length calls < 2 ^ 32 \<Longrightarrow>
     length (filter rc_is_error (fst (report_run U stage thin calls))) \<le> 2 - unat thin"
proof (induction calls arbitrary: thin)
  case (Cons a calls)
  obtain c thin' where step: "check_report_call U stage thin a = (c, thin')" by fastforce
  obtain cs thin'' where rest: "report_run U stage thin' calls = (cs, thin'')" by fastforce
  have wf: "well_formed_call stage a" using Cons.prems by simp
  have up: "unat (thin + 1) = unat thin + 1" using Cons.prems(2) by (intro unat_add_1) simp
  have th: "thin' = thin \<or> thin' = thin + 1"
    and err: "rc_is_error c \<Longrightarrow> thin' = thin + 1 \<and> thin' \<le> 2"
    using check_report_step [OF step] wf by auto
  have "unat thin' \<le> unat thin + 1" "unat thin \<le> unat thin'" using th up by auto
  then have "length (filter rc_is_error cs) \<le> 2 - unat thin'"
    using Cons.IH [of thin'] Cons.prems rest by simp
  moreover have "rc_is_error c \<Longrightarrow> unat thin' = unat thin + 1 \<and> unat thin' \<le> 2"
    using err up by (auto simp: word_le_nat_alt)
  ultimately show ?case
    using step rest \<open>unat thin \<le> unat thin'\<close> by auto
qed simp

definition ascii_unicode :: unicode where
  "ascii_unicode = \<lparr>u_lower = map ascii_lower, u_alnum = (\<lambda>_. False)\<rparr>"

section \<open>Properties\<close>

text \<open>
  C32. A recorded report is one the stage can route on: when check_report_call does not answer
  with an error, the call's outcome is a string whose trimmed text is non-empty and, when the
  stage declares outcomes, one of them; the summary is a string; and either no required section
  is missing or the process has already turned two reports away.
\<close>

theorem report_recorded_is_routable:
  assumes "check_report_call U stage thin a = (c, thin')" and "\<not> rc_is_error c"
  shows "\<exists>oc summary. jget ''outcome'' a = Some (JStr oc) \<and> jget ''summary'' a = Some (JStr summary)
    \<and> trim oc \<noteq> [] \<and> (outcomes stage = [] \<or> trim oc \<in> set (outcomes stage))
    \<and> (missing_sections U summary (required_sections stage) = [] \<and> thin' = thin
       \<or> thin' = thin + 1 \<and> 2 < thin')"
  using assms
  by (auto simp: check_report_call_def Let_def rc_error_def rc_success_def MAX_SECTION_REJECTIONS_def
      as_str_iff bind_eq_Some_conv split: option.splits if_splits)

theorem report_recorded_is_routable_witness:
  "\<exists>oc summary. jget ''outcome'' (obj_of [(''outcome'', JStr '' ok ''), (''summary'', JStr [])]) = Some (JStr oc)
    \<and> jget ''summary'' (obj_of [(''outcome'', JStr '' ok ''), (''summary'', JStr [])]) = Some (JStr summary)
    \<and> trim oc \<noteq> [] \<and> trim oc \<in> {''ok'', ''bad''}"
proof -
  let ?a = "obj_of [(''outcome'', JStr '' ok ''), (''summary'', JStr [])]"
  let ?st = "\<lparr>outcomes = [''ok'', ''bad''], required_sections = []\<rparr>"
  have "trim '' ok '' = ''ok''" by code_simp
  then have "check_report_call ascii_unicode ?st 0 ?a = (rc_success (''Recorded outcome '' @ squote ''ok'' @ ''.''), 0)"
    by (simp add: check_report_call_def jget_obj_of_map missing_sections_def)
  from report_recorded_is_routable [OF this] show ?thesis
    by (auto simp: rc_success_def)
qed

text \<open>
  A model that cannot satisfy the section rule is turned away twice at most: in any sequence
  of calls by one process that are right in everything but their sections, no more than
  MAX_SECTION_REJECTIONS answers are errors, so its third report is always recorded. (The
  counter is a u32, so the sequence is shorter than 2^32.)
\<close>

theorem section_rejections_bounded:
  assumes "list_all (well_formed_call stage) calls" and "length calls < 2 ^ 32"
  shows "length (filter rc_is_error (fst (report_run U stage 0 calls))) \<le> unat MAX_SECTION_REJECTIONS"
  using report_run_bound [OF assms(1), of 0 U] assms(2) by (simp add: MAX_SECTION_REJECTIONS_def)

theorem section_rejections_bounded_witness:
  "length (filter rc_is_error (fst (report_run ascii_unicode
      \<lparr>outcomes = [], required_sections = [''Findings'']\<rparr> 0
      (replicate 5 (obj_of [(''outcome'', JStr ''ok''), (''summary'', JStr [])]))))) \<le> 2"
proof -
  have "trim ''ok'' = ''ok''" by code_simp
  then have "well_formed_call \<lparr>outcomes = [], required_sections = [''Findings'']\<rparr>
    (obj_of [(''outcome'', JStr ''ok''), (''summary'', JStr [])])"
    by (simp add: well_formed_call_def jget_obj_of_map)
  then show ?thesis
    using section_rejections_bounded [of "\<lparr>outcomes = [], required_sections = [''Findings'']\<rparr>"
      "replicate 5 (obj_of [(''outcome'', JStr ''ok''), (''summary'', JStr [])])" ascii_unicode]
    by (simp add: MAX_SECTION_REJECTIONS_def list_all_iff del: replicate.simps)
qed

text \<open>
  missing_sections is right about what it lets through and about what it holds back. The
  names it returns are some of the required ones in the stage's order. When it returns none,
  every required section has a line of the summary that is its heading, with text after the
  name or on some later line. When every required section has a heading line with text on the
  line itself, it returns none.
\<close>

theorem missing_sections_credit:
  "subseq (missing_sections U summary required) required
   \<and> (missing_sections U summary required = [] \<longrightarrow>
        (\<forall>i < length required. credited i (heading_lines U summary required)))
   \<and> ((\<forall>i < length required. \<exists>line r. (line, Some (i, r)) \<in> set (heading_lines U summary required)
          \<and> trim r \<noteq> []) \<longrightarrow> missing_sections U summary required = [])"
proof (intro conjI impI allI)
  let ?ls = "heading_lines U summary required" and ?sat = "replicate (length required) False"
  show "subseq (missing_sections U summary required) required"
    by (rule missing_sections_subseq)
  show "credited i ?ls" if "missing_sections U summary required = []" "i < length required" for i
    using that scan_sound [of i ?sat ?ls] by (simp add: missing_sections_scan)
  show "missing_sections U summary required = []"
    if "\<forall>i < length required. \<exists>line r. (line, Some (i, r)) \<in> set ?ls \<and> trim r \<noteq> []"
    using that scan_complete [of _ _ _ ?ls ?sat] by (fastforce simp: missing_sections_scan)
qed

theorem missing_sections_credit_witness:
  "missing_sections ascii_unicode ''# Be: x'' [''Be''] = [] \<and>
   credited 0 (heading_lines ascii_unicode ''# Be: x'' [''Be''])"
proof -
  have n: "normalize_report_heading ascii_unicode ''Be'' = ''be''" by code_simp
  have h: "heading_for ascii_unicode ''# Be: x'' [''be''] = Some (0, ''x'')" by code_simp
  have l: "str_lines ''# Be: x'' = [''# Be: x'']" and t: "trim ''x'' = ''x''" by code_simp+
  have hl: "heading_lines ascii_unicode ''# Be: x'' [''Be''] = [(''# Be: x'', Some (0, ''x''))]"
    by (simp add: heading_lines_def n h l)
  have "missing_sections ascii_unicode ''# Be: x'' [''Be''] = []"
    using missing_sections_credit [of ascii_unicode "''# Be: x''" "[''Be'']"] t by (simp add: hl)
  then show ?thesis
    using missing_sections_credit [of ascii_unicode "''# Be: x''" "[''Be'']"] by simp
qed

end
