(* ===== verification/Settings.thy ===== *)
theory Settings
  imports Json
begin

text \<open>
  serde_yaml's Value, as far as the loader looks into it, and
  chocofactoryd/src/claude_settings.rs: the conversion of a role's claude_settings from YAML to
  a JSON object, refusing every shape JSON cannot hold, and the merge of two layers.
\<close>

datatype ynum = YInt u64 | YNegative int | YFloat string | YNonFinite

datatype yaml =
    YNull
  | YBool bool
  | YNum ynum
  | YStr string
  | YSeq "yaml list"
  | YMap "(yaml \<times> yaml) list"
  | YTagged string yaml

datatype shape_error = NotAMapping string | NonStringKey | YamlTag | NonFiniteNumber

fun show_shape_error :: "shape_error \<Rightarrow> string" where
  "show_shape_error (NotAMapping kind) = ''must be a mapping of Claude Code settings, not '' @ kind"
| "show_shape_error NonStringKey = ''has a mapping key that is not a string; JSON keys are strings''"
| "show_shape_error YamlTag = ''has a YAML tag (!...), which JSON cannot hold''"
| "show_shape_error NonFiniteNumber = ''has a number JSON cannot hold (.nan or .inf)''"

definition kind_name :: "yaml \<Rightarrow> string" where
  "kind_name v =
     (case v of
        YNull \<Rightarrow> ''null''
      | YBool _ \<Rightarrow> ''a boolean''
      | YNum _ \<Rightarrow> ''a number''
      | YStr _ \<Rightarrow> ''a string''
      | YSeq _ \<Rightarrow> ''a list''
      | YMap _ \<Rightarrow> ''a mapping''
      | YTagged _ _ \<Rightarrow> ''a tagged value'')"

fun convert :: "yaml \<Rightarrow> (shape_error, json) result"
and convert_list :: "yaml list \<Rightarrow> (shape_error, json list) result"
and convert_map ::
  "(yaml \<times> yaml) list \<Rightarrow> (string \<times> json) list \<Rightarrow> (shape_error, (string \<times> json) list) result"
where
  "convert YNull = Inr JNull"
| "convert (YBool b) = Inr (JBool b)"
| "convert (YStr s) = Inr (JStr s)"
| "convert (YNum (YInt n)) = Inr (JNum (PosInt n))"
| "convert (YNum (YNegative i)) = Inr (JNum (NegInt i))"
| "convert (YNum (YFloat t)) = Inr (JNum (Float t))"
| "convert (YNum YNonFinite) = Inl NonFiniteNumber"
| "convert (YSeq items) =
     (case convert_list items of Inl e \<Rightarrow> Inl e | Inr vs \<Rightarrow> Inr (JArr vs))"
| "convert (YMap kvs) =
     (case convert_map kvs [] of Inl e \<Rightarrow> Inl e | Inr m \<Rightarrow> Inr (JObj m))"
| "convert (YTagged t v) = Inl YamlTag"
| "convert_list [] = Inr []"
| "convert_list (v # vs) =
     (case convert v of
        Inl e \<Rightarrow> Inl e
      | Inr j \<Rightarrow> (case convert_list vs of Inl e \<Rightarrow> Inl e | Inr js \<Rightarrow> Inr (j # js)))"
| "convert_map [] m = Inr m"
| "convert_map ((k, v) # kvs) m =
     (case k of
        YStr key \<Rightarrow>
          (case convert v of Inl e \<Rightarrow> Inl e | Inr j \<Rightarrow> convert_map kvs (obj_insert key j m))
      | _ \<Rightarrow> Inl NonStringKey)"

type_synonym claude_settings = "(string \<times> json) list"

definition from_yaml :: "yaml option \<Rightarrow> (shape_error, claude_settings) result" where
  "from_yaml value =
     (case value of
        None \<Rightarrow> Inr []
      | Some YNull \<Rightarrow> Inr []
      | Some (YMap kvs) \<Rightarrow> convert_map kvs []
      | Some other \<Rightarrow> Inl (NotAMapping (kind_name other)))"

text \<open>The layer's value wins whole, key by key.\<close>

definition overlay :: "claude_settings \<Rightarrow> claude_settings \<Rightarrow> claude_settings" where
  "overlay self layer = fold (\<lambda>(k, v). obj_insert k v) layer self"

definition drop_null_keys :: "claude_settings \<Rightarrow> claude_settings" where
  "drop_null_keys self = filter (\<lambda>(_, v). v \<noteq> JNull) self"

definition keys_sorted :: "claude_settings \<Rightarrow> string list" where
  "keys_sorted self = sort (map fst self)"

section \<open>Lemmas\<close>

lemma convert_map_ok: "convert_map kvs m = Inr m' \<Longrightarrow> obj_ok m \<Longrightarrow> obj_ok m'"
  by (induction kvs arbitrary: m)
     (auto split: yaml.splits sum.splits simp: obj_insert_ok)

lemma from_yaml_ok: "from_yaml y = Inr s \<Longrightarrow> obj_ok s"
  by (auto simp: from_yaml_def split: option.splits yaml.splits dest: convert_map_ok)

lemma overlay_lookup:
  "map_of (overlay self layer) k =
     (case map_of (rev layer) k of Some v \<Rightarrow> Some v | None \<Rightarrow> map_of self k)"
  unfolding overlay_def
  by (induction layer rule: rev_induct) (auto simp: obj.lookup_insert split: option.splits)

lemma overlay_ok: "obj_ok self \<Longrightarrow> obj_ok (overlay self layer)"
  unfolding overlay_def by (induction layer arbitrary: self) (auto simp: obj_insert_ok)

lemma map_of_rev_ok: "obj_ok m \<Longrightarrow> map_of (rev m) = map_of m"
  by (metis distinct_rev map_of_inject_set obj_ok_distinct rev_map set_rev)

lemma drop_null_lookup:
  "distinct (map fst m) \<Longrightarrow>
     map_of (drop_null_keys m) k = (case map_of m k of Some JNull \<Rightarrow> None | v \<Rightarrow> v)"
proof (induction m)
  case (Cons a m)
  obtain j v where a: "a = (j, v)" by (cases a)
  have "map_of m j = None" using Cons.prems a by (simp add: map_of_eq_None_iff)
  with Cons a show ?case
    by (cases v) (auto simp: drop_null_keys_def split: option.splits)
qed (simp add: drop_null_keys_def)

section \<open>Properties\<close>

text \<open>
  Two layers of settings merge key by key: after the overlay of the workflow's settings on
  the global ones and the removal of null keys, a key has the workflow's value when the workflow
  sets it, the global value otherwise, and is absent exactly when the winning value is null or
  neither layer has it; so no null is ever passed on.
\<close>

theorem settings_layers_merge:
  assumes "from_yaml y = Inr global" and "from_yaml z = Inr layer"
  shows "map_of (drop_null_keys (overlay global layer)) k =
    (case (case map_of layer k of Some v \<Rightarrow> Some v | None \<Rightarrow> map_of global k) of
       Some JNull \<Rightarrow> None | w \<Rightarrow> w)"
proof -
  have ok: "obj_ok global" "obj_ok layer"
    using assms by (auto intro: from_yaml_ok)
  have "distinct (map fst (overlay global layer))"
    using ok by (intro obj_ok_distinct overlay_ok)
  then show ?thesis
    by (simp add: drop_null_lookup overlay_lookup map_of_rev_ok ok)
qed

theorem settings_layers_merge_witness:
  "map_of (drop_null_keys (overlay [(''a'', JBool True), (''b'', JNull)] [(''a'', JNull)])) ''a'' = None"
proof -
  have g: "from_yaml (Some (YMap [(YStr ''b'', YNull), (YStr ''a'', YBool True)])) =
    Inr [(''a'', JBool True), (''b'', JNull)]"
    by (simp add: from_yaml_def list_less_def less_char_def)
  have l: "from_yaml (Some (YMap [(YStr ''a'', YNull)])) = Inr [(''a'', JNull)]"
    by (simp add: from_yaml_def)
  show ?thesis by (simp add: settings_layers_merge [OF g l])
qed

end
