(* ===== verification/Workflow.thy ===== *)
theory Workflow
  imports Durations Template Report Settings
begin

text \<open>
  The data of chocofactoryd/src/workflow_def.rs: a parsed workflow definition (roles, stages and
  the branches of parallel groups), the raw form the YAML file deserializes to, the load errors,
  and the small accessors (branch, start_stage, watch, name, interval_at) the engine reads a
  definition with. Also adapter/mod.rs's RoleTool and Isolation, which roles are made of.
\<close>

section \<open>Resolved definitions\<close>

datatype role_tool = Edit | Write | NotebookEdit

definition role_tools_all :: "role_tool list" where
  "role_tools_all = [Edit, Write, NotebookEdit]"

definition role_tool_from_name :: "string \<Rightarrow> role_tool option" where
  "role_tool_from_name name =
     (if name = ''edit'' then Some Edit
      else if name = ''write'' then Some Write
      else if name = ''notebook_edit'' then Some NotebookEdit
      else None)"

fun role_tool_name :: "role_tool \<Rightarrow> string" where
  "role_tool_name Edit = ''edit''"
| "role_tool_name Write = ''write''"
| "role_tool_name NotebookEdit = ''notebook_edit''"

datatype isolation = InheritOperatorConfig | Isolated (iso_skills: "string list") (iso_memory: bool)

datatype shell_command = Inline string | ScriptFile string

datatype capture = CaptureJson | CaptureText

record backoff_step =
  bo_after :: duration
  bo_interval :: duration

record poll_outcome =
  po_pattern :: string
  po_then :: string

record watch =
  w_command :: shell_command
  w_env :: "string imap"
  w_interval :: duration
  w_timeout :: "duration option"
  w_backoff :: "backoff_step list"
  w_outcomes :: "poll_outcome list"

record reply_marker =
  rm_line :: string
  rm_then :: string

record loop_guard =
  lg_on :: string
  lg_max :: u32
  lg_then :: string

datatype stage_kind =
    AgentTurn string "string option" "capture option" "string list"
  | Shell shell_command "capture option" "duration option" "string imap"
  | Poll "capture option" watch
  | HumanGate "capture option" "reply_marker list" "watch option"
  | Terminal
  | Parallel "(string \<times> branch) list"
and stage_def =
    StageDef (sd_kind: stage_kind) (sd_on: "string imap") (sd_guard: "loop_guard option")
and branch = Branch (br_def: stage_def) (br_results: "string list")

record role_def =
  rd_cli :: "string option"
  rd_model :: "string option"
  rd_system_prompt_file :: "string option"
  rd_isolation :: isolation
  rd_disallowed_tools :: "role_tool list"
  rd_read_only :: bool
  rd_claude_settings :: claude_settings

record workflow_definition =
  wd_name :: string
  wd_roles :: "role_def imap"
  wd_stages :: "stage_def imap"
  wd_worktree :: bool

record branch_ref =
  bf_group :: string
  bf_def :: stage_def
  bf_results :: "string list"

section \<open>Raw definitions\<close>

record raw_role =
  rr_cli :: "string option"
  rr_model :: "string option"
  rr_system_prompt_file :: "string option"
  rr_inherit_operator_config :: bool
  rr_skills :: "string list option"
  rr_memory :: "bool option"
  rr_disallowed_tools :: "string list"
  rr_read_only :: bool
  rr_claude_settings :: "yaml option"

record raw_backoff_step =
  rb_after :: string
  rb_interval :: string

text \<open>RawWatch, and WatchFields, the same fields gathered from a poll.\<close>

record raw_watch =
  rw_command :: "string option"
  rw_script_file :: "string option"
  rw_env :: "string imap"
  rw_interval :: string
  rw_backoff :: "raw_backoff_step list option"
  rw_timeout :: "string option"
  rw_outcomes :: "poll_outcome list"

datatype raw_stage_kind =
    RawAgentTurn string "string option" "capture option" "string list"
  | RawShell "string option" "string option" "capture option" "string option" "string imap"
  | RawPoll "capture option" raw_watch
  | RawHumanGate "capture option" "reply_marker list option" "raw_watch option"
  | RawTerminal
  | RawParallel "(string \<times> raw_stage) list"
and raw_stage =
    RawStage (rs_kind: raw_stage_kind) (rs_on: "string imap") (rs_guard: "loop_guard option")
      (rs_results: "string list option")

record raw_definition =
  rw_name :: string
  rw_roles :: "raw_role imap"
  rw_stages :: "raw_stage imap"
  rw_worktree :: bool

section \<open>Errors\<close>

datatype (plugins only: code) workflow_def_error =
    Io string
  | Yaml string
  | NoStages
  | UnknownRole string string
  | UnknownStageTarget string string
  | UnknownLoopGuardOutcome string string
  | UnknownLoopGuardTarget string string
  | LoopGuardEscapeOnEveryLap string string string
  | NoReachableSink
  | MissingReferencedFile string string string
  | InvalidFileReference string string string
  | UnreadableReferencedFile string string string string
  | AmbiguousShellCommand string
  | MissingShellCommand string
  | MissingShellDoneOutcome string
  | InvalidDuration string string string
  | UnknownPollOutcome string string
  | MissingTimeoutOutcome string
  | InvalidPollPattern string string string
  | TerminalStageHasTransitions string
  | CaptureOnOpenEndedTurn string
  | ReportSectionsOnOpenEndedTurn string
  | EmptyReportSection string
  | DuplicateReportSection string string
  | HumanGateCaptureMustBeText string
  | EmptyReplyMarkers string
  | InvalidBackoffDuration string string string
  | EmptyBackoff string string
  | BackoffNotIncreasing string string string string
  | BackoffStepNotBeforeTimeout string string string string
  | EmptyReplyMarkerLine string
  | ReplyMarkerLineHasSurroundingWhitespace string string
  | ReplyMarkerLineHasNewline string string
  | DuplicateReplyMarker string string
  | UnknownReplyMarkerOutcome string string
  | UnknownStageKey string string
  | GroupTooFewBranches string nat
  | GroupOnNotDone string
  | GroupHasLoopGuard string
  | BranchHasOn string string
  | BranchHasLoopGuard string string
  | BranchKindNotYetSupported string string string
  | BranchKindNeverAllowed string string string
  | BranchResultsNeedJsonCapture string string
  | EmptyBranchResults string string
  | DuplicateBranchResult string string string
  | DuplicateStageName string string
  | OnTargetIsBranch string string string
  | LoopGuardThenIsBranch string string string
  | BranchRoleNotReadOnly string string string
  | BranchReferencesSibling string string string string string
  | InvalidTemplate string string string
  | UnknownTemplateStage string string string string
  | TemplateStageCapturesNothing string string string string
  | IsolationFieldWithInheritedConfig string string
  | InvalidEnvName string string
  | ReservedEnvName string string
  | UnknownRoleTool string string
  | ReadOnlyRoleMissingTools string string
  | ReadOnlyRoleWithoutWorktree string
  | InvalidClaudeSettings string shape_error

section \<open>Accessors\<close>

text \<open>\<open>WorkflowDefinition::branch\<close>: the first group that has a branch of that name.\<close>

fun group_branches :: "stage_kind \<Rightarrow> branch imap option" where
  "group_branches (Parallel bs) = Some bs"
| "group_branches _ = None"

fun find_branch :: "stage_def imap \<Rightarrow> string \<Rightarrow> branch_ref option" where
  "find_branch [] name = None"
| "find_branch ((g, stage) # rest) name =
     (case group_branches (sd_kind stage) of
        None \<Rightarrow> find_branch rest name
      | Some bs \<Rightarrow>
          (case map_of bs name of
             Some b \<Rightarrow> Some \<lparr>bf_group = g, bf_def = br_def b, bf_results = br_results b\<rparr>
           | None \<Rightarrow> find_branch rest name))"

definition branch_of :: "workflow_definition \<Rightarrow> string \<Rightarrow> branch_ref option" where
  "branch_of d name = find_branch (wd_stages d) name"

definition stage_of :: "workflow_definition \<Rightarrow> string \<Rightarrow> stage_def option" where
  "stage_of d name = map_of (wd_stages d) name"

text \<open>The code panics on a definition without stages; \<open>None\<close> is that panic.\<close>

definition start_stage :: "workflow_definition \<Rightarrow> string option" where
  "start_stage d = (case wd_stages d of [] \<Rightarrow> None | (name, _) # _ \<Rightarrow> Some name)"

fun kind_watch :: "stage_kind \<Rightarrow> watch option" where
  "kind_watch (Poll _ w) = Some w"
| "kind_watch (HumanGate _ _ w) = w"
| "kind_watch _ = None"

definition stage_watch :: "stage_def \<Rightarrow> watch option" where
  "stage_watch s = kind_watch (sd_kind s)"

fun stage_kind_name :: "stage_kind \<Rightarrow> string" where
  "stage_kind_name (AgentTurn _ _ _ _) = ''agent_turn''"
| "stage_kind_name (Shell _ _ _ _) = ''shell''"
| "stage_kind_name (Poll _ _) = ''poll''"
| "stage_kind_name (HumanGate _ _ _) = ''human_gate''"
| "stage_kind_name Terminal = ''terminal''"
| "stage_kind_name (Parallel _) = ''parallel''"

fun raw_kind_name :: "raw_stage_kind \<Rightarrow> string" where
  "raw_kind_name (RawAgentTurn _ _ _ _) = ''agent_turn''"
| "raw_kind_name (RawShell _ _ _ _ _) = ''shell''"
| "raw_kind_name (RawPoll _ _) = ''poll''"
| "raw_kind_name (RawHumanGate _ _ _) = ''human_gate''"
| "raw_kind_name RawTerminal = ''terminal''"
| "raw_kind_name (RawParallel _) = ''parallel''"

text \<open>\<open>Watch::interval_at\<close>: the last backoff step that has started, else the base interval.\<close>

definition interval_at :: "watch \<Rightarrow> duration \<Rightarrow> duration" where
  "interval_at w elapsed =
     (case find (\<lambda>step. bo_after step \<le> elapsed) (rev (w_backoff w)) of
        None \<Rightarrow> w_interval w
      | Some step \<Rightarrow> bo_interval step)"

fun declares_capture :: "stage_kind \<Rightarrow> bool" where
  "declares_capture (AgentTurn _ _ c _) = (c \<noteq> None)"
| "declares_capture (Shell _ c _ _) = (c \<noteq> None)"
| "declares_capture (Poll c _) = (c \<noteq> None)"
| "declares_capture (HumanGate c _ _) = (c \<noteq> None)"
| "declares_capture Terminal = False"
| "declares_capture (Parallel _) = False"

fun is_terminal :: "stage_kind \<Rightarrow> bool" where
  "is_terminal Terminal = True"
| "is_terminal _ = False"

fun is_human_gate :: "stage_kind \<Rightarrow> bool" where
  "is_human_gate (HumanGate _ _ _) = True"
| "is_human_gate _ = False"

text \<open>The role of an agent turn.\<close>

fun kind_role :: "stage_kind \<Rightarrow> string option" where
  "kind_role (AgentTurn role _ _ _) = Some role"
| "kind_role _ = None"

section \<open>Lemmas\<close>

lemma find_branch_Some:
  "find_branch stages name = Some b \<Longrightarrow>
     \<exists>stage bs br. (bf_group b, stage) \<in> set stages \<and> sd_kind stage = Parallel bs
       \<and> map_of bs name = Some br \<and> bf_def b = br_def br \<and> bf_results b = br_results br"
proof (induction stages)
  case (Cons s stages)
  obtain g st where s: "s = (g, st)" by (cases s)
  show ?case
  proof (cases "group_branches (sd_kind st)")
    case None
    with Cons s show ?thesis by fastforce
  next
    case (Some bs)
    then have "sd_kind st = Parallel bs" by (cases "sd_kind st") auto
    with Cons s Some show ?thesis by (fastforce split: option.splits)
  qed
qed simp

lemma find_branch_None:
  "find_branch stages name = None \<longleftrightarrow>
     (\<forall>(g, stage)\<in>set stages. \<forall>bs. sd_kind stage = Parallel bs \<longrightarrow> \<not> has_key bs name)"
proof (induction stages)
  case (Cons s stages)
  obtain g st where s: "s = (g, st)" by (cases s)
  show ?case
    using Cons s by (cases "sd_kind st") (auto simp: has_key_map_of split: option.splits)
qed simp

lemma find_last_started:
  assumes "sorted_wrt (\<lambda>a b. bo_after a < bo_after b) steps"
    and "s \<in> set steps" and "bo_after s \<le> e"
    and "\<And>t. t \<in> set steps \<Longrightarrow> bo_after t \<le> e \<Longrightarrow> bo_after t \<le> bo_after s"
  shows "find (\<lambda>step. bo_after step \<le> e) (rev steps) = Some (s :: backoff_step)"
  using assms
proof (induction steps rule: rev_induct)
  case (snoc x steps)
  show ?case
  proof (cases "bo_after x \<le> e")
    case True
    then have "bo_after x \<le> bo_after s" using snoc.prems(4) by auto
    moreover have "s \<noteq> x \<Longrightarrow> bo_after s < bo_after x"
      using snoc.prems(1,2) by (auto simp: sorted_wrt_append)
    ultimately have "s = x" by (meson leD)
    with True show ?thesis by simp
  next
    case False
    then have "s \<in> set steps" using snoc.prems(2,3) by auto
    with snoc False show ?thesis by (auto simp: sorted_wrt_append)
  qed
qed simp

end
