(* ===== verification/Resolve.thy ===== *)
theory Resolve
  imports Workflow
begin

text \<open>
  The first half of loading a workflow (workflow_def.rs: parse, RawRole, RawStage::resolve and
  resolve_branch, resolve_watch, resolve_backoff, resolve_command, resolve_file; fileref.rs;
  reject_unknown_stage_keys). What lies outside the repository's code is the record
  \<open>externals\<close>: the two YAML parses, the file system and the regex compiler.
\<close>

record externals =
  ex_unicode :: unicode
  ex_is_file :: "string \<Rightarrow> bool"
  ex_read_file :: "string \<Rightarrow> (string, string) result"
  ex_regex_error :: "string \<Rightarrow> string option"
  ex_yaml_definition :: "string \<Rightarrow> (string, raw_definition) result"
  ex_yaml_value :: "string \<Rightarrow> (string, yaml) result"

section \<open>File references\<close>

datatype file_ref_error = Escapes | MissingFile string

definition is_absolute :: "string \<Rightarrow> bool" where
  "is_absolute p = starts_with ''/'' p"

definition has_parent_dir :: "string \<Rightarrow> bool" where
  "has_parent_dir p = (''..'' \<in> set (split_on (CHR ''/'') p))"

definition join_path :: "string \<Rightarrow> string \<Rightarrow> string" where
  "join_path base rel = (if base = [] \<or> last base = CHR ''/'' then base @ rel else base @ ''/'' @ rel)"

definition resolve_relative :: "externals \<Rightarrow> string \<Rightarrow> string \<Rightarrow> (file_ref_error, string) result" where
  "resolve_relative X base_dir relative =
     (if is_absolute relative \<or> has_parent_dir relative then Inl Escapes
      else (let resolved = join_path base_dir relative in
            if \<not> ex_is_file X resolved then Inl (MissingFile resolved) else Inr resolved))"

datatype ref_owner = OwnerRole string | OwnerStage string

fun owner_label :: "ref_owner \<Rightarrow> string" where
  "owner_label (OwnerRole name) = ''role '' @ squote name"
| "owner_label (OwnerStage name) = ''stage '' @ squote name"

definition resolve_file ::
  "externals \<Rightarrow> string \<Rightarrow> string \<Rightarrow> ref_owner \<Rightarrow> string \<Rightarrow> (workflow_def_error, string) result"
where
  "resolve_file X base_dir relative owner field =
     map_err (\<lambda>err. case err of
                Escapes \<Rightarrow> InvalidFileReference (owner_label owner) field relative
              | MissingFile p \<Rightarrow> MissingReferencedFile (owner_label owner) field p)
       (resolve_relative X base_dir relative)"

section \<open>Commands and watchers\<close>

definition resolve_command ::
  "externals \<Rightarrow> string \<Rightarrow> string \<Rightarrow> string option \<Rightarrow> string option \<Rightarrow> (workflow_def_error, shell_command) result"
where
  "resolve_command X base_dir stage_name command script_file =
     (case (command, script_file) of
        (Some c, None) \<Rightarrow> Inr (Inline c)
      | (None, Some f) \<Rightarrow>
          and_then (resolve_file X base_dir f (OwnerStage stage_name) ''script_file'')
            (\<lambda>p. Inr (ScriptFile p))
      | (Some _, Some _) \<Rightarrow> Inl (AmbiguousShellCommand stage_name)
      | (None, None) \<Rightarrow> Inl (MissingShellCommand stage_name))"

definition parse_duration_field ::
  "string \<Rightarrow> string \<Rightarrow> string \<Rightarrow> (workflow_def_error, duration) result"
where
  "parse_duration_field stage_name field v =
     map_err (\<lambda>bad. InvalidDuration stage_name field bad) (parse_duration v)"

text \<open>The field's index in brackets, as in \<open>backoff[0].after\<close>.\<close>

definition backoff_field :: "string \<Rightarrow> nat \<Rightarrow> string \<Rightarrow> string" where
  "backoff_field field index key = field @ ''['' @ show_nat index @ ''].'' @ key"

text \<open>The loop of resolve_backoff over the raw steps from \<open>index\<close> on.\<close>

fun backoff_loop ::
  "string \<Rightarrow> duration option \<Rightarrow> string option \<Rightarrow> string \<Rightarrow> nat \<Rightarrow> raw_backoff_step list \<Rightarrow>
   backoff_step list \<Rightarrow> string \<Rightarrow> (workflow_def_error, backoff_step list) result"
where
  "backoff_loop stage_name timeout raw_timeout field index [] steps previous_raw = Inr steps"
| "backoff_loop stage_name timeout raw_timeout field index (step # raw) steps previous_raw =
     and_then (map_err (\<lambda>v. InvalidBackoffDuration stage_name (backoff_field field index ''after'') v)
                (parse_duration (rb_after step)))
       (\<lambda>after.
     and_then (map_err (\<lambda>v. InvalidBackoffDuration stage_name (backoff_field field index ''interval'') v)
                (parse_duration (rb_interval step)))
       (\<lambda>interval.
        if steps \<noteq> [] \<and> after \<le> bo_after (last steps) then
          Inl (BackoffNotIncreasing stage_name (backoff_field field index ''after'')
                 (rb_after step) previous_raw)
        else
          (case (timeout, raw_timeout) of
             (Some limit, Some raw_limit) \<Rightarrow>
               (if after \<ge> limit then
                  Inl (BackoffStepNotBeforeTimeout stage_name (backoff_field field index ''after'')
                         (rb_after step) raw_limit)
                else backoff_loop stage_name timeout raw_timeout field (Suc index) raw
                       (steps @ [\<lparr>bo_after = after, bo_interval = interval\<rparr>]) (rb_after step))
           | _ \<Rightarrow> backoff_loop stage_name timeout raw_timeout field (Suc index) raw
                    (steps @ [\<lparr>bo_after = after, bo_interval = interval\<rparr>]) (rb_after step))))"

definition resolve_backoff ::
  "string \<Rightarrow> raw_backoff_step list option \<Rightarrow> duration option \<Rightarrow> string option \<Rightarrow> string \<Rightarrow>
   (workflow_def_error, backoff_step list) result"
where
  "resolve_backoff stage_name raw timeout raw_timeout field =
     (case raw of
        None \<Rightarrow> Inr []
      | Some [] \<Rightarrow> Inl (EmptyBackoff stage_name field)
      | Some steps \<Rightarrow> backoff_loop stage_name timeout raw_timeout field 0 steps [] [])"

definition resolve_watch ::
  "externals \<Rightarrow> string \<Rightarrow> string \<Rightarrow> raw_watch \<Rightarrow> string \<times> string \<times> string \<Rightarrow> (workflow_def_error, watch) result"
where
  "resolve_watch X base_dir stage_name raw names =
     and_then (resolve_command X base_dir stage_name (rw_command raw) (rw_script_file raw)) (\<lambda>command.
     and_then (parse_duration_field stage_name (fst names) (rw_interval raw)) (\<lambda>interval.
     and_then (opt_res (parse_duration_field stage_name (fst (snd names))) (rw_timeout raw)) (\<lambda>timeout.
     and_then (resolve_backoff stage_name (rw_backoff raw) timeout (rw_timeout raw) (snd (snd names)))
       (\<lambda>backoff.
        Inr \<lparr>w_command = command, w_env = rw_env raw, w_interval = interval, w_timeout = timeout,
             w_backoff = backoff, w_outcomes = rw_outcomes raw\<rparr>))))"

section \<open>Stages and branches\<close>

fun duplicate_result :: "string list \<Rightarrow> string list \<Rightarrow> string option" where
  "duplicate_result seen [] = None"
| "duplicate_result seen (r # rs) =
     (if r \<in> set seen then Some r else duplicate_result (seen @ [r]) rs)"

text \<open>
  resolve_branch's own checks, in its order: the kind, \<open>on:\<close>, loop_guard, results. The value is
  the branch's results, with the default applied.
\<close>

definition branch_results ::
  "string \<Rightarrow> string \<Rightarrow> raw_stage \<Rightarrow> (workflow_def_error, string list) result"
where
  "branch_results grp name raw =
     and_then (case rs_kind raw of
                 RawAgentTurn _ _ capture _ \<Rightarrow> Inr capture
               | RawShell _ _ _ _ _ \<Rightarrow>
                   Inl (BranchKindNotYetSupported grp name (raw_kind_name (rs_kind raw)))
               | RawPoll _ _ \<Rightarrow>
                   Inl (BranchKindNotYetSupported grp name (raw_kind_name (rs_kind raw)))
               | _ \<Rightarrow> Inl (BranchKindNeverAllowed grp name (raw_kind_name (rs_kind raw))))
       (\<lambda>capture.
        if rs_on raw \<noteq> [] then Inl (BranchHasOn grp name)
        else if rs_guard raw \<noteq> None then Inl (BranchHasLoopGuard grp name)
        else and_then (case rs_results raw of
                         None \<Rightarrow> Inr [''done'']
                       | Some [] \<Rightarrow> Inl (EmptyBranchResults grp name)
                       | Some rs \<Rightarrow> Inr rs)
          (\<lambda>results.
           case duplicate_result [] results of
             Some r \<Rightarrow> Inl (DuplicateBranchResult grp name r)
           | None \<Rightarrow>
               (if capture \<noteq> Some CaptureJson \<and> results \<noteq> [''done''] then
                  Inl (BranchResultsNeedJsonCapture grp name)
                else Inr results)))"

text \<open>
  RawStage::resolve and RawStage::resolve_branch, which call each other: a parallel stage resolves
  its branches, and a branch, once its own checks pass, is resolved as a stage.
\<close>

function (sequential) resolve_stage ::
  "externals \<Rightarrow> string \<Rightarrow> string \<Rightarrow> raw_stage \<Rightarrow> (workflow_def_error, stage_def) result"
and resolve_branch ::
  "externals \<Rightarrow> string \<Rightarrow> string \<Rightarrow> string \<Rightarrow> raw_stage \<Rightarrow> (workflow_def_error, branch) result"
and resolve_branches ::
  "externals \<Rightarrow> string \<Rightarrow> string \<Rightarrow> raw_stage imap \<Rightarrow> branch imap \<Rightarrow> (workflow_def_error, branch imap) result"
where
  "resolve_stage X base_dir stage_name (RawStage k on_map guard rs) =
     and_then
       (case k of
          RawAgentTurn role prompt_file capture report_sections \<Rightarrow>
            and_then (opt_res (\<lambda>rel. resolve_file X base_dir rel (OwnerStage stage_name) ''prompt_file'')
                        prompt_file)
              (\<lambda>p. Inr (AgentTurn role p capture report_sections))
        | RawShell command script_file capture timeout env \<Rightarrow>
            and_then (resolve_command X base_dir stage_name command script_file) (\<lambda>c.
            and_then (opt_res (parse_duration_field stage_name ''timeout'') timeout) (\<lambda>t.
              Inr (Shell c capture t env)))
        | RawPoll capture raw \<Rightarrow>
            and_then (resolve_watch X base_dir stage_name raw (''interval'', ''timeout'', ''backoff''))
              (\<lambda>w. Inr (Poll capture w))
        | RawHumanGate capture markers raw \<Rightarrow>
            (case markers of
               Some [] \<Rightarrow> Inl (EmptyReplyMarkers stage_name)
             | _ \<Rightarrow>
               and_then (opt_res (\<lambda>w. resolve_watch X base_dir stage_name w
                                   (''watch.interval'', ''watch.timeout'', ''watch.backoff'')) raw)
                 (\<lambda>w. Inr (HumanGate capture (case markers of None \<Rightarrow> [] | Some ms \<Rightarrow> ms) w)))
        | RawTerminal \<Rightarrow> Inr Terminal
        | RawParallel branches \<Rightarrow>
            and_then (resolve_branches X base_dir stage_name branches []) (\<lambda>bs. Inr (Parallel bs)))
       (\<lambda>kind. Inr (StageDef kind on_map guard))"
| "resolve_branch X base_dir grp name raw =
     and_then (branch_results grp name raw) (\<lambda>results.
     and_then (resolve_stage X base_dir name raw) (\<lambda>def. Inr (Branch def results)))"
| "resolve_branches X base_dir grp [] resolved = Inr resolved"
| "resolve_branches X base_dir grp ((name, raw) # rest) resolved =
     and_then (resolve_branch X base_dir grp name raw)
       (\<lambda>b. resolve_branches X base_dir grp rest (imap_insert name b resolved))"
  by pat_completeness auto
termination
  by (relation "measure (\<lambda>c. case c of
        Inl (_, _, _, raw) \<Rightarrow> 2 * size raw
      | Inr (Inl (_, _, _, _, raw)) \<Rightarrow> Suc (2 * size raw)
      | Inr (Inr (_, _, _, raws, _)) \<Rightarrow> Suc (2 * size_list (size_prod (\<lambda>_. 0) size) raws))") auto

section \<open>Roles\<close>

fun disallowed_tools_loop ::
  "string \<Rightarrow> string list \<Rightarrow> role_tool list \<Rightarrow> (workflow_def_error, role_tool list) result"
where
  "disallowed_tools_loop role [] tools = Inr tools"
| "disallowed_tools_loop role (name # names) tools =
     (case role_tool_from_name name of
        None \<Rightarrow> Inl (UnknownRoleTool role name)
      | Some t \<Rightarrow> disallowed_tools_loop role names (if t \<in> set tools then tools else tools @ [t]))"

definition role_disallowed_tools :: "raw_role \<Rightarrow> string \<Rightarrow> (workflow_def_error, role_tool list) result" where
  "role_disallowed_tools r role = disallowed_tools_loop role (rr_disallowed_tools r) []"

definition role_isolation :: "raw_role \<Rightarrow> string \<Rightarrow> (workflow_def_error, isolation) result" where
  "role_isolation r role =
     (if rr_inherit_operator_config r then
        (if rr_skills r \<noteq> None then Inl (IsolationFieldWithInheritedConfig role ''skills'')
         else if rr_memory r \<noteq> None then Inl (IsolationFieldWithInheritedConfig role ''memory'')
         else Inr InheritOperatorConfig)
      else Inr (Isolated (case rr_skills r of None \<Rightarrow> [] | Some s \<Rightarrow> s)
                         (case rr_memory r of None \<Rightarrow> False | Some m \<Rightarrow> m)))"

definition resolve_role ::
  "externals \<Rightarrow> string \<Rightarrow> bool \<Rightarrow> string \<Rightarrow> raw_role \<Rightarrow> (workflow_def_error, role_def) result"
where
  "resolve_role X base_dir worktree name r =
     and_then (role_isolation r name) (\<lambda>iso.
     and_then (role_disallowed_tools r name) (\<lambda>tools.
     and_then
       (if rr_read_only r then
          (let missing = filter (\<lambda>t. t \<notin> set tools) role_tools_all in
           checks [fail_if (missing \<noteq> [])
                     (ReadOnlyRoleMissingTools name (join '', '' (map role_tool_name missing))),
                   fail_if (\<not> worktree) (ReadOnlyRoleWithoutWorktree name)])
        else Inr ()) (\<lambda>_.
     and_then (opt_res (\<lambda>rel. resolve_file X base_dir rel (OwnerRole name) ''system_prompt_file'')
                 (rr_system_prompt_file r)) (\<lambda>system_prompt_file.
     and_then (map_err (\<lambda>p. InvalidClaudeSettings name p) (from_yaml (rr_claude_settings r)))
       (\<lambda>settings.
        Inr \<lparr>rd_cli = rr_cli r, rd_model = rr_model r, rd_system_prompt_file = system_prompt_file,
             rd_isolation = iso, rd_disallowed_tools = tools, rd_read_only = rr_read_only r,
             rd_claude_settings = settings\<rparr>)))))"

section \<open>Unknown stage keys\<close>

fun untag :: "yaml \<Rightarrow> yaml" where
  "untag (YTagged t v) = untag v"
| "untag v = v"

definition y_as_str :: "yaml \<Rightarrow> string option" where
  "y_as_str v = (case untag v of YStr s \<Rightarrow> Some s | _ \<Rightarrow> None)"

definition y_as_mapping :: "yaml \<Rightarrow> (yaml \<times> yaml) list option" where
  "y_as_mapping v = (case untag v of YMap m \<Rightarrow> Some m | _ \<Rightarrow> None)"

definition y_get :: "string \<Rightarrow> (yaml \<times> yaml) list \<Rightarrow> yaml option" where
  "y_get k m = map_of m (YStr k)"

definition COMMON_STAGE_KEYS :: "string list" where
  "COMMON_STAGE_KEYS = [''kind'', ''on'', ''loop_guard'']"

definition stage_kind_keys :: "string \<Rightarrow> string list option" where
  "stage_kind_keys k =
     (if k = ''agent_turn'' then Some [''role'', ''prompt_file'', ''capture'', ''report_sections'']
      else if k = ''shell'' then Some [''command'', ''script_file'', ''capture'', ''timeout'', ''env'']
      else if k = ''poll'' then
        Some [''command'', ''script_file'', ''capture'', ''env'', ''interval'', ''backoff'', ''timeout'', ''outcomes'']
      else if k = ''human_gate'' then Some [''capture'', ''markers'', ''watch'']
      else if k = ''terminal'' then Some []
      else if k = ''parallel'' then Some [''branches'']
      else None)"

definition mapping_kind :: "(yaml \<times> yaml) list \<Rightarrow> string option" where
  "mapping_kind m = Option.bind (y_get ''kind'' m) y_as_str"

text \<open>One stage's keys (or a branch's, which may also have results) against its kind's.\<close>

definition check_stage_keys ::
  "string list \<Rightarrow> string \<Rightarrow> (yaml \<times> yaml) list \<Rightarrow> string list \<Rightarrow> (workflow_def_error, unit) result"
where
  "check_stage_keys extra name m allowed =
     for_each (\<lambda>(key, _). case y_as_str key of
                 None \<Rightarrow> Inr ()
               | Some k \<Rightarrow> fail_if (k \<notin> set COMMON_STAGE_KEYS \<and> k \<notin> set allowed \<and> k \<notin> set extra)
                            (UnknownStageKey name k)) m"

definition check_named_stage ::
  "string list \<Rightarrow> ((yaml \<times> yaml) list \<Rightarrow> (workflow_def_error, unit) result) \<Rightarrow>
   yaml \<times> yaml \<Rightarrow> (workflow_def_error, unit) result"
where
  "check_named_stage extra further entry =
     (case (y_as_str (fst entry), y_as_mapping (snd entry)) of
        (Some name, Some m) \<Rightarrow>
          (case Option.bind (mapping_kind m) stage_kind_keys of
             None \<Rightarrow> Inr ()
           | Some allowed \<Rightarrow> checks [check_stage_keys extra name m allowed, further m])
      | _ \<Rightarrow> Inr ())"

definition check_branches :: "(yaml \<times> yaml) list \<Rightarrow> (workflow_def_error, unit) result" where
  "check_branches m =
     (if mapping_kind m = Some ''parallel'' then
        (case Option.bind (y_get ''branches'' m) y_as_mapping of
           None \<Rightarrow> Inr ()
         | Some bs \<Rightarrow> for_each (check_named_stage [''results''] (\<lambda>_. Inr ())) bs)
      else Inr ())"

definition reject_unknown_stage_keys :: "yaml \<Rightarrow> (workflow_def_error, unit) result" where
  "reject_unknown_stage_keys v =
     (case Option.bind (Option.bind (y_as_mapping v) (y_get ''stages'')) y_as_mapping of
        None \<Rightarrow> Inr ()
      | Some stages \<Rightarrow> for_each (check_named_stage [] check_branches) stages)"

section \<open>What resolving guarantees\<close>

text \<open>A path the loader accepted: under the definition's directory, and a file.\<close>

definition inside :: "externals \<Rightarrow> string \<Rightarrow> string \<Rightarrow> bool" where
  "inside X base p =
     (ex_is_file X p \<and>
      list_ex (\<lambda>n. let rel = drop n p in
                 p = join_path base rel \<and> \<not> is_absolute rel \<and> \<not> has_parent_dir rel)
        [0..<Suc (length p)])"

fun command_files :: "shell_command \<Rightarrow> string list" where
  "command_files (Inline c) = []"
| "command_files (ScriptFile p) = [p]"

lemma branch_kind_size [termination_simp]:
  assumes "(k, b) \<in> set bs"
  shows "size (sd_kind (br_def b)) < Suc (size_list (\<lambda>x. Suc (size (snd x))) bs)"
proof -
  have "size (sd_kind (br_def b)) \<le> Suc (size b)"
    by (cases b; cases "br_def b") auto
  also have "\<dots> \<le> size_list (\<lambda>x. Suc (size (snd x))) bs"
    using assms by (induction bs) auto
  finally show ?thesis by simp
qed

text \<open>The files a stage (and its branches) refers to.\<close>

fun kind_files :: "stage_kind \<Rightarrow> string list" where
  "kind_files (AgentTurn role prompt_file c s) = (case prompt_file of None \<Rightarrow> [] | Some p \<Rightarrow> [p])"
| "kind_files (Shell cmd c t env) = command_files cmd"
| "kind_files (Poll c w) = command_files (w_command w)"
| "kind_files (HumanGate c ms w) = (case w of None \<Rightarrow> [] | Some w \<Rightarrow> command_files (w_command w))"
| "kind_files Terminal = []"
| "kind_files (Parallel bs) = concat (map (\<lambda>(k, b). kind_files (sd_kind (br_def b))) bs)"

text \<open>The shape of a branch: an agent turn without transitions, with the outcomes it may report.\<close>

fun turn_capture :: "stage_kind \<Rightarrow> capture option" where
  "turn_capture (AgentTurn _ _ c _) = c"
| "turn_capture _ = None"

fun is_agent_turn :: "stage_kind \<Rightarrow> bool" where
  "is_agent_turn (AgentTurn _ _ _ _) = True"
| "is_agent_turn _ = False"

definition branch_wf :: "branch \<Rightarrow> bool" where
  "branch_wf b =
     (is_agent_turn (sd_kind (br_def b)) \<and> sd_on (br_def b) = [] \<and> sd_guard (br_def b) = None \<and>
      br_results b \<noteq> [] \<and> distinct (br_results b) \<and>
      (turn_capture (sd_kind (br_def b)) = Some CaptureJson \<or> br_results b = [''done'']))"

text \<open>A schedule: later steps start later, all before the timeout, and no interval is zero.\<close>

definition schedule_ok :: "duration option \<Rightarrow> backoff_step list \<Rightarrow> bool" where
  "schedule_ok timeout steps =
     (sorted_wrt (\<lambda>a b. bo_after a < bo_after b) steps \<and>
      list_all (\<lambda>s. 0 < as_secs (bo_interval s) \<and>
                 (case timeout of None \<Rightarrow> True | Some t \<Rightarrow> bo_after s < t)) steps)"

section \<open>Lemmas\<close>

lemma resolve_relative_ok:
  "resolve_relative X base rel = Inr p \<longleftrightarrow>
     \<not> is_absolute rel \<and> \<not> has_parent_dir rel \<and> p = join_path base rel \<and> ex_is_file X p"
  by (auto simp: resolve_relative_def Let_def)

lemma join_path_drop: "\<exists>n. n \<le> length (join_path base rel) \<and> drop n (join_path base rel) = rel"
proof (cases "base = [] \<or> last base = CHR ''/''")
  case True
  then show ?thesis by (intro exI [of _ "length base"]) (simp add: join_path_def)
next
  case False
  then show ?thesis by (intro exI [of _ "Suc (length base)"]) (simp add: join_path_def)
qed

lemma inside_iff:
  "inside X base p \<longleftrightarrow>
     ex_is_file X p \<and> (\<exists>rel. p = join_path base rel \<and> \<not> is_absolute rel \<and> \<not> has_parent_dir rel)"
proof -
  have "list_ex (\<lambda>n. let rel = drop n p in p = join_path base rel \<and> \<not> is_absolute rel
            \<and> \<not> has_parent_dir rel) [0..<Suc (length p)]"
    if "p = join_path base rel" "\<not> is_absolute rel" "\<not> has_parent_dir rel" for rel
  proof -
    have p: "p = join_path base rel" by (rule that(1))
    obtain n where "n \<le> length p" "drop n p = rel"
      using join_path_drop [of base rel] unfolding p by blast
    with that show ?thesis by (auto simp: list_ex_iff Let_def intro!: bexI [of _ n])
  qed
  then show ?thesis by (auto simp: inside_def list_ex_iff Let_def)
qed

lemma resolve_file_ok: "resolve_file X base rel owner field = Inr p \<Longrightarrow> inside X base p"
  by (auto simp: resolve_file_def result_simps resolve_relative_ok inside_iff)

lemma resolve_command_ok:
  "resolve_command X base stage c f = Inr cmd \<Longrightarrow> p \<in> set (command_files cmd) \<Longrightarrow> inside X base p"
  by (auto simp: resolve_command_def result_simps split: option.splits dest: resolve_file_ok)

lemma backoff_loop_ok:
  assumes "backoff_loop stage timeout raw_timeout field i raw steps prev = Inr out"
    and "schedule_ok timeout steps" and "timeout \<noteq> None \<longrightarrow> raw_timeout \<noteq> None"
  shows "schedule_ok timeout out"
  using assms
proof (induction raw arbitrary: i steps prev)
  case (Cons step raw)
  from Cons.prems(1) obtain a where a: "parse_duration (rb_after step) = Inr a"
    by (auto simp: result_simps)
  from Cons.prems(1) obtain v where v: "parse_duration (rb_interval step) = Inr v"
    by (auto simp: result_simps)
  let ?new = "steps @ [\<lparr>bo_after = a, bo_interval = v\<rparr>]"
  have later: "steps = [] \<or> bo_after (last steps) < a"
    using Cons.prems(1) a v by (cases "steps = []") (auto simp: result_simps not_le split: if_splits)
  have below: "case timeout of None \<Rightarrow> True | Some t \<Rightarrow> a < t"
    using Cons.prems a v by (auto simp: result_simps not_le split: if_splits option.splits)
  have rest: "backoff_loop stage timeout raw_timeout field (Suc i) raw ?new (rb_after step) = Inr out"
    using Cons.prems(1) a v by (auto simp: result_simps split: if_splits option.splits)
  have "bo_after s < a" if "s \<in> set steps" for s
  proof -
    have "steps \<noteq> []" using that by auto
    then obtain front z where z: "steps = front @ [z]" by (metis append_butlast_last_id)
    with Cons.prems(2) that later show ?thesis
      by (auto simp: schedule_ok_def sorted_wrt_append)
  qed
  then have "schedule_ok timeout ?new"
    using Cons.prems(2) below parse_duration_positive [OF v]
    by (auto simp: schedule_ok_def sorted_wrt_append split: option.splits)
  with Cons.IH [OF rest _ Cons.prems(3)] show ?case by simp
qed simp

lemma resolve_watch_ok:
  assumes "resolve_watch X base stage raw names = Inr w"
  shows "schedule_ok (w_timeout w) (w_backoff w)" and "0 < as_secs (w_interval w)"
    and "p \<in> set (command_files (w_command w)) \<Longrightarrow> inside X base p"
proof -
  from assms obtain to where to: "opt_res (parse_duration_field stage (fst (snd names))) (rw_timeout raw) = Inr to"
    and b: "resolve_backoff stage (rw_backoff raw) to (rw_timeout raw) (snd (snd names)) = Inr (w_backoff w)"
    and w: "w_timeout w = to"
    by (auto simp: resolve_watch_def result_simps)
  have "to \<noteq> None \<longrightarrow> rw_timeout raw \<noteq> None" using to by (cases "rw_timeout raw") auto
  moreover have nil: "schedule_ok t []" for t by (simp add: schedule_ok_def)
  ultimately show "schedule_ok (w_timeout w) (w_backoff w)"
    using b w
    by (auto simp: resolve_backoff_def nil simp del: backoff_loop.simps split: option.splits list.splits
        intro: backoff_loop_ok [OF _ nil])
  show "0 < as_secs (w_interval w)"
    using assms by (auto simp: resolve_watch_def result_simps parse_duration_field_def
        dest: parse_duration_positive)
  show "inside X base p" if "p \<in> set (command_files (w_command w))"
    using assms that by (auto simp: resolve_watch_def result_simps dest: resolve_command_ok)
qed

lemma duplicate_result_None:
  "duplicate_result seen rs = None \<longleftrightarrow> distinct rs \<and> set rs \<inter> set seen = {}"
  by (induction seen rs rule: duplicate_result.induct) auto

lemma branch_results_ok:
  assumes "branch_results grp name raw = Inr results"
  shows "rs_on raw = [] \<and> rs_guard raw = None \<and> results \<noteq> [] \<and> distinct results \<and>
    (\<exists>role p c s. rs_kind raw = RawAgentTurn role p c s \<and> (c = Some CaptureJson \<or> results = [''done'']))"
  using assms
  by (cases "rs_kind raw"; auto simp: branch_results_def duplicate_result_None result_simps
      split: if_splits option.splits list.splits)

lemma resolve_branches_keys:
  assumes "resolve_branches X base grp raws acc = Inr bs" and "imap_ok acc"
  shows "imap_ok bs"
  using assms
proof (induction raws arbitrary: acc)
  case (Cons r raws)
  obtain k raw where r: "r = (k, raw)" by (cases r)
  from Cons.prems(1) r obtain b where "resolve_branches X base grp raws (imap_insert k b acc) = Inr bs"
    by (auto simp: result_simps)
  then show ?case by (rule Cons.IH) (rule imap_insert_ok [OF Cons.prems(2)])
qed simp

lemma imap_insert_mem: "(k', v') \<in> set (imap_insert k v m) \<Longrightarrow> (k', v') = (k, v) \<or> (k', v') \<in> set m"
  by (induction k v m rule: imap_insert.induct) (auto split: if_splits)

text \<open>What every resolved stage satisfies, and its branches with it.\<close>

definition stage_resolved :: "externals \<Rightarrow> string \<Rightarrow> raw_stage \<Rightarrow> stage_def \<Rightarrow> bool" where
  "stage_resolved X base raw st =
     (list_all (inside X base) (kind_files (sd_kind st)) \<and>
      (case stage_watch st of None \<Rightarrow> True
       | Some w \<Rightarrow> schedule_ok (w_timeout w) (w_backoff w) \<and> 0 < as_secs (w_interval w)) \<and>
      (case group_branches (sd_kind st) of None \<Rightarrow> True
       | Some bs \<Rightarrow> imap_ok bs \<and> list_all (\<lambda>(k, b). branch_wf b) bs) \<and>
      sd_on st = rs_on raw \<and> sd_guard st = rs_guard raw)"

lemma resolve_agent_stage:
  assumes "resolve_stage X base n (RawStage (RawAgentTurn r p c s) on g rs) = Inr st"
  shows "stage_resolved X base (RawStage (RawAgentTurn r p c s) on g rs) st
           \<and> (\<exists>p'. sd_kind st = AgentTurn r p' c s)"
  using assms
  by (auto simp: stage_resolved_def result_simps stage_watch_def dest: resolve_file_ok split: option.splits)

lemma resolve_branch_ok:
  assumes "resolve_branch X base grp n raw = Inr b"
  shows "branch_wf b \<and> list_all (inside X base) (kind_files (sd_kind (br_def b)))"
proof -
  from assms obtain results st where r: "branch_results grp n raw = Inr results"
    and st: "resolve_stage X base n raw = Inr st" and b: "b = Branch st results"
    by (auto simp: result_simps)
  from branch_results_ok [OF r] obtain role p c s
    where k: "rs_kind raw = RawAgentTurn role p c s" by blast
  then obtain on g rs where raw: "raw = RawStage (RawAgentTurn role p c s) on g rs"
    by (cases raw) auto
  show ?thesis
    using resolve_agent_stage [OF st [unfolded raw]] branch_results_ok [OF r] raw b
    by (auto simp: branch_wf_def stage_resolved_def)
qed

lemma resolve_branches_ok:
  assumes "resolve_branches X base grp raws acc = Inr bs"
    and "list_all (\<lambda>(k, b). branch_wf b \<and> list_all (inside X base) (kind_files (sd_kind (br_def b)))) acc"
  shows "list_all (\<lambda>(k, b). branch_wf b \<and> list_all (inside X base) (kind_files (sd_kind (br_def b)))) bs"
  using assms
proof (induction raws arbitrary: acc)
  case (Cons r raws)
  obtain k raw where r: "r = (k, raw)" by (cases r)
  from Cons.prems(1) r obtain b where b: "resolve_branch X base grp k raw = Inr b"
    and rest: "resolve_branches X base grp raws (imap_insert k b acc) = Inr bs"
    by (auto simp: result_simps)
  from rest show ?case
  proof (rule Cons.IH)
    show "list_all (\<lambda>(k, b). branch_wf b \<and> list_all (inside X base) (kind_files (sd_kind (br_def b))))
            (imap_insert k b acc)"
      using Cons.prems(2) resolve_branch_ok [OF b] by (fastforce simp: list_all_iff dest!: imap_insert_mem)
  qed
qed simp

lemma resolve_stage_ok:
  assumes "resolve_stage X base n raw = Inr st"
  shows "stage_resolved X base raw st"
proof (cases raw)
  case (RawStage k on g rs)
  from assms obtain kind where st: "st = StageDef kind on g"
    by (auto simp: RawStage result_simps)
  show ?thesis
  proof (cases k)
    case (RawAgentTurn r p c s)
    then show ?thesis using assms resolve_agent_stage RawStage by blast
  next
    case (RawShell c f cap t env)
    then show ?thesis using assms RawStage
      by (auto simp: stage_resolved_def result_simps stage_watch_def list_all_iff dest: resolve_command_ok)
  next
    case (RawPoll cap w)
    then show ?thesis using assms RawStage resolve_watch_ok
      by (auto simp: stage_resolved_def result_simps stage_watch_def list_all_iff)
  next
    case (RawHumanGate cap ms w)
    then show ?thesis using assms RawStage resolve_watch_ok
      by (auto simp: stage_resolved_def result_simps stage_watch_def list_all_iff
          split: option.splits list.splits)
  next
    case RawTerminal
    then show ?thesis using assms RawStage
      by (auto simp: stage_resolved_def stage_watch_def)
  next
    case (RawParallel raws)
    then obtain bs where bs: "resolve_branches X base n raws [] = Inr bs" and "kind = Parallel bs"
      using assms RawStage st by (auto simp: result_simps)
    then show ?thesis
      using resolve_branches_ok [OF bs] resolve_branches_keys [OF bs] st RawStage
      by (fastforce simp: stage_resolved_def stage_watch_def list_all_iff imap_ok_def ikeys_def)
  qed
qed

lemma disallowed_loop_ok:
  "disallowed_tools_loop role names tools = Inr out \<Longrightarrow> distinct tools \<Longrightarrow>
     distinct out \<and> set out = set tools \<union> {t. \<exists>n\<in>set names. role_tool_from_name n = Some t}"
  by (induction role names tools rule: disallowed_tools_loop.induct)
     (auto split: option.splits if_splits)

lemma role_tools_all_complete: "t \<in> set role_tools_all"
  by (cases t) (auto simp: role_tools_all_def)

lemma role_read_only:
  assumes "resolve_role X base worktree name r = Inr d" and "rd_read_only d"
  shows "worktree \<and> (\<forall>t. t \<in> set (rd_disallowed_tools d))"
  using assms role_tools_all_complete
  by (fastforce simp: resolve_role_def result_simps filter_empty_conv)

section \<open>Properties\<close>

text \<open>
  C28. Resolving a stage never hands out a file outside the workflow's directory: every prompt or
  script the stage or one of its branches refers to is a file reached by a relative path with no
  parent-directory component. A branch of a parallel stage is an agent turn with no transitions
  and no loop guard, reporting one of a nonempty set of distinct outcomes, which is just done
  unless it captures json. A watcher's backoff steps start strictly later one after another, all
  before its timeout, and none of its intervals is zero.
\<close>

theorem resolved_stage_well_formed:
  assumes "resolve_stage X base name raw = Inr st"
  shows "list_all (inside X base) (kind_files (sd_kind st)) \<and>
    (case group_branches (sd_kind st) of None \<Rightarrow> True
     | Some bs \<Rightarrow> distinct (ikeys bs) \<and> list_all (\<lambda>(k, b). branch_wf b) bs) \<and>
    (case stage_watch st of None \<Rightarrow> True
     | Some w \<Rightarrow> schedule_ok (w_timeout w) (w_backoff w) \<and> 0 < as_secs (w_interval w)) \<and>
    sd_on st = rs_on raw \<and> sd_guard st = rs_guard raw"
  using resolve_stage_ok [OF assms]
  by (auto simp: stage_resolved_def imap_ok_def split: option.splits)

definition example_externals :: externals where
  "example_externals =
     \<lparr>ex_unicode = ascii_unicode, ex_is_file = (\<lambda>p. p = ''defs/prompts/a.md''),
      ex_read_file = (\<lambda>p. if p = ''defs/prompts/a.md'' then Inr ''Fix {{ task.title }}'' else Inl ''missing''),
      ex_regex_error = (\<lambda>p. None), ex_yaml_definition = (\<lambda>s. Inl ''unused''),
      ex_yaml_value = (\<lambda>s. Inl ''unused'')\<rparr>"

definition example_group :: raw_stage where
  "example_group =
     RawStage (RawParallel
        [(''tests'', RawStage (RawAgentTurn ''r'' (Some ''prompts/a.md'') (Some CaptureJson) []) [] None
                     (Some [''ok'', ''bad''])),
         (''docs'', RawStage (RawAgentTurn ''r'' None None []) [] None None)])
       [(''done'', ''end'')] None None"

theorem resolved_stage_well_formed_witness:
  "\<exists>st. resolve_stage example_externals ''defs'' ''review'' example_group = Inr st \<and>
        kind_files (sd_kind st) = [''defs/prompts/a.md''] \<and>
        list_all (inside example_externals ''defs'') (kind_files (sd_kind st))"
proof -
  have "is_ok (resolve_stage example_externals ''defs'' ''review'' example_group)"
    by code_simp
  then obtain st where st: "resolve_stage example_externals ''defs'' ''review'' example_group = Inr st"
    by (auto simp: is_ok_iff)
  have "(case resolve_stage example_externals ''defs'' ''review'' example_group of
      Inl _ \<Rightarrow> [] | Inr st \<Rightarrow> kind_files (sd_kind st)) = [''defs/prompts/a.md'']"
    by code_simp
  with st resolved_stage_well_formed [OF st] show ?thesis by simp
qed

text \<open>
  A watcher's poll interval: \<open>interval_at\<close> is the interval of the step whose start is the latest
  one not after the elapsed time, the base interval before the first step, and never zero.
\<close>

theorem watch_interval_schedule:
  assumes "resolve_watch X base stage raw names = Inr w"
  shows "0 < as_secs (interval_at w elapsed) \<and>
    ((\<forall>s\<in>set (w_backoff w). elapsed < bo_after s) \<longrightarrow> interval_at w elapsed = w_interval w) \<and>
    (\<forall>s\<in>set (w_backoff w). bo_after s \<le> elapsed \<longrightarrow>
       (\<forall>t\<in>set (w_backoff w). bo_after t \<le> elapsed \<longrightarrow> bo_after t \<le> bo_after s) \<longrightarrow>
       interval_at w elapsed = bo_interval s)"
proof (intro conjI impI ballI)
  note ok = resolve_watch_ok [OF assms]
  show "0 < as_secs (interval_at w elapsed)"
  proof (cases "find (\<lambda>step. bo_after step \<le> elapsed) (rev (w_backoff w))")
    case None
    then show ?thesis using ok(2) by (simp add: interval_at_def)
  next
    case (Some s)
    then have "s \<in> set (w_backoff w)" by (auto simp: find_Some_iff) (metis nth_mem length_rev set_rev)
    then show ?thesis using ok(1) Some by (simp add: interval_at_def schedule_ok_def list_all_iff)
  qed
  show "interval_at w elapsed = w_interval w" if "\<forall>s\<in>set (w_backoff w). elapsed < bo_after s"
  proof -
    have "find (\<lambda>step. bo_after step \<le> elapsed) (rev (w_backoff w)) = None"
      using that by (auto simp: find_None_iff not_le)
    then show ?thesis by (simp add: interval_at_def)
  qed
  fix s
  assume s: "s \<in> set (w_backoff w)" "bo_after s \<le> elapsed"
    "\<forall>t\<in>set (w_backoff w). bo_after t \<le> elapsed \<longrightarrow> bo_after t \<le> bo_after s"
  have sorted: "sorted_wrt (\<lambda>a b. bo_after a < bo_after b) (w_backoff w)"
    using ok(1) by (simp add: schedule_ok_def)
  have "find (\<lambda>step. bo_after step \<le> elapsed) (rev (w_backoff w)) = Some s"
    using s(3) by (intro find_last_started [OF sorted s(1,2)]) blast
  then show "interval_at w elapsed = bo_interval s" by (simp add: interval_at_def)
qed

definition example_watch :: raw_watch where
  "example_watch =
     \<lparr>rw_command = Some ''check'', rw_script_file = None, rw_env = [], rw_interval = ''30s'',
      rw_backoff = Some [\<lparr>rb_after = ''5m'', rb_interval = ''2m''\<rparr>, \<lparr>rb_after = ''1h'', rb_interval = ''10m''\<rparr>],
      rw_timeout = Some ''2h'', rw_outcomes = []\<rparr>"

definition example_names :: "string \<times> string \<times> string" where
  "example_names = (''interval'', ''timeout'', ''backoff'')"

theorem watch_interval_schedule_witness:
  "\<exists>w. resolve_watch example_externals ''defs'' ''ci'' example_watch example_names = Inr w \<and>
       w_interval w = Duration 30 0 \<and> interval_at w (Duration 10 0) = Duration 30 0"
proof -
  have d: "parse_duration ''30s'' = Inr (Duration 30 0)" "parse_duration ''5m'' = Inr (Duration 300 0)"
    "parse_duration ''2m'' = Inr (Duration 120 0)" "parse_duration ''1h'' = Inr (Duration 3600 0)"
    "parse_duration ''10m'' = Inr (Duration 600 0)" "parse_duration ''2h'' = Inr (Duration 7200 0)"
    by (simp_all add: parse_duration_def parse_u64_def read_nat_def digit_val_def is_digit_def
        unit_multiplier_def checked_mul_u64_def from_secs_def of_char_def)
  obtain w where w: "resolve_watch example_externals ''defs'' ''ci'' example_watch example_names = Inr w"
    and i: "w_interval w = Duration 30 0"
    and b: "w_backoff w = [\<lparr>bo_after = Duration 300 0, bo_interval = Duration 120 0\<rparr>,
                         \<lparr>bo_after = Duration 3600 0, bo_interval = Duration 600 0\<rparr>]"
    by (simp add: resolve_watch_def resolve_command_def parse_duration_field_def resolve_backoff_def
        example_watch_def example_names_def d less_eq_duration_def less_duration_def)
  show ?thesis
    using w watch_interval_schedule [OF w, of "Duration 10 0"] i b by (simp add: less_duration_def)
qed

text \<open>
  C29. A role the loader accepts as read_only runs in a worktree and has every file-changing tool
  disallowed; a role that inherits the operator's configuration sets neither skills nor memory; the
  disallowed tools are the named ones, each once.
\<close>

theorem read_only_role_enforced:
  assumes "resolve_role X base worktree name r = Inr d"
  shows "(rd_read_only d \<longrightarrow> worktree \<and> (\<forall>t. t \<in> set (rd_disallowed_tools d))) \<and>
    (rd_isolation d = InheritOperatorConfig \<longleftrightarrow> rr_inherit_operator_config r) \<and>
    (rr_inherit_operator_config r \<longrightarrow> rr_skills r = None \<and> rr_memory r = None) \<and>
    distinct (rd_disallowed_tools d) \<and>
    (\<forall>n\<in>set (rr_disallowed_tools r). \<exists>t\<in>set (rd_disallowed_tools d). role_tool_name t = n) \<and>
    (\<forall>t\<in>set (rd_disallowed_tools d). role_tool_name t \<in> set (rr_disallowed_tools r))"
proof -
  have named: "disallowed_tools_loop role ns tools = Inr out \<Longrightarrow> n \<in> set ns \<Longrightarrow>
      \<exists>t. role_tool_from_name n = Some t" for role ns tools out n
    by (induction role ns tools rule: disallowed_tools_loop.induct) (auto split: option.splits)
  have tool_name: "role_tool_from_name n = Some t \<longleftrightarrow> role_tool_name t = n" for n t
    by (cases t) (auto simp: role_tool_from_name_def)
  from assms have tools: "disallowed_tools_loop name (rr_disallowed_tools r) [] = Inr (rd_disallowed_tools d)"
    and iso: "role_isolation r name = Inr (rd_isolation d)"
    and ro: "rd_read_only d = rr_read_only r"
    by (auto simp: resolve_role_def role_disallowed_tools_def result_simps)
  show ?thesis
    using role_read_only [OF assms] iso ro disallowed_loop_ok [OF tools] named [OF tools] tool_name
    by (fastforce simp: role_isolation_def split: if_splits)
qed

definition example_role :: raw_role where
  "example_role =
     \<lparr>rr_cli = None, rr_model = None, rr_system_prompt_file = None, rr_inherit_operator_config = False,
      rr_skills = None, rr_memory = None, rr_disallowed_tools = [''write'', ''edit'', ''write'', ''notebook_edit''],
      rr_read_only = True, rr_claude_settings = None\<rparr>"

theorem read_only_role_enforced_witness:
  "\<exists>d. resolve_role example_externals ''defs'' True ''reviewer'' example_role = Inr d \<and>
       Edit \<in> set (rd_disallowed_tools d)"
proof -
  have "is_ok (resolve_role example_externals ''defs'' True ''reviewer'' example_role)"
    by code_simp
  then obtain d where d: "resolve_role example_externals ''defs'' True ''reviewer'' example_role = Inr d"
    by (auto simp: is_ok_iff)
  then have "rd_read_only d" by (auto simp: resolve_role_def result_simps example_role_def)
  with d read_only_role_enforced [OF d] show ?thesis by blast
qed

end
