(* ===== verification/Graph.thy ===== *)
theory Graph
  imports Workflow
begin

text \<open>
  The two walks of the stage graph that loading a workflow makes (workflow_def.rs: reaches and
  sink_reachable_from_start), and the contract both share: a worklist search that pops a stack,
  skips what it has visited and pushes the successors decides reachability. The contract is the
  locale \<open>worklist_search\<close>, interpreted on each walk.
\<close>

section \<open>Worklist search\<close>

text \<open>
  \<open>run visited stack\<close> is the state of the loop. Only a goal that is not yet visited must be
  noticed, so it does not matter whether the loop tests the goal before the visited set or after.
\<close>

locale worklist_search =
  fixes run :: "'a list \<Rightarrow> 'a list \<Rightarrow> bool"
    and nodes :: "'a list"
    and succs :: "'a \<Rightarrow> 'a list"
    and hit :: "'a \<Rightarrow> bool"
  assumes run_nil: "\<not> run visited []"
    and run_hit: "x \<notin> set visited \<Longrightarrow> hit x \<Longrightarrow> run visited (x # stack)"
    and run_seen: "x \<in> set visited \<Longrightarrow> \<not> hit x \<Longrightarrow> run visited (x # stack) = run visited stack"
    and run_step: "x \<notin> set visited \<Longrightarrow> \<not> hit x \<Longrightarrow>
      \<exists>stack'. set stack' = set (succs x) \<union> set stack \<and>
        (x \<notin> set nodes \<longrightarrow> stack' = stack) \<and>
        run visited (x # stack) = run (x # visited) stack'"
    and no_succs: "x \<notin> set nodes \<Longrightarrow> succs x = []"
begin

definition edge :: "('a \<times> 'a) set" where
  "edge = {(x, y). y \<in> set (succs x)}"

definition finds :: "'a \<Rightarrow> bool" where
  "finds x = (\<exists>y. (x, y) \<in> edge\<^sup>* \<and> hit y)"

lemma finds_unfold: "finds x \<longleftrightarrow> hit x \<or> (\<exists>y\<in>set (succs x). finds y)"
proof
  assume "finds x"
  then obtain y where "(x, y) \<in> edge\<^sup>*" "hit y" by (auto simp: finds_def)
  then show "hit x \<or> (\<exists>y\<in>set (succs x). finds y)"
    by (cases rule: converse_rtranclE) (auto simp: finds_def edge_def)
next
  assume "hit x \<or> (\<exists>y\<in>set (succs x). finds y)"
  then show "finds x"
    by (auto simp: finds_def edge_def intro: converse_rtrancl_into_rtrancl)
qed

text \<open>What was visited can only reach a goal through what is still on the stack.\<close>

lemma visited_finds_via_stack:
  assumes closed: "\<And>x. x \<in> V \<Longrightarrow> \<not> hit x \<and> set (succs x) \<subseteq> V \<union> S"
    and "(x, y) \<in> edge\<^sup>*" and "hit y" and "x \<in> V \<union> S"
  shows "\<exists>z\<in>S. finds z"
  using assms(2,4,3)
proof (induction rule: converse_rtrancl_induct)
  case base
  then show ?case using closed by (auto simp: finds_def)
next
  case (step x z)
  show ?case
  proof (cases "x \<in> V")
    case True
    with closed step.hyps(1) have "z \<in> V \<union> S" by (auto simp: edge_def)
    with step show ?thesis by blast
  next
    case False
    with step have "x \<in> S" "finds x"
      by (auto simp: finds_def intro: converse_rtrancl_into_rtrancl)
    then show ?thesis by blast
  qed
qed

lemma run_finds:
  assumes "\<And>x. x \<in> set visited \<Longrightarrow> \<not> hit x \<and> set (succs x) \<subseteq> set visited \<union> set stack"
  shows "run visited stack \<longleftrightarrow> (\<exists>x\<in>set stack. finds x)"
  using assms
proof (induction "(visited, stack)" arbitrary: visited stack
    rule: wf_induct_rule [OF wf_measures
      [of "[\<lambda>(v, s). card (set nodes - set v), \<lambda>(v, s). length s]"]])
  case less: (1 visited stack)
  show ?case
  proof (cases stack)
    case Nil
    then show ?thesis by (simp add: run_nil)
  next
    case (Cons x rest)
    consider (hit) "hit x" | (seen) "x \<in> set visited" "\<not> hit x" | (step) "x \<notin> set visited" "\<not> hit x"
      by blast
    then show ?thesis
    proof cases
      case hit
      with less.prems have "x \<notin> set visited" by blast
      with hit show ?thesis using Cons run_hit [of x visited rest] finds_unfold [of x] by simp
    next
      case seen
      have closed: "\<not> hit z \<and> set (succs z) \<subseteq> set visited \<union> set rest" if "z \<in> set visited" for z
        using less.prems that Cons seen by auto
      have "run visited rest \<longleftrightarrow> (\<exists>z\<in>set rest. finds z)"
        by (rule less.hyps) (use Cons closed in auto)
      moreover have "\<exists>z\<in>set rest. finds z" if "finds x"
        using that visited_finds_via_stack [OF closed] seen(1) by (auto simp: finds_def)
      ultimately show ?thesis using run_seen seen Cons by auto
    next
      case step
      obtain stack' where s: "set stack' = set (succs x) \<union> set rest"
        "x \<notin> set nodes \<longrightarrow> stack' = rest" "run visited (x # rest) = run (x # visited) stack'"
        using run_step [OF step] by blast
      have smaller: "(card (set nodes - set (x # visited)) < card (set nodes - set visited)) \<or>
          (card (set nodes - set (x # visited)) = card (set nodes - set visited) \<and>
           length stack' < length stack)"
      proof (cases "x \<in> set nodes")
        case True
        with step(1) have "set nodes - set (x # visited) \<subset> set nodes - set visited" by auto
        then show ?thesis by (simp add: psubset_card_mono)
      next
        case False
        then have "set nodes - set (x # visited) = set nodes - set visited" by auto
        with False s(2) Cons show ?thesis by simp
      qed
      have "run (x # visited) stack' \<longleftrightarrow> (\<exists>z\<in>set stack'. finds z)"
      proof (rule less.hyps)
        show "((x # visited, stack'), visited, stack)
            \<in> measures [\<lambda>(v, s). card (set nodes - set v), \<lambda>(v, s). length s]"
          using smaller by auto
        show "\<not> hit z \<and> set (succs z) \<subseteq> set (x # visited) \<union> set stack'"
          if "z \<in> set (x # visited)" for z
          using that less.prems [of z] Cons s(1) step(2) by auto
      qed
      then show ?thesis using s Cons step(2) finds_unfold [of x] by auto
    qed
  qed
qed

theorem search_correct: "run [] [x] \<longleftrightarrow> (\<exists>y. (x, y) \<in> edge\<^sup>* \<and> hit y)"
  by (subst run_finds) (auto simp: finds_def)

end

section \<open>The walks\<close>

definition on_targets :: "stage_def \<Rightarrow> string list" where
  "on_targets stage = map snd (sd_on stage)"

text \<open>The names still worth expanding: known and not visited.\<close>

definition unvisited :: "stage_def imap \<Rightarrow> string list \<Rightarrow> nat" where
  "unvisited stages visited = card (set (ikeys stages) - set visited)"

lemma known_key: "x \<in> set (ikeys m) \<longleftrightarrow> (\<exists>v. map_of m x = Some v)"
  using has_key_iff [of m x] by (simp add: has_key_def)

lemma unvisited_less:
  "map_of stages name = Some stage \<Longrightarrow> name \<notin> set visited \<Longrightarrow>
     unvisited stages (name # visited) < unvisited stages visited"
  unfolding unvisited_def
  using known_key [of name stages] by (intro psubset_card_mono) auto

lemma unvisited_unknown:
  "map_of stages name = None \<Longrightarrow> unvisited stages (name # visited) = unvisited stages visited"
  unfolding unvisited_def by (rule arg_cong [of _ _ card]) (auto simp: known_key)

text \<open>
  The loop of reaches. The stack's top is the head of the list, so pushing the targets one after
  another leaves them in reverse order.
\<close>

function reaches_loop ::
  "stage_def imap \<Rightarrow> string \<Rightarrow> string option \<Rightarrow> string list \<Rightarrow> string list \<Rightarrow> bool"
where
  "reaches_loop stages to avoiding visited [] = False"
| "reaches_loop stages to avoiding visited (name # stack) =
     (if name = to then True
      else if name \<in> set visited then reaches_loop stages to avoiding visited stack
      else (case map_of stages name of
              None \<Rightarrow> reaches_loop stages to avoiding (name # visited) stack
            | Some stage \<Rightarrow>
                reaches_loop stages to avoiding (name # visited)
                  (rev (filter (\<lambda>t. Some t \<noteq> avoiding) (on_targets stage)) @ stack)))"
  by pat_completeness auto
termination
  by (relation "measures [\<lambda>(stages, to, avoiding, v, s). unvisited stages v,
                          \<lambda>(stages, to, avoiding, v, s). length s]")
     (auto simp: unvisited_less unvisited_unknown)

definition reaches :: "stage_def imap \<Rightarrow> string \<Rightarrow> string \<Rightarrow> string option \<Rightarrow> bool" where
  "reaches stages source to avoiding =
     (if Some source = avoiding then False else reaches_loop stages to avoiding [] [source])"

declare reaches_loop.simps(2) [simp del]

text \<open>The loop of sink_reachable_from_start: also along loop_guard.then.\<close>

function sink_loop :: "stage_def imap \<Rightarrow> string list \<Rightarrow> string list \<Rightarrow> bool" where
  "sink_loop stages visited [] = False"
| "sink_loop stages visited (name # stack) =
     (if name \<in> set visited then sink_loop stages visited stack
      else (case map_of stages name of
              None \<Rightarrow> sink_loop stages (name # visited) stack
            | Some stage \<Rightarrow>
                (if sd_on stage = [] then True
                 else (let stack = rev (on_targets stage) @ stack;
                           stack = (case sd_guard stage of None \<Rightarrow> stack
                                    | Some guard \<Rightarrow> lg_then guard # stack)
                       in sink_loop stages (name # visited) stack))))"
  by pat_completeness auto
termination
  by (relation "measures [\<lambda>(stages, v, s). unvisited stages v, \<lambda>(stages, v, s). length s]")
     (auto simp: unvisited_less unvisited_unknown)

declare sink_loop.simps(2) [simp del]

text \<open>\<open>None\<close> is start_stage's panic on a definition without stages.\<close>

definition sink_reachable_from_start :: "workflow_definition \<Rightarrow> bool option" where
  "sink_reachable_from_start d =
     (case start_stage d of None \<Rightarrow> None | Some s \<Rightarrow> Some (sink_loop (wd_stages d) [] [s]))"

section \<open>What the walks decide\<close>

definition on_succs :: "stage_def imap \<Rightarrow> string option \<Rightarrow> string \<Rightarrow> string list" where
  "on_succs stages avoiding name =
     (case map_of stages name of None \<Rightarrow> []
      | Some stage \<Rightarrow> filter (\<lambda>t. Some t \<noteq> avoiding) (on_targets stage))"

text \<open>The successors of a stage that is not a sink: its on targets and its guard's way out.\<close>

definition step_succs :: "stage_def imap \<Rightarrow> string \<Rightarrow> string list" where
  "step_succs stages name =
     (case map_of stages name of None \<Rightarrow> []
      | Some stage \<Rightarrow> if sd_on stage = [] then []
                      else on_targets stage @ (case sd_guard stage of None \<Rightarrow> [] | Some g \<Rightarrow> [lg_then g]))"

definition is_sink :: "stage_def imap \<Rightarrow> string \<Rightarrow> bool" where
  "is_sink stages name = (case map_of stages name of None \<Rightarrow> False | Some stage \<Rightarrow> sd_on stage = [])"

definition on_edges :: "stage_def imap \<Rightarrow> string option \<Rightarrow> (string \<times> string) set" where
  "on_edges stages avoiding = {(a, b). b \<in> set (on_succs stages avoiding a)}"

definition step_edges :: "stage_def imap \<Rightarrow> (string \<times> string) set" where
  "step_edges stages = {(a, b). b \<in> set (step_succs stages a)}"

interpretation reach: worklist_search
    "reaches_loop stages to avoiding" "ikeys stages" "on_succs stages avoiding" "\<lambda>x. x = to"
  for stages to avoiding
proof unfold_locales
  fix x visited stack
  assume "x \<notin> set visited" "x \<noteq> to"
  then show "\<exists>stack'. set stack' = set (on_succs stages avoiding x) \<union> set stack \<and>
      (x \<notin> set (ikeys stages) \<longrightarrow> stack' = stack) \<and>
      reaches_loop stages to avoiding visited (x # stack) = reaches_loop stages to avoiding (x # visited) stack'"
  proof (cases "map_of stages x")
    case None
    with \<open>x \<notin> set visited\<close> \<open>x \<noteq> to\<close> show ?thesis
      by (intro exI [of _ stack]) (simp add: on_succs_def reaches_loop.simps(2))
  next
    case (Some s)
    with \<open>x \<notin> set visited\<close> \<open>x \<noteq> to\<close> show ?thesis
      by (intro exI [of _ "rev (filter (\<lambda>t. Some t \<noteq> avoiding) (on_targets s)) @ stack"])
         (auto simp: on_succs_def known_key reaches_loop.simps(2))
  qed
qed (auto simp: on_succs_def known_key reaches_loop.simps(2) split: option.splits)

interpretation sink: worklist_search "sink_loop stages" "ikeys stages" "step_succs stages" "is_sink stages"
  for stages
proof unfold_locales
  fix x visited stack
  assume "x \<notin> set visited" "\<not> is_sink stages x"
  then show "\<exists>stack'. set stack' = set (step_succs stages x) \<union> set stack \<and>
      (x \<notin> set (ikeys stages) \<longrightarrow> stack' = stack) \<and>
      sink_loop stages visited (x # stack) = sink_loop stages (x # visited) stack'"
  proof (cases "map_of stages x")
    case None
    with \<open>x \<notin> set visited\<close> show ?thesis by (intro exI [of _ stack]) (simp add: step_succs_def sink_loop.simps(2))
  next
    case (Some s)
    with \<open>x \<notin> set visited\<close> \<open>\<not> is_sink stages x\<close> show ?thesis
      by (intro exI [of _ "case sd_guard s of None \<Rightarrow> rev (on_targets s) @ stack
                         | Some g \<Rightarrow> lg_then g # rev (on_targets s) @ stack"])
         (auto simp: step_succs_def is_sink_def known_key sink_loop.simps(2) split: option.splits)
  qed
next
  fix x visited stack
  show "x \<notin> set visited \<Longrightarrow> is_sink stages x \<Longrightarrow> sink_loop stages visited (x # stack)"
    by (cases "map_of stages x") (simp_all add: is_sink_def sink_loop.simps(2))
  show "x \<notin> set (ikeys stages) \<Longrightarrow> step_succs stages x = []"
    by (cases "map_of stages x") (simp_all add: step_succs_def known_key)
qed (simp_all add: sink_loop.simps(2))

lemma reaches_iff:
  "reaches stages source to avoiding \<longleftrightarrow>
     Some source \<noteq> avoiding \<and> (source, to) \<in> (on_edges stages avoiding)\<^sup>*"
  by (auto simp: reaches_def reach.search_correct reach.edge_def on_edges_def)

lemma sink_loop_iff:
  "sink_loop stages [] [a] \<longleftrightarrow> (\<exists>b. (a, b) \<in> (step_edges stages)\<^sup>* \<and> is_sink stages b)"
  by (simp add: sink.search_correct sink.edge_def step_edges_def)

section \<open>Properties\<close>

text \<open>
  C26. reaches decides reachability along on: edges that avoids a stage: it is true just when the
  source is not the avoided stage and a path of edges none of which enters the avoided stage leads
  to the goal, whatever cycles the graph has (so the walk also ends).
\<close>

theorem reaches_decides_avoiding_paths:
  "reaches stages source to avoiding \<longleftrightarrow>
     Some source \<noteq> avoiding \<and>
     (source, to) \<in> {(a, b). \<exists>stage. map_of stages a = Some stage \<and> b \<in> snd ` set (sd_on stage)
                        \<and> Some b \<noteq> avoiding}\<^sup>*"
proof -
  have "on_edges stages avoiding =
      {(a, b). \<exists>stage. map_of stages a = Some stage \<and> b \<in> snd ` set (sd_on stage) \<and> Some b \<noteq> avoiding}"
    by (force simp: on_edges_def on_succs_def on_targets_def split: option.splits)
  then show ?thesis by (simp add: reaches_iff)
qed

text \<open>
  sink_reachable_from_start decides whether a task started on the definition's first stage can
  come to rest: there is a path, along on: edges and loop guards' ways out, to a stage without
  transitions.
\<close>

theorem sink_decides_rest:
  "sink_reachable_from_start d =
     map_option (\<lambda>a. \<exists>b stage. (a, b) \<in> (step_edges (wd_stages d))\<^sup>* \<and>
        map_of (wd_stages d) b = Some stage \<and> sd_on stage = []) (start_stage d)"
proof (cases "start_stage d")
  case (Some a)
  have "is_sink (wd_stages d) b \<longleftrightarrow> (\<exists>stage. map_of (wd_stages d) b = Some stage \<and> sd_on stage = [])" for b
    by (simp add: is_sink_def split: option.split)
  with Some show ?thesis by (simp add: sink_reachable_from_start_def sink_loop_iff)
qed (simp add: sink_reachable_from_start_def)

end
