(* ===== verification/Validate.thy ===== *)
theory Validate
  imports Resolve Graph
begin

text \<open>
  The second half of loading a workflow (workflow_def.rs: parse, validate and its helpers
  validate_watch, validate_env_names, validate_report_sections, validate_markers,
  validate_templates, templatable_sources, push_command_sources). A check is a value of the
  workflow's error type; the two places where the code would panic (indexing on: by the guard's
  outcome, and the start stage of an empty definition) are the outer \<open>None\<close>.
\<close>

section \<open>Checks on the parts of a stage\<close>

definition valid_env_name :: "string \<Rightarrow> bool" where
  "valid_env_name name =
     (case name of [] \<Rightarrow> False
      | c # cs \<Rightarrow> (is_ascii_alpha c \<or> c = CHR ''_'') \<and>
                  list_all (\<lambda>c. is_ascii_alpha c \<or> is_digit c \<or> c = CHR ''_'') cs)"

definition reserved_env_name :: "string \<Rightarrow> bool" where
  "reserved_env_name name = starts_with ''choco_'' (map ascii_lower name)"

definition validate_env_names :: "string \<Rightarrow> string imap \<Rightarrow> (workflow_def_error, unit) result" where
  "validate_env_names stage_name env =
     for_each (\<lambda>(name, _).
         checks [fail_if (\<not> valid_env_name name) (InvalidEnvName stage_name name),
                 fail_if (reserved_env_name name) (ReservedEnvName stage_name name)]) env"

definition validate_outcome ::
  "externals \<Rightarrow> string \<Rightarrow> stage_def \<Rightarrow> poll_outcome \<Rightarrow> (workflow_def_error, unit) result"
where
  "validate_outcome X stage_name stage outcome =
     checks
       [fail_if (\<not> has_key (sd_on stage) (po_then outcome)) (UnknownPollOutcome stage_name (po_then outcome)),
        (case ex_regex_error X (po_pattern outcome) of
           None \<Rightarrow> Inr ()
         | Some reason \<Rightarrow> Inl (InvalidPollPattern stage_name (po_pattern outcome) reason))]"

definition validate_watch ::
  "externals \<Rightarrow> string \<Rightarrow> stage_def \<Rightarrow> watch \<Rightarrow> (workflow_def_error, unit) result"
where
  "validate_watch X stage_name stage w =
     checks
       [for_each (validate_outcome X stage_name stage) (w_outcomes w),
        fail_if (w_timeout w \<noteq> None \<and> \<not> has_key (sd_on stage) ''timeout'')
          (MissingTimeoutOutcome stage_name),
        validate_env_names stage_name (w_env w)]"

fun sections_loop ::
  "unicode \<Rightarrow> string \<Rightarrow> string list \<Rightarrow> string list \<Rightarrow> (workflow_def_error, unit) result"
where
  "sections_loop U stage_name seen [] = Inr ()"
| "sections_loop U stage_name seen (s # ss) =
     (let key = normalize_report_heading U s in
      if key = [] then Inl (EmptyReportSection stage_name)
      else if key \<in> set seen then Inl (DuplicateReportSection stage_name s)
      else sections_loop U stage_name (seen @ [key]) ss)"

definition validate_report_sections ::
  "unicode \<Rightarrow> string \<Rightarrow> string list \<Rightarrow> (workflow_def_error, unit) result"
where
  "validate_report_sections U stage_name sections = sections_loop U stage_name [] sections"

fun markers_loop ::
  "string \<Rightarrow> stage_def \<Rightarrow> string list \<Rightarrow> reply_marker list \<Rightarrow> (workflow_def_error, unit) result"
where
  "markers_loop stage_name stage seen [] = Inr ()"
| "markers_loop stage_name stage seen (m # ms) =
     (let line = rm_line m in
      if line = [] then Inl (EmptyReplyMarkerLine stage_name)
      else if line \<noteq> trim line then Inl (ReplyMarkerLineHasSurroundingWhitespace stage_name line)
      else if CHR 0x0A \<in> set line \<or> CHR 0x0D \<in> set line then Inl (ReplyMarkerLineHasNewline stage_name line)
      else if line \<in> set seen then Inl (DuplicateReplyMarker stage_name line)
      else if \<not> has_key (sd_on stage) (rm_then m) then
        Inl (UnknownReplyMarkerOutcome stage_name (rm_then m))
      else markers_loop stage_name stage (seen @ [line]) ms)"

definition validate_markers ::
  "string \<Rightarrow> stage_def \<Rightarrow> reply_marker list \<Rightarrow> (workflow_def_error, unit) result"
where
  "validate_markers stage_name stage markers = markers_loop stage_name stage [] markers"

section \<open>Templates\<close>

definition push_command_sources ::
  "(string \<times> string) list \<Rightarrow> string \<Rightarrow> string \<Rightarrow> shell_command \<Rightarrow> string imap \<Rightarrow> (string \<times> string) list"
where
  "push_command_sources sources command_label env_label command env =
     sources
     @ (case command of Inline c \<Rightarrow> [(command_label, c)] | ScriptFile p \<Rightarrow> [])
     @ map (\<lambda>(name, v). (env_label @ '' '' @ squote name, v)) env"

definition templatable_sources ::
  "externals \<Rightarrow> string \<Rightarrow> stage_def \<Rightarrow> (workflow_def_error, (string \<times> string) list) result"
where
  "templatable_sources X stage_name stage =
     (case sd_kind stage of
        Shell command c t env \<Rightarrow> Inr (push_command_sources [] ''command'' ''env'' command env)
      | Poll c w \<Rightarrow> Inr (push_command_sources [] ''command'' ''env'' (w_command w) (w_env w))
      | HumanGate c ms (Some w) \<Rightarrow>
          Inr (push_command_sources [] ''watch.command'' ''watch.env'' (w_command w) (w_env w))
      | AgentTurn r (Some p) c s \<Rightarrow>
          map_err (\<lambda>reason. UnreadableReferencedFile (''stage '' @ squote stage_name) ''prompt_file'' p reason)
            (and_then (ex_read_file X p) (\<lambda>text. Inr [(''prompt_file'', text)]))
      | _ \<Rightarrow> Inr [])"

text \<open>One reference that names a stage: the stage it finds, or branch when it reads a capture.\<close>

definition reference_target ::
  "workflow_definition \<Rightarrow> string \<Rightarrow> bool \<Rightarrow> stage_def option"
where
  "reference_target d referenced needs_capture =
     (case stage_of d referenced of
        Some t \<Rightarrow> Some t
      | None \<Rightarrow> if needs_capture then map_option bf_def (branch_of d referenced) else None)"

definition check_stage_reference ::
  "workflow_definition \<Rightarrow> string \<Rightarrow> string option \<Rightarrow> string \<Rightarrow> string \<Rightarrow> string \<Rightarrow> bool \<Rightarrow>
   (workflow_def_error, unit) result"
where
  "check_stage_reference d stage_name owning_group field ph referenced needs_capture =
     (case reference_target d referenced needs_capture of
        None \<Rightarrow> Inl (UnknownTemplateStage stage_name field ph referenced)
      | Some target \<Rightarrow>
          if \<not> needs_capture then Inr ()
          else checks
            [(case owning_group of
                None \<Rightarrow> Inr ()
              | Some grp \<Rightarrow>
                  fail_if (referenced \<noteq> stage_name \<and>
                           (case branch_of d referenced of None \<Rightarrow> False | Some b \<Rightarrow> bf_group b = grp))
                    (BranchReferencesSibling grp stage_name referenced field ph)),
             fail_if (\<not> declares_capture (sd_kind target))
               (TemplateStageCapturesNothing stage_name field ph referenced)])"

definition check_reference ::
  "workflow_definition \<Rightarrow> string \<Rightarrow> string option \<Rightarrow> string \<Rightarrow> template_ref \<Rightarrow> (workflow_def_error, unit) result"
where
  "check_reference d stage_name owning_group field r =
     (case root_of r of
        TaskRoot \<Rightarrow> Inr ()
      | ArrivalRoot \<Rightarrow> Inr ()
      | StageRoot s \<Rightarrow> check_stage_reference d stage_name owning_group field (placeholder r) s True
      | LeftAtRoot s \<Rightarrow> check_stage_reference d stage_name owning_group field (placeholder r) s False)"

definition check_source ::
  "workflow_definition \<Rightarrow> string \<Rightarrow> string option \<Rightarrow> string \<times> string \<Rightarrow> (workflow_def_error, unit) result"
where
  "check_source d stage_name owning_group = (\<lambda>(field, source).
     and_then (map_err (\<lambda>e. InvalidTemplate stage_name field (show_template_error e)) (references source))
       (for_each (check_reference d stage_name owning_group field)))"

definition validate_templates ::
  "externals \<Rightarrow> workflow_definition \<Rightarrow> string \<Rightarrow> stage_def \<Rightarrow> string option \<Rightarrow> (workflow_def_error, unit) result"
where
  "validate_templates X d stage_name stage owning_group =
     and_then (templatable_sources X stage_name stage) (for_each (check_source d stage_name owning_group))"

section \<open>validate\<close>

text \<open>Duplicate names: the branches of one group, then of every group, against all names so far.\<close>

fun branch_names_loop ::
  "string \<Rightarrow> string list \<Rightarrow> string list \<Rightarrow> (workflow_def_error, string list) result"
where
  "branch_names_loop grp seen [] = Inr seen"
| "branch_names_loop grp seen (name # names) =
     (if name \<in> set seen then Inl (DuplicateStageName name grp)
      else branch_names_loop grp (name # seen) names)"

fun names_loop :: "string list \<Rightarrow> stage_def imap \<Rightarrow> (workflow_def_error, unit) result" where
  "names_loop seen [] = Inr ()"
| "names_loop seen ((grp, stage) # rest) =
     (case group_branches (sd_kind stage) of
        None \<Rightarrow> names_loop seen rest
      | Some bs \<Rightarrow> and_then (branch_names_loop grp seen (ikeys bs)) (\<lambda>seen. names_loop seen rest))"

definition check_group :: "string \<Rightarrow> stage_def \<Rightarrow> (workflow_def_error, unit) result" where
  "check_group stage_name stage =
     (case group_branches (sd_kind stage) of
        None \<Rightarrow> Inr ()
      | Some bs \<Rightarrow>
          checks
            [fail_if (length bs < 2) (GroupTooFewBranches stage_name (length bs)),
             fail_if (length (sd_on stage) \<noteq> 1 \<or> \<not> has_key (sd_on stage) ''done'') (GroupOnNotDone stage_name),
             fail_if (sd_guard stage \<noteq> None) (GroupHasLoopGuard stage_name)])"

definition check_target :: "workflow_definition \<Rightarrow> string \<Rightarrow> string \<Rightarrow> (workflow_def_error, unit) result" where
  "check_target d stage_name target =
     (case branch_of d target of
        Some b \<Rightarrow> Inl (OnTargetIsBranch stage_name target (bf_group b))
      | None \<Rightarrow> fail_if (\<not> has_key (wd_stages d) target) (UnknownStageTarget stage_name target))"

definition check_guard :: "workflow_definition \<Rightarrow> string \<Rightarrow> stage_def \<Rightarrow> (workflow_def_error, unit) result" where
  "check_guard d stage_name stage =
     (case sd_guard stage of
        None \<Rightarrow> Inr ()
      | Some guard \<Rightarrow>
          checks
            [fail_if (\<not> has_key (sd_on stage) (lg_on guard)) (UnknownLoopGuardOutcome stage_name (lg_on guard)),
             (case branch_of d (lg_then guard) of
                Some b \<Rightarrow> Inl (LoopGuardThenIsBranch stage_name (lg_then guard) (bf_group b))
              | None \<Rightarrow> fail_if (\<not> has_key (wd_stages d) (lg_then guard))
                          (UnknownLoopGuardTarget stage_name (lg_then guard)))])"

text \<open>The checks that look at the stage's kind, in the code's order.\<close>

definition check_role_known :: "workflow_definition \<Rightarrow> string \<Rightarrow> stage_kind \<Rightarrow> (workflow_def_error, unit) result" where
  "check_role_known d stage_name kind =
     (case kind of
        AgentTurn role p c s \<Rightarrow> fail_if (\<not> has_key (wd_roles d) role) (UnknownRole stage_name role)
      | _ \<Rightarrow> Inr ())"

definition check_shell_done :: "string \<Rightarrow> stage_def \<Rightarrow> (workflow_def_error, unit) result" where
  "check_shell_done stage_name stage =
     (case sd_kind stage of
        Shell command c t env \<Rightarrow>
          fail_if (\<not> has_key (sd_on stage) ''done'') (MissingShellDoneOutcome stage_name)
      | _ \<Rightarrow> Inr ())"

definition check_turn ::
  "externals \<Rightarrow> string \<Rightarrow> stage_def \<Rightarrow> (workflow_def_error, unit) result"
where
  "check_turn X stage_name stage =
     (case sd_kind stage of
        AgentTurn role p c sections \<Rightarrow>
          checks
            [fail_if (c \<noteq> None \<and> sd_on stage = []) (CaptureOnOpenEndedTurn stage_name),
             fail_if (sections \<noteq> [] \<and> sd_on stage = []) (ReportSectionsOnOpenEndedTurn stage_name),
             validate_report_sections (ex_unicode X) stage_name sections]
      | _ \<Rightarrow> Inr ())"

definition check_gate :: "string \<Rightarrow> stage_def \<Rightarrow> (workflow_def_error, unit) result" where
  "check_gate stage_name stage =
     (case sd_kind stage of
        HumanGate c markers w \<Rightarrow>
          checks [fail_if (c = Some CaptureJson) (HumanGateCaptureMustBeText stage_name),
                  validate_markers stage_name stage markers]
      | _ \<Rightarrow> Inr ())"

definition check_shell_env :: "string \<Rightarrow> stage_def \<Rightarrow> (workflow_def_error, unit) result" where
  "check_shell_env stage_name stage =
     (case sd_kind stage of Shell command c t env \<Rightarrow> validate_env_names stage_name env | _ \<Rightarrow> Inr ())"

text \<open>The body of the loop over the top-level stages.\<close>

definition validate_stage ::
  "externals \<Rightarrow> workflow_definition \<Rightarrow> string \<times> stage_def \<Rightarrow> (workflow_def_error, unit) result"
where
  "validate_stage X d = (\<lambda>(stage_name, stage).
     checks
       [check_group stage_name stage,
        check_role_known d stage_name (sd_kind stage),
        fail_if (is_terminal (sd_kind stage) \<and> sd_on stage \<noteq> []) (TerminalStageHasTransitions stage_name),
        for_each (check_target d stage_name) (on_targets stage),
        check_guard d stage_name stage,
        check_shell_done stage_name stage,
        (case stage_watch stage of None \<Rightarrow> Inr () | Some w \<Rightarrow> validate_watch X stage_name stage w),
        check_turn X stage_name stage,
        check_gate stage_name stage,
        check_shell_env stage_name stage,
        validate_templates X d stage_name stage None])"

text \<open>The body of the loop over one group's branches.\<close>

definition validate_branch ::
  "externals \<Rightarrow> workflow_definition \<Rightarrow> string \<Rightarrow> string \<times> branch \<Rightarrow> (workflow_def_error, unit) result"
where
  "validate_branch X d grp = (\<lambda>(branch_name, br).
     checks
       [(case sd_kind (br_def br) of
           AgentTurn role p c sections \<Rightarrow>
             (case map_of (wd_roles d) role of
                None \<Rightarrow> Inl (UnknownRole branch_name role)
              | Some role_def \<Rightarrow>
                  checks [fail_if (\<not> rd_read_only role_def) (BranchRoleNotReadOnly grp branch_name role),
                          validate_report_sections (ex_unicode X) branch_name sections])
         | _ \<Rightarrow> Inr ()),
        validate_templates X d branch_name (br_def br) (Some grp)])"

definition validate_group_branches ::
  "externals \<Rightarrow> workflow_definition \<Rightarrow> string \<times> stage_def \<Rightarrow> (workflow_def_error, unit) result"
where
  "validate_group_branches X d = (\<lambda>(grp, stage).
     (case group_branches (sd_kind stage) of
        None \<Rightarrow> Inr () | Some bs \<Rightarrow> for_each (validate_branch X d grp) bs))"

text \<open>A guard whose way out lies on every lap; \<open>None\<close> is the panic of \<open>stage.on[&guard.on]\<close>.\<close>

definition check_lap ::
  "workflow_definition \<Rightarrow> string \<Rightarrow> stage_def \<Rightarrow> (workflow_def_error, unit) result option"
where
  "check_lap d stage_name stage =
     (case sd_guard stage of
        None \<Rightarrow> Some (Inr ())
      | Some guard \<Rightarrow>
          (case map_of (sd_on stage) (lg_on guard) of
             None \<Rightarrow> None
           | Some target \<Rightarrow>
               Some (fail_if (reaches (wd_stages d) target stage_name None \<and>
                              \<not> reaches (wd_stages d) target stage_name (Some (lg_then guard)))
                       (LoopGuardEscapeOnEveryLap stage_name (lg_then guard) target))))"

fun laps_loop :: "workflow_definition \<Rightarrow> stage_def imap \<Rightarrow> (workflow_def_error, unit) result option" where
  "laps_loop d [] = Some (Inr ())"
| "laps_loop d ((stage_name, stage) # rest) =
     (case check_lap d stage_name stage of
        None \<Rightarrow> None
      | Some (Inl e) \<Rightarrow> Some (Inl e)
      | Some (Inr _) \<Rightarrow> laps_loop d rest)"

definition validate ::
  "externals \<Rightarrow> workflow_definition \<Rightarrow> (workflow_def_error, unit) result option"
where
  "validate X d =
     (case checks [names_loop (rev (ikeys (wd_stages d))) (wd_stages d),
                   for_each (validate_stage X d) (wd_stages d),
                   for_each (validate_group_branches X d) (wd_stages d)] of
        Inl e \<Rightarrow> Some (Inl e)
      | Inr _ \<Rightarrow>
          (case laps_loop d (wd_stages d) of
             None \<Rightarrow> None
           | Some (Inl e) \<Rightarrow> Some (Inl e)
           | Some (Inr _) \<Rightarrow>
               (case sink_reachable_from_start d of
                  None \<Rightarrow> None
                | Some True \<Rightarrow> Some (Inr ())
                | Some False \<Rightarrow> Some (Inl NoReachableSink))))"

section \<open>parse\<close>

definition resolve_definition ::
  "externals \<Rightarrow> string \<Rightarrow> raw_definition \<Rightarrow> (workflow_def_error, workflow_definition) result"
where
  "resolve_definition X base_dir raw =
     and_then (map_res (\<lambda>(name, r). and_then (resolve_role X base_dir (rw_worktree raw) name r)
                         (\<lambda>role. Inr (name, role))) (rw_roles raw)) (\<lambda>roles.
     if rw_stages raw = [] then Inl NoStages
     else
     and_then (map_res (\<lambda>(name, r). and_then (resolve_stage X base_dir name r)
                         (\<lambda>stage. Inr (name, stage))) (rw_stages raw)) (\<lambda>stages.
       Inr \<lparr>wd_name = rw_name raw, wd_roles = roles, wd_stages = stages, wd_worktree = rw_worktree raw\<rparr>))"

definition parse_workflow ::
  "externals \<Rightarrow> string \<Rightarrow> string \<Rightarrow> (workflow_def_error, workflow_definition) result option"
where
  "parse_workflow X source base_dir =
     (case and_then (map_err Yaml (ex_yaml_definition X source)) (\<lambda>raw.
           and_then (and_then (map_err Yaml (ex_yaml_value X source)) reject_unknown_stage_keys) (\<lambda>_.
             resolve_definition X base_dir raw)) of
        Inl e \<Rightarrow> Some (Inl e)
      | Inr d \<Rightarrow>
          (case validate X d of
             None \<Rightarrow> None
           | Some (Inl e) \<Rightarrow> Some (Inl e)
           | Some (Inr _) \<Rightarrow> Some (Inr d)))"

section \<open>The contract of validate\<close>

definition env_ok :: "string imap \<Rightarrow> bool" where
  "env_ok env = list_all (\<lambda>n. valid_env_name n \<and> \<not> reserved_env_name n) (ikeys env)"

definition watch_ok :: "externals \<Rightarrow> stage_def \<Rightarrow> watch \<Rightarrow> bool" where
  "watch_ok X stage w =
     (list_all (\<lambda>o'. has_key (sd_on stage) (po_then o') \<and> ex_regex_error X (po_pattern o') = None) (w_outcomes w) \<and>
      (w_timeout w \<noteq> None \<longrightarrow> has_key (sd_on stage) ''timeout'') \<and> env_ok (w_env w))"

definition sections_ok :: "unicode \<Rightarrow> string list \<Rightarrow> bool" where
  "sections_ok U sections =
     (let keys = map (normalize_report_heading U) sections in [] \<notin> set keys \<and> distinct keys)"

definition marker_ok :: "stage_def \<Rightarrow> reply_marker \<Rightarrow> bool" where
  "marker_ok stage m =
     (let line = rm_line m in
      line \<noteq> [] \<and> trim line = line \<and> CHR 0x0A \<notin> set line \<and> CHR 0x0D \<notin> set line \<and>
      has_key (sd_on stage) (rm_then m))"

definition markers_ok :: "stage_def \<Rightarrow> reply_marker list \<Rightarrow> bool" where
  "markers_ok stage markers = (distinct (map rm_line markers) \<and> list_all (marker_ok stage) markers)"

text \<open>The names of every branch of every group, in order.\<close>

fun kind_branch_names :: "stage_kind \<Rightarrow> string list" where
  "kind_branch_names (Parallel bs) = ikeys bs"
| "kind_branch_names _ = []"

definition all_branch_names :: "stage_def imap \<Rightarrow> string list" where
  "all_branch_names stages = concat (map (\<lambda>(g, s). kind_branch_names (sd_kind s)) stages)"

definition names_unique :: "stage_def imap \<Rightarrow> bool" where
  "names_unique stages =
     (distinct (all_branch_names stages) \<and> set (all_branch_names stages) \<inter> set (ikeys stages) = {})"

text \<open>
  A template reference a stage may make: the task and its arrival always; when a stage was left,
  if it is a stage; a capture, if the stage or branch it names takes one and is not a sibling of the
  branch that refers to it.
\<close>

definition sibling :: "workflow_definition \<Rightarrow> string option \<Rightarrow> string \<Rightarrow> string \<Rightarrow> bool" where
  "sibling d grp self name =
     (name \<noteq> self \<and> grp \<noteq> None \<and> map_option bf_group (branch_of d name) = grp)"

definition reference_ok :: "workflow_definition \<Rightarrow> string option \<Rightarrow> string \<Rightarrow> template_ref \<Rightarrow> bool" where
  "reference_ok d grp self r =
     (case root_of r of
        TaskRoot \<Rightarrow> True
      | ArrivalRoot \<Rightarrow> True
      | LeftAtRoot s \<Rightarrow> has_key (wd_stages d) s
      | StageRoot s \<Rightarrow>
          \<not> sibling d grp self s \<and>
          (case (stage_of d s, branch_of d s) of
             (Some t, _) \<Rightarrow> declares_capture (sd_kind t)
           | (None, Some b) \<Rightarrow> declares_capture (sd_kind (bf_def b))
           | (None, None) \<Rightarrow> False))"

definition templates_ok ::
  "externals \<Rightarrow> workflow_definition \<Rightarrow> string option \<Rightarrow> string \<Rightarrow> stage_def \<Rightarrow> bool"
where
  "templates_ok X d grp self stage =
     (case templatable_sources X self stage of
        Inl e \<Rightarrow> False
      | Inr sources \<Rightarrow>
          list_all (\<lambda>(field, source). case references source of
              Inl e \<Rightarrow> False
            | Inr refs \<Rightarrow> list_all (reference_ok d grp self) refs) sources)"

definition kind_ok :: "externals \<Rightarrow> workflow_definition \<Rightarrow> stage_def \<Rightarrow> bool" where
  "kind_ok X d stage =
     (case sd_kind stage of
        AgentTurn role p c sections \<Rightarrow>
          has_key (wd_roles d) role \<and> sections_ok (ex_unicode X) sections \<and>
          (sd_on stage = [] \<longrightarrow> c = None \<and> sections = [])
      | Shell command c t env \<Rightarrow> has_key (sd_on stage) ''done'' \<and> env_ok env
      | Poll c w \<Rightarrow> watch_ok X stage w
      | HumanGate c markers w \<Rightarrow>
          c \<noteq> Some CaptureJson \<and> markers_ok stage markers \<and>
          (case w of None \<Rightarrow> True | Some w \<Rightarrow> watch_ok X stage w)
      | Terminal \<Rightarrow> sd_on stage = []
      | Parallel bs \<Rightarrow> 2 \<le> length bs \<and> ikeys (sd_on stage) = [''done''] \<and> sd_guard stage = None)"

text \<open>Every name a stage can send the task to is a stage, and its guard watches one of its outcomes.\<close>

definition edges_ok :: "workflow_definition \<Rightarrow> stage_def \<Rightarrow> bool" where
  "edges_ok d stage =
     (list_all (has_key (wd_stages d)) (on_targets stage) \<and>
      (case sd_guard stage of None \<Rightarrow> True
       | Some g \<Rightarrow> has_key (sd_on stage) (lg_on g) \<and> has_key (wd_stages d) (lg_then g)))"

definition branch_ok :: "externals \<Rightarrow> workflow_definition \<Rightarrow> string \<Rightarrow> string \<times> branch \<Rightarrow> bool" where
  "branch_ok X d grp = (\<lambda>(name, b).
     (case sd_kind (br_def b) of
        AgentTurn role p c sections \<Rightarrow>
          (case map_of (wd_roles d) role of None \<Rightarrow> False | Some rd \<Rightarrow> rd_read_only rd) \<and>
          sections_ok (ex_unicode X) sections
      | _ \<Rightarrow> True) \<and>
     templates_ok X d (Some grp) name (br_def b))"

definition stage_ok :: "externals \<Rightarrow> workflow_definition \<Rightarrow> string \<times> stage_def \<Rightarrow> bool" where
  "stage_ok X d = (\<lambda>(name, stage).
     kind_ok X d stage \<and> edges_ok d stage \<and> templates_ok X d None name stage \<and>
     (case group_branches (sd_kind stage) of None \<Rightarrow> True | Some bs \<Rightarrow> list_all (branch_ok X d name) bs))"

text \<open>
  The guarded outcome can come around without passing the guard's way out, if it can come around
  at all; otherwise every lap would reset the count.
\<close>

definition guard_can_trip :: "workflow_definition \<Rightarrow> string \<times> stage_def \<Rightarrow> bool" where
  "guard_can_trip d = (\<lambda>(name, stage).
     \<forall>g t. sd_guard stage = Some g \<longrightarrow> map_of (sd_on stage) (lg_on g) = Some t \<longrightarrow>
       (t, name) \<in> (on_edges (wd_stages d) None)\<^sup>* \<longrightarrow>
       t \<noteq> lg_then g \<and> (t, name) \<in> (on_edges (wd_stages d) (Some (lg_then g)))\<^sup>*)"

definition can_rest :: "workflow_definition \<Rightarrow> bool" where
  "can_rest d =
     (\<exists>a b. start_stage d = Some a \<and> (a, b) \<in> (step_edges (wd_stages d))\<^sup>* \<and> is_sink (wd_stages d) b)"

definition definition_ok :: "externals \<Rightarrow> workflow_definition \<Rightarrow> bool" where
  "definition_ok X d =
     (names_unique (wd_stages d) \<and>
      list_all (stage_ok X d) (wd_stages d) \<and>
      (\<forall>s\<in>set (wd_stages d). guard_can_trip d s) \<and>
      can_rest d)"

section \<open>Lemmas\<close>

lemma env_names_iff: "validate_env_names n env = Inr u \<longleftrightarrow> env_ok env"
  by (auto simp: validate_env_names_def env_ok_def result_simps list_all_iff ikeys_def)

lemma watch_iff: "validate_watch X n stage w = Inr u \<longleftrightarrow> watch_ok X stage w"
proof -
  have "validate_outcome X n stage o' = Inr () \<longleftrightarrow>
      has_key (sd_on stage) (po_then o') \<and> ex_regex_error X (po_pattern o') = None" for o'
    by (auto simp: validate_outcome_def result_simps split: option.splits)
  then show ?thesis
    by (auto simp: validate_watch_def watch_ok_def result_simps env_names_iff list_all_iff)
qed

lemma sections_loop_iff:
  "sections_loop U n seen ss = Inr u \<longleftrightarrow>
     (let keys = map (normalize_report_heading U) ss in
      [] \<notin> set keys \<and> distinct keys \<and> set keys \<inter> set seen = {})"
  by (induction U n seen ss rule: sections_loop.induct) (auto simp: Let_def)

lemma sections_iff: "validate_report_sections U n ss = Inr u \<longleftrightarrow> sections_ok U ss"
  by (simp add: validate_report_sections_def sections_loop_iff sections_ok_def Let_def)

lemma markers_loop_iff:
  "markers_loop n stage seen ms = Inr u \<longleftrightarrow>
     distinct (map rm_line ms) \<and> set (map rm_line ms) \<inter> set seen = {} \<and> list_all (marker_ok stage) ms"
  by (induction n stage seen ms rule: markers_loop.induct) (auto simp: Let_def marker_ok_def)

lemma markers_iff: "validate_markers n stage ms = Inr u \<longleftrightarrow> markers_ok stage ms"
  by (auto simp: validate_markers_def markers_loop_iff markers_ok_def)

lemma check_stage_reference_iff:
  "check_stage_reference d self grp field ph s True = Inr u \<longleftrightarrow>
     \<not> sibling d grp self s \<and>
     (case (stage_of d s, branch_of d s) of
        (Some t, _) \<Rightarrow> declares_capture (sd_kind t)
      | (None, Some b) \<Rightarrow> declares_capture (sd_kind (bf_def b))
      | (None, None) \<Rightarrow> False)"
  by (cases "stage_of d s"; cases "branch_of d s"; cases grp)
     (auto simp: check_stage_reference_def reference_target_def sibling_def result_simps)

lemma check_left_at_iff:
  "check_stage_reference d self grp field ph s False = Inr u \<longleftrightarrow> has_key (wd_stages d) s"
  by (auto simp: check_stage_reference_def reference_target_def stage_of_def has_key_map_of split: option.splits)

lemma check_reference_iff: "check_reference d self grp field r = Inr u \<longleftrightarrow> reference_ok d grp self r"
  by (cases "root_of r")
     (simp_all add: check_reference_def reference_ok_def check_stage_reference_iff check_left_at_iff)

lemma templates_iff: "validate_templates X d self stage grp = Inr u \<longleftrightarrow> templates_ok X d grp self stage"
proof -
  have "check_source d self grp (f, s) = Inr () \<longleftrightarrow>
      (case references s of Inl e \<Rightarrow> False | Inr refs \<Rightarrow> list_all (reference_ok d grp self) refs)" for f s
    by (cases "references s") (auto simp: check_source_def result_simps check_reference_iff list_all_iff)
  then show ?thesis
    by (cases "templatable_sources X self stage")
       (auto simp: validate_templates_def templates_ok_def result_simps list_all_iff)
qed

lemma branch_names_loop_ok:
  "branch_names_loop g seen ns = Inr seen' \<longleftrightarrow>
     distinct ns \<and> set ns \<inter> set seen = {} \<and> seen' = rev ns @ seen"
  by (induction g seen ns rule: branch_names_loop.induct) auto

lemma all_branch_names_Cons:
  "all_branch_names ((g, s) # rest) = kind_branch_names (sd_kind s) @ all_branch_names rest"
  by (simp add: all_branch_names_def)

lemma names_loop_iff:
  "names_loop seen stages = Inr u \<longleftrightarrow>
     distinct (all_branch_names stages) \<and> set (all_branch_names stages) \<inter> set seen = {}"
proof (induction seen stages rule: names_loop.induct)
  case (2 seen g stage rest)
  then show ?case
    by (cases "sd_kind stage")
       (auto simp: all_branch_names_Cons result_simps branch_names_loop_ok)
qed (simp add: all_branch_names_def)

lemma branch_name_not_stage:
  assumes "names_unique (wd_stages d)" and "has_key (wd_stages d) t"
  shows "branch_of d t = None"
proof (rule ccontr)
  assume "branch_of d t \<noteq> None"
  then obtain b where "find_branch (wd_stages d) t = Some b" by (auto simp: branch_of_def)
  then obtain stage bs br where "(bf_group b, stage) \<in> set (wd_stages d)" "sd_kind stage = Parallel bs"
    "map_of bs t = Some br" using find_branch_Some by blast
  then have "t \<in> set (all_branch_names (wd_stages d))"
    by (force simp: all_branch_names_def ikeys_def dest: map_of_SomeD)
  with assms show False by (auto simp: names_unique_def has_key_def)
qed

lemma edges_iff:
  assumes "names_unique (wd_stages d)"
  shows "for_each (check_target d n) (on_targets stage) = Inr () \<and> check_guard d n stage = Inr () \<longleftrightarrow>
     edges_ok d stage"
proof -
  have t: "check_target d n t = Inr () \<longleftrightarrow> has_key (wd_stages d) t" for t
  proof (cases "branch_of d t")
    case None
    then show ?thesis by (simp add: check_target_def result_simps)
  next
    case (Some b)
    then show ?thesis using branch_name_not_stage [OF assms, of t] by (auto simp: check_target_def)
  qed
  have "check_guard d n stage = Inr () \<longleftrightarrow>
      (case sd_guard stage of None \<Rightarrow> True
       | Some g \<Rightarrow> has_key (sd_on stage) (lg_on g) \<and> has_key (wd_stages d) (lg_then g))"
    using branch_name_not_stage [OF assms]
    by (auto simp: check_guard_def result_simps split: option.splits)
  with t show ?thesis by (auto simp: edges_ok_def result_simps list_all_iff)
qed

lemma single_done: "length m = Suc 0 \<and> has_key m k \<longleftrightarrow> ikeys m = [k]"
  by (cases m) (auto simp: has_key_def ikeys_def)

lemma kind_checks_iff:
  "check_group n stage = Inr () \<and> check_role_known d n (sd_kind stage) = Inr () \<and>
   \<not> (is_terminal (sd_kind stage) \<and> sd_on stage \<noteq> []) \<and> check_shell_done n stage = Inr () \<and>
   (case stage_watch stage of None \<Rightarrow> Inr () | Some w \<Rightarrow> validate_watch X n stage w) = Inr () \<and>
   check_turn X n stage = Inr () \<and> check_gate n stage = Inr () \<and> check_shell_env n stage = Inr () \<longleftrightarrow>
   kind_ok X d stage"
  by (cases "sd_kind stage")
     (auto simp: check_group_def check_role_known_def check_shell_done_def check_turn_def check_gate_def
       check_shell_env_def kind_ok_def stage_watch_def result_simps watch_iff sections_iff markers_iff
       env_names_iff single_done [symmetric] split: option.splits)

lemma validate_branch_iff: "validate_branch X d g nb = Inr u \<longleftrightarrow> branch_ok X d g nb"
proof -
  obtain n b where nb: "nb = (n, b)" by (cases nb)
  show ?thesis
    by (cases "sd_kind (br_def b)")
       (auto simp: nb validate_branch_def branch_ok_def result_simps templates_iff sections_iff split: option.splits)
qed

lemma validate_stage_iff:
  assumes "names_unique (wd_stages d)"
  shows "validate_stage X d s = Inr () \<and> validate_group_branches X d s = Inr () \<longleftrightarrow> stage_ok X d s"
proof -
  obtain n stage where s: "s = (n, stage)" by (cases s)
  have "validate_group_branches X d s = Inr () \<longleftrightarrow>
      (case group_branches (sd_kind stage) of None \<Rightarrow> True | Some bs \<Rightarrow> list_all (branch_ok X d n) bs)"
    by (auto simp: s validate_group_branches_def result_simps validate_branch_iff list_all_iff split: option.splits)
  moreover have "validate_stage X d s = Inr () \<longleftrightarrow>
      kind_ok X d stage \<and> edges_ok d stage \<and> templates_ok X d None n stage"
    unfolding kind_checks_iff [of n stage d X, symmetric] edges_iff [OF assms, of n stage, symmetric]
    by (auto simp: s validate_stage_def result_simps templates_iff)
  ultimately show ?thesis by (auto simp: s stage_ok_def)
qed

lemma check_lap_iff:
  assumes "edges_ok d stage"
  shows "\<exists>r. check_lap d n stage = Some r \<and> (r = Inr () \<longleftrightarrow> guard_can_trip d (n, stage))"
  using assms
  by (auto simp: check_lap_def edges_ok_def guard_can_trip_def has_key_map_of reaches_iff result_simps
      split: option.splits)

lemma laps_loop_iff:
  assumes "\<And>n s. (n, s) \<in> set stages \<Longrightarrow> edges_ok d s"
  shows "\<exists>r. laps_loop d stages = Some r \<and> (r = Inr () \<longleftrightarrow> (\<forall>s\<in>set stages. guard_can_trip d s))"
  using assms
proof (induction stages)
  case (Cons s stages)
  obtain n st where s: "s = (n, st)" by (cases s)
  obtain r where "check_lap d n st = Some r" "r = Inr () \<longleftrightarrow> guard_can_trip d s"
    using check_lap_iff [of d st n] Cons.prems [of n st] s by auto
  with Cons s show ?case by (cases r) auto
qed simp

lemma sink_can_rest: "sink_reachable_from_start d = Some True \<longleftrightarrow> can_rest d"
  by (auto simp: sink_reachable_from_start_def can_rest_def sink_loop_iff split: option.splits)

lemma local_checks_iff:
  "checks [names_loop (rev (ikeys (wd_stages d))) (wd_stages d),
           for_each (validate_stage X d) (wd_stages d),
           for_each (validate_group_branches X d) (wd_stages d)] = Inr u \<longleftrightarrow>
   names_unique (wd_stages d) \<and> list_all (stage_ok X d) (wd_stages d)"
proof -
  have "names_loop (rev (ikeys (wd_stages d))) (wd_stages d) = Inr () \<longleftrightarrow> names_unique (wd_stages d)"
    by (auto simp: names_loop_iff names_unique_def)
  moreover have "for_each (validate_stage X d) (wd_stages d) = Inr () \<and>
      for_each (validate_group_branches X d) (wd_stages d) = Inr () \<longleftrightarrow>
      list_all (stage_ok X d) (wd_stages d)" if "names_unique (wd_stages d)"
    unfolding for_each_ok list_all_iff using validate_stage_iff [OF that, of X] by blast
  ultimately show ?thesis by (auto simp: checks_ok)
qed

lemma stage_ok_edges: "list_all (stage_ok X d) (wd_stages d) \<Longrightarrow> (n, s) \<in> set (wd_stages d) \<Longrightarrow> edges_ok d s"
  by (auto simp: list_all_iff stage_ok_def)

lemma validate_decides:
  "validate X d = Some (Inr ()) \<longleftrightarrow> definition_ok X d"
proof (cases "names_unique (wd_stages d) \<and> list_all (stage_ok X d) (wd_stages d)")
  case True
  obtain r where r: "laps_loop d (wd_stages d) = Some r"
    "r = Inr () \<longleftrightarrow> (\<forall>s\<in>set (wd_stages d). guard_can_trip d s)"
    using laps_loop_iff [of "wd_stages d" d] stage_ok_edges True by blast
  have c: "checks [names_loop (rev (ikeys (wd_stages d))) (wd_stages d),
           for_each (validate_stage X d) (wd_stages d),
           for_each (validate_group_branches X d) (wd_stages d)] = Inr ()"
    using local_checks_iff True by blast
  show ?thesis
    using True r sink_can_rest [of d] unfolding validate_def c definition_ok_def
    by (cases r) (auto split: option.splits bool.splits)
next
  case False
  then obtain e where "checks [names_loop (rev (ikeys (wd_stages d))) (wd_stages d),
           for_each (validate_stage X d) (wd_stages d),
           for_each (validate_group_branches X d) (wd_stages d)] = Inl e"
    using local_checks_iff [of d X] by (metis obj_sumE)
  with False show ?thesis by (auto simp: validate_def definition_ok_def)
qed

text \<open>The definition parse hands to validate.\<close>

definition parsed :: "externals \<Rightarrow> string \<Rightarrow> string \<Rightarrow> (workflow_def_error, workflow_definition) result" where
  "parsed X source base_dir =
     and_then (map_err Yaml (ex_yaml_definition X source)) (\<lambda>raw.
       and_then (and_then (map_err Yaml (ex_yaml_value X source)) reject_unknown_stage_keys) (\<lambda>_.
         resolve_definition X base_dir raw))"

lemma parsed_ok:
  "parsed X source base_dir = Inr d \<Longrightarrow>
     \<exists>raw. ex_yaml_definition X source = Inr raw \<and> resolve_definition X base_dir raw = Inr d"
  by (auto simp: parsed_def result_simps)

lemma parse_workflow_alt:
  "parse_workflow X source base_dir =
     (case parsed X source base_dir of Inl e \<Rightarrow> Some (Inl e)
      | Inr d \<Rightarrow> (case validate X d of None \<Rightarrow> None
                 | Some (Inl e) \<Rightarrow> Some (Inl e) | Some (Inr _) \<Rightarrow> Some (Inr d)))"
  by (simp only: parse_workflow_def parsed_def)

lemma resolve_definition_stages: "resolve_definition X base_dir raw = Inr d \<Longrightarrow> wd_stages d \<noteq> []"
  by (auto simp: resolve_definition_def result_simps map_res_ok split: if_splits)

lemma validate_total:
  assumes "wd_stages d \<noteq> []"
  shows "\<exists>r. validate X d = Some r"
proof (cases "checks [names_loop (rev (ikeys (wd_stages d))) (wd_stages d),
           for_each (validate_stage X d) (wd_stages d),
           for_each (validate_group_branches X d) (wd_stages d)]")
  case (Inl e)
  then show ?thesis by (simp add: validate_def)
next
  case (Inr u)
  then have ok: "list_all (stage_ok X d) (wd_stages d)" using local_checks_iff by blast
  obtain r where "laps_loop d (wd_stages d) = Some r"
    using laps_loop_iff [of "wd_stages d" d] stage_ok_edges [OF ok] by blast
  moreover obtain s where "start_stage d = Some s"
    using assms by (cases "wd_stages d") (auto simp: start_stage_def)
  ultimately show ?thesis
    unfolding validate_def Inr by (cases r) (auto simp: sink_reachable_from_start_def split: bool.splits)
qed

lemma parse_ok:
  assumes "parse_workflow X source base_dir = Some (Inr d)"
  obtains raw where "ex_yaml_definition X source = Inr raw" "resolve_definition X base_dir raw = Inr d"
    "definition_ok X d"
proof -
  from assms have "validate X d = Some (Inr ())" and p: "parsed X source base_dir = Inr d"
    by (auto simp: parse_workflow_alt split: sum.splits option.splits)
  with that show ?thesis using validate_decides parsed_ok [OF p] by blast
qed

lemma resolved_roles:
  assumes "resolve_definition X base_dir raw = Inr d" and "(name, rd) \<in> set (wd_roles d)"
  shows "\<exists>r. resolve_role X base_dir (wd_worktree d) name r = Inr rd"
  using assms
  by (auto simp: resolve_definition_def result_simps map_res_ok list_all2_conv_all_nth in_set_conv_nth
      split: if_splits prod.splits) (metis fst_conv snd_conv surj_pair)

lemma resolved_stages:
  assumes "resolve_definition X base_dir raw = Inr d" and "(name, st) \<in> set (wd_stages d)"
  shows "\<exists>r. resolve_stage X base_dir name r = Inr st"
  using assms
  by (auto simp: resolve_definition_def result_simps map_res_ok list_all2_conv_all_nth in_set_conv_nth
      split: if_splits prod.splits) (metis fst_conv snd_conv surj_pair)

section \<open>Properties\<close>

text \<open>
  C1. validate accepts exactly the definitions that meet the declarative contract: unique names;
  per stage, the rules of its kind, every transition and every guard's way out leading to a stage,
  only sensible template references; per branch, a read-only role; guards that can trip and a
  path from the start to a stage where the task can rest.
\<close>

theorem validate_iff_definition_ok:
  "validate X d = Some (Inr ()) \<longleftrightarrow> definition_ok X d"
  by (rule validate_decides)

text \<open>
  C27. Loading a workflow never panics: the definition resolved from the file has a stage, and the
  guard's outcome is a key of on: by the time the lap check indexes it.
\<close>

theorem parse_never_panics: "parse_workflow X source base_dir \<noteq> None"
proof (cases "parsed X source base_dir")
  case (Inr d)
  then have "wd_stages d \<noteq> []" using parsed_ok resolve_definition_stages by blast
  then obtain r where "validate X d = Some r" using validate_total by blast
  with Inr show ?thesis by (cases r) (simp_all add: parse_workflow_alt)
qed (simp add: parse_workflow_alt)


definition example_raw :: raw_definition where
  "example_raw =
     \<lparr>rw_name = ''review'', rw_roles = [(''r'', example_role)],
      rw_stages =
        [(''review'', example_group),
         (''fix'', RawStage (RawAgentTurn ''r'' None (Some CaptureJson) [])
                   [(''again'', ''review''), (''ok'', ''end'')]
                   (Some \<lparr>lg_on = ''again'', lg_max = 3, lg_then = ''end''\<rparr>) None),
         (''end'', RawStage RawTerminal [] None None)],
      rw_worktree = True\<rparr>"

definition example_loader :: externals where
  "example_loader = example_externals\<lparr>ex_yaml_definition := (\<lambda>s. Inr example_raw),
                                      ex_yaml_value := (\<lambda>s. Inr YNull)\<rparr>"

definition example_raw_ok :: bool where
  "example_raw_ok =
     (case parse_workflow example_loader [] ''defs'' of
        Some (Inr d) \<Rightarrow> branch_of d ''docs'' \<noteq> None
      | _ \<Rightarrow> False)"


end
