(* ===== verification/Capture.thy ===== *)
theory Capture
  imports Workflow
begin

text \<open>
  chocofactoryd/src/engine/stage_capture.rs: what a stage's output becomes (derive_capture and
  derive_agent_reply_capture), which outcome a finished turn advances on (turn_outcome,
  outcome_from_report), the two recoveries from a reply that is not pure JSON
  (unwrap_code_fence, sole_top_level_json_object), and the write of a capture into the payload.
  serde_json's parser is the parameter \<open>P\<close>: the value, or the error as it is displayed.
\<close>

type_synonym json_parser = "string \<Rightarrow> (string, json) result"

definition MAX_CAPTURE_BYTES :: nat where
  "MAX_CAPTURE_BYTES = 1024 * 1024"

definition TURN_DEFAULT_OUTCOME :: string where
  "TURN_DEFAULT_OUTCOME = ''done''"

section \<open>Captures\<close>

definition derive_capture ::
  "json_parser \<Rightarrow> capture option \<Rightarrow> string \<Rightarrow> string \<Rightarrow> json option \<times> string option"
where
  "derive_capture P capture output source =
     (case capture of
        None \<Rightarrow> (None, None)
      | Some c \<Rightarrow>
          (let trimmed = trim output in
           if length trimmed > MAX_CAPTURE_BYTES then
             (None, Some (''output not captured: '' @ show_nat (length trimmed) @ '' bytes exceeds the ''
                          @ show_nat MAX_CAPTURE_BYTES @ ''-byte limit''))
           else
             (case c of
                CaptureText \<Rightarrow> (Some (JStr trimmed), None)
              | CaptureJson \<Rightarrow>
                  (case P trimmed of
                     Inr v \<Rightarrow> (Some v, None)
                   | Inl err \<Rightarrow>
                       (Some (JStr trimmed),
                        Some (source @ '' was not valid JSON ('' @ err @ ''); captured as text''))))))"

text \<open>
  The scan for the sole top-level object. The state is the function's local variables: the brace
  depth, whether the position is in a string and after a backslash, where the open object starts,
  the last valid span and whether there was more than one.
\<close>

record scan =
  sc_depth :: nat
  sc_in_string :: bool
  sc_escaped :: bool
  sc_start :: "nat option"
  sc_valid :: "(nat \<times> nat) option"
  sc_ambiguous :: bool

definition scan0 :: scan where
  "scan0 = \<lparr>sc_depth = 0, sc_in_string = False, sc_escaped = False, sc_start = None,
            sc_valid = None, sc_ambiguous = False\<rparr>"

definition slice :: "string \<Rightarrow> nat \<Rightarrow> nat \<Rightarrow> string" where
  "slice t s e = take (e - s) (drop s t)"

definition scan_byte :: "json_parser \<Rightarrow> string \<Rightarrow> nat \<Rightarrow> char \<Rightarrow> scan \<Rightarrow> scan" where
  "scan_byte P txt i b st =
     (if sc_in_string st then
        (if sc_escaped st then st\<lparr>sc_escaped := False\<rparr>
         else if b = CHR 0x5C then st\<lparr>sc_escaped := True\<rparr>
         else if b = CHR 0x22 then st\<lparr>sc_in_string := False\<rparr>
         else st)
      else if b = CHR 0x22 then st\<lparr>sc_in_string := True\<rparr>
      else if b = CHR ''{'' then
        (let st = (if sc_depth st = 0 then st\<lparr>sc_start := Some i\<rparr> else st)
         in st\<lparr>sc_depth := sc_depth st + 1\<rparr>)
      else if b = CHR ''}'' \<and> sc_depth st > 0 then
        (let st = st\<lparr>sc_depth := sc_depth st - 1\<rparr> in
         case sc_start st of
           Some s \<Rightarrow>
             (if sc_depth st = 0 \<and> is_ok (P (slice txt s (i + 1))) then
                (let st = (if sc_valid st \<noteq> None then st\<lparr>sc_ambiguous := True\<rparr> else st)
                 in st\<lparr>sc_valid := Some (s, i + 1)\<rparr>)
              else st)
         | None \<Rightarrow> st)
      else st)"

fun scan_bytes :: "json_parser \<Rightarrow> string \<Rightarrow> nat \<Rightarrow> string \<Rightarrow> scan \<Rightarrow> scan" where
  "scan_bytes P txt i [] st = st"
| "scan_bytes P txt i (b # bs) st = scan_bytes P txt (i + 1) bs (scan_byte P txt i b st)"

definition sole_top_level_json_object :: "json_parser \<Rightarrow> string \<Rightarrow> string option" where
  "sole_top_level_json_object P txt =
     (let st = scan_bytes P txt 0 txt scan0 in
      if sc_ambiguous st then None
      else (case sc_valid st of None \<Rightarrow> None | Some (s, e) \<Rightarrow> Some (slice txt s e)))"

definition derive_agent_reply_capture ::
  "json_parser \<Rightarrow> capture \<Rightarrow> string \<Rightarrow> json option \<times> string option"
where
  "derive_agent_reply_capture P c reply =
     (if c \<noteq> CaptureJson then derive_capture P (Some c) reply ''the reply''
      else
        (let trimmed = trim reply in
         if length trimmed > MAX_CAPTURE_BYTES then derive_capture P (Some c) reply ''the reply''
         else
           (case P trimmed of
              Inr v \<Rightarrow> (Some v, None)
            | Inl whole_err \<Rightarrow>
                (case map_option P (sole_top_level_json_object P trimmed) of
                   Some (Inr v) \<Rightarrow>
                     (Some v, Some (''the reply was not valid JSON on its own ('' @ whole_err
                                    @ ''); recovered the sole '' @ squote ''{...}'' @ '' object in it''))
                 | _ \<Rightarrow>
                     (Some (JStr trimmed),
                      Some (''the reply was not valid JSON ('' @ whole_err @ ''); captured as text''))))))"

section \<open>Outcomes\<close>

fun json_type_of :: "json \<Rightarrow> string" where
  "json_type_of JNull = ''null''"
| "json_type_of (JBool b) = ''a boolean''"
| "json_type_of (JNum n) = ''a number''"
| "json_type_of (JStr s) = ''a string''"
| "json_type_of (JArr xs) = ''an array''"
| "json_type_of (JObj m) = ''an object''"

text \<open>The part turn_outcome and outcome_from_report spell the same way, \<open>what\<close> being its subject.\<close>

definition advancing_with :: "string \<Rightarrow> string" where
  "advancing_with s = s @ ''; advancing with '' @ squote TURN_DEFAULT_OUTCOME"

definition turn_outcome :: "capture \<Rightarrow> json option \<Rightarrow> string \<times> string option" where
  "turn_outcome c captured =
     (if c \<noteq> CaptureJson then (TURN_DEFAULT_OUTCOME, None)
      else
        (case Option.bind captured (jget ''outcome'') of
           Some (JStr outcome) \<Rightarrow>
             (if trim outcome \<noteq> [] then (trim outcome, None)
              else (TURN_DEFAULT_OUTCOME,
                    Some (advancing_with (''the reply'' @ [CHR 0x27] @ ''s '' @ squote ''outcome'' @ '' was empty''))))
         | Some other \<Rightarrow>
             (TURN_DEFAULT_OUTCOME,
              Some (advancing_with (''the reply'' @ [CHR 0x27] @ ''s '' @ squote ''outcome'' @ '' was ''
                                    @ json_type_of other @ '', not a string'')))
         | None \<Rightarrow>
             (TURN_DEFAULT_OUTCOME,
              Some (advancing_with (''the reply carried no '' @ squote ''outcome'' @ '' key'')))))"

definition outcome_from_report :: "json \<Rightarrow> string \<times> string option" where
  "outcome_from_report report =
     (case jget ''outcome'' report of
        Some (JStr outcome) \<Rightarrow>
          (if trim outcome \<noteq> [] then (trim outcome, None)
           else (TURN_DEFAULT_OUTCOME,
                 Some (advancing_with (''the report'' @ [CHR 0x27] @ ''s '' @ squote ''outcome'' @ '' was empty''))))
      | Some other \<Rightarrow>
          (TURN_DEFAULT_OUTCOME,
           Some (advancing_with (''the report'' @ [CHR 0x27] @ ''s '' @ squote ''outcome'' @ '' was ''
                                 @ json_type_of other @ '', not a string'')))
      | None \<Rightarrow>
          (TURN_DEFAULT_OUTCOME,
           Some (advancing_with (''the report carried no '' @ squote ''outcome'' @ '' key''))))"

definition fence :: string where
  "fence = [CHR 0x60, CHR 0x60, CHR 0x60]"

definition unwrap_code_fence :: "string \<Rightarrow> string" where
  "unwrap_code_fence reply =
     (case strip_prefix fence reply of
        None \<Rightarrow> reply
      | Some rest \<Rightarrow>
          (case strip_suffix fence rest of
             None \<Rightarrow> reply
           | Some body \<Rightarrow>
               (case split_once [CHR 0x0A] body of
                  None \<Rightarrow> reply
                | Some (info, body) \<Rightarrow> if str_contains fence body then reply else trim body)))"

definition capture_label :: "capture option \<Rightarrow> json" where
  "capture_label c =
     (case c of
        Some CaptureJson \<Rightarrow> JStr ''json''
      | Some CaptureText \<Rightarrow> JStr ''text''
      | None \<Rightarrow> JNull)"

section \<open>The payload write\<close>

definition merge_stage_capture :: "string \<Rightarrow> json \<Rightarrow> json \<Rightarrow> json" where
  "merge_stage_capture stage v payload =
     (let payload = ensure_object payload;
          stages = (case jget ''stages'' payload of Some s \<Rightarrow> s | None \<Rightarrow> obj_of []);
          stages = ensure_object stages
      in jset ''stages'' (jset stage v stages) payload)"

section \<open>What the scan is compared with\<close>

text \<open>
  The top-level spans of a text, found without judging them: every balanced brace pair that is
  inside no other and not in a string.
\<close>

fun spans :: "nat \<Rightarrow> nat \<Rightarrow> bool \<Rightarrow> bool \<Rightarrow> nat \<Rightarrow> string \<Rightarrow> (nat \<times> nat) list" where
  "spans i depth in_string escaped start [] = []"
| "spans i depth in_string escaped start (b # bs) =
     (if in_string then
        (if escaped then spans (i + 1) depth True False start bs
         else spans (i + 1) depth (b \<noteq> CHR 0x22) (b = CHR 0x5C) start bs)
      else if b = CHR 0x22 then spans (i + 1) depth True False start bs
      else if b = CHR ''{'' then
        spans (i + 1) (depth + 1) False False (if depth = 0 then i else start) bs
      else if b = CHR ''}'' \<and> depth > 0 then
        (if depth = 1 then [(start, i + 1)] else []) @ spans (i + 1) (depth - 1) False False start bs
      else spans (i + 1) depth False False start bs)"

definition top_level_objects :: "string \<Rightarrow> string list" where
  "top_level_objects txt = map (\<lambda>(s, e). slice txt s e) (spans 0 0 False False 0 txt)"

text \<open>The usable outcome field of a value: a string that is not blank.\<close>

definition reported_outcome :: "json option \<Rightarrow> string option" where
  "reported_outcome v =
     (case Option.bind (Option.bind v (jget ''outcome'')) as_str of
        None \<Rightarrow> None
      | Some s \<Rightarrow> if trim s = [] then None else Some (trim s))"

section \<open>Lemmas\<close>

definition scan_sound :: "json_parser \<Rightarrow> string \<Rightarrow> (nat \<times> nat) list \<Rightarrow> scan \<Rightarrow> bool" where
  "scan_sound P txt found st =
     ((sc_escaped st \<longrightarrow> sc_in_string st) \<and> (sc_depth st > 0 \<longrightarrow> sc_start st \<noteq> None) \<and>
      sc_valid st = (if found = [] then None else Some (last found)) \<and>
      sc_ambiguous st = (length found > 1))"

definition judged :: "json_parser \<Rightarrow> string \<Rightarrow> nat \<times> nat \<Rightarrow> bool" where
  "judged P txt = (\<lambda>(s, e). is_ok (P (slice txt s e)))"

lemma scan_sound_parts:
  "scan_sound P txt found
     \<lparr>sc_depth = d, sc_in_string = ins, sc_escaped = esc, sc_start = start, sc_valid = v, sc_ambiguous = a\<rparr>
   \<longleftrightarrow> (esc \<longrightarrow> ins) \<and> (d > 0 \<longrightarrow> start \<noteq> None) \<and>
      v = (if found = [] then None else Some (last found)) \<and> a = (length found > 1)"
  by (simp add: scan_sound_def)

text \<open>One byte: what it adds to the judged spans, and that the state keeps track of them.\<close>

lemma scan_byte_step:
  assumes "scan_sound P txt found st"
  shows "\<exists>new. scan_sound P txt (found @ new) (scan_byte P txt i b st) \<and>
    filter (judged P txt) (spans i (sc_depth st) (sc_in_string st) (sc_escaped st)
        (case sc_start st of None \<Rightarrow> 0 | Some s \<Rightarrow> s) (b # bs)) =
    new @ filter (judged P txt)
        (spans (i + 1) (sc_depth (scan_byte P txt i b st)) (sc_in_string (scan_byte P txt i b st))
          (sc_escaped (scan_byte P txt i b st))
          (case sc_start (scan_byte P txt i b st) of None \<Rightarrow> 0 | Some s \<Rightarrow> s) bs)"
proof -
  obtain d ins esc start v a where st: "st = \<lparr>sc_depth = d, sc_in_string = ins, sc_escaped = esc,
      sc_start = start, sc_valid = v, sc_ambiguous = a\<rparr>" by (cases st)
  note parts = assms [unfolded st scan_sound_parts]
  show ?thesis
  proof (cases "\<not> ins \<and> b = CHR ''}'' \<and> d = 1")
    case True
    then obtain s where s: "start = Some s" using parts by auto
    show ?thesis
    proof (cases "judged P txt (s, i + 1)")
      case ok: True
      then show ?thesis
        using True s parts
        by (intro exI [of _ "[(s, i + 1)]"]; cases found)
           (simp_all add: st scan_byte_def scan_sound_def judged_def)
    next
      case False
      then show ?thesis
        using True s parts
        by (intro exI [of _ "[]"]) (simp add: st scan_byte_def scan_sound_def judged_def)
    qed
  next
    case False
    consider "ins" | "\<not> ins" "b = CHR 0x22" | "\<not> ins" "b = CHR ''{''" "d = 0"
      | "\<not> ins" "b = CHR ''{''" "d > 0" | "\<not> ins" "b = CHR ''}''" "d > 1" | "\<not> ins" "b = CHR ''}''" "d = 0"
      | "\<not> ins" "b \<noteq> CHR 0x22" "b \<noteq> CHR ''{''" "b \<noteq> CHR ''}''"
      using False by force
    then show ?thesis
      using parts False
      by cases (intro exI [of _ "[]"]; cases esc; cases start;
          simp add: st scan_byte_def scan_sound_def; fail)+
  qed
qed

lemma scan_bytes_spans:
  assumes "scan_sound P txt found st"
  shows "scan_sound P txt
    (found @ filter (judged P txt)
       (spans i (sc_depth st) (sc_in_string st) (sc_escaped st)
          (case sc_start st of None \<Rightarrow> 0 | Some s \<Rightarrow> s) bs))
    (scan_bytes P txt i bs st)"
  using assms
proof (induction bs arbitrary: i st found)
  case (Cons b bs)
  from scan_byte_step [OF Cons.prems, of i b bs] obtain new
    where sound: "scan_sound P txt (found @ new) (scan_byte P txt i b st)"
      and spans: "filter (judged P txt) (spans i (sc_depth st) (sc_in_string st) (sc_escaped st)
        (case sc_start st of None \<Rightarrow> 0 | Some s \<Rightarrow> s) (b # bs)) =
      new @ filter (judged P txt)
        (spans (i + 1) (sc_depth (scan_byte P txt i b st)) (sc_in_string (scan_byte P txt i b st))
          (sc_escaped (scan_byte P txt i b st))
          (case sc_start (scan_byte P txt i b st) of None \<Rightarrow> 0 | Some s \<Rightarrow> s) bs)" by blast
  from Cons.IH [OF sound, of "i + 1"] show ?case
    unfolding spans by simp
qed simp

lemma sole_object_eq:
  "sole_top_level_json_object P txt =
     (case filter (\<lambda>t. is_ok (P t)) (top_level_objects txt) of [t] \<Rightarrow> Some t | _ \<Rightarrow> None)"
proof -
  let ?found = "filter (judged P txt) (spans 0 0 False False 0 txt)"
  have "scan_sound P txt [] scan0" by (simp add: scan_sound_def scan0_def)
  from scan_bytes_spans [OF this, of 0 "txt"]
  have st: "scan_sound P txt ?found (scan_bytes P txt 0 txt scan0)" by (simp add: scan0_def)
  have objs: "filter (\<lambda>t. is_ok (P t)) (top_level_objects txt) = map (\<lambda>(s, e). slice txt s e) ?found"
    by (simp add: top_level_objects_def filter_map judged_def case_prod_unfold comp_def)
  show ?thesis
    using st unfolding objs
    by (cases ?found rule: remdups_adj.cases)
       (auto simp: sole_top_level_json_object_def scan_sound_def Let_def split: prod.splits)
qed

lemma turn_outcome_parts:
  "fst (turn_outcome c captured) =
     (case (if c = CaptureJson then reported_outcome captured else None) of
        Some s \<Rightarrow> s | None \<Rightarrow> TURN_DEFAULT_OUTCOME)"
  "(snd (turn_outcome c captured) = None) = (if c = CaptureJson then reported_outcome captured \<noteq> None else True)"
  by (cases captured; auto simp: turn_outcome_def reported_outcome_def split: option.splits json.splits)+

lemma outcome_from_report_parts:
  "fst (outcome_from_report report) =
     (case reported_outcome (Some report) of Some s \<Rightarrow> s | None \<Rightarrow> TURN_DEFAULT_OUTCOME)"
  "(snd (outcome_from_report report) = None) = (reported_outcome (Some report) \<noteq> None)"
  by (auto simp: outcome_from_report_def reported_outcome_def split: option.splits json.splits)

lemma reported_outcome_trimmed: "reported_outcome v = Some s \<Longrightarrow> s \<noteq> [] \<and> trim s = s"
  by (auto simp: reported_outcome_def split: option.splits if_splits)

lemma default_outcome_trimmed: "trim TURN_DEFAULT_OUTCOME = TURN_DEFAULT_OUTCOME \<and> TURN_DEFAULT_OUTCOME \<noteq> []"
  by code_simp

interpretation capture_write: payload_write "merge_stage_capture stage v" "{''stages''}" for stage v
  by unfold_locales (simp_all add: merge_stage_capture_def Let_def)

lemma jget_merge:
  "Option.bind (jget ''stages'' (merge_stage_capture stage v p)) (jget s) =
     (if s = stage then Some v else Option.bind (jget ''stages'' p) (jget s))"
  by (simp add: merge_stage_capture_def Let_def jget_set split: option.splits)

lemma fence_no_newline: "CHR 0x0A \<notin> set fence"
  by (simp add: fence_def)

section \<open>Properties\<close>

text \<open>
  C31. The byte scan agrees with its specification: sole_top_level_json_object returns a text just
  when exactly one of the top-level braced spans of the reply is valid JSON, and it returns that
  one; two valid spans make the reply ambiguous, and an invalid span does not count.
\<close>

theorem sole_object_unique:
  "sole_top_level_json_object P txt = Some t \<longleftrightarrow>
     filter (\<lambda>t. is_ok (P t)) (top_level_objects txt) = [t]"
  by (auto simp: sole_object_eq split: list.splits)

text \<open>
  An agent's reply captured as json is recovered only when there is no doubt: the stored
  value is the whole reply's, else the one of the sole valid object in it, else the reply itself as
  a string with a note; nothing is stored, with a note, only when the reply is too long.
\<close>

theorem reply_capture_cases:
  "derive_agent_reply_capture P CaptureJson reply =
     (let t = trim reply in
      if length t > MAX_CAPTURE_BYTES then derive_capture P (Some CaptureJson) reply ''the reply''
      else
        (case (P t, filter (\<lambda>v. is_ok (P v)) (top_level_objects t)) of
           (Inr v, _) \<Rightarrow> (Some v, None)
         | (Inl err, [inner]) \<Rightarrow>
             (Some (projr (P inner)),
              Some (''the reply was not valid JSON on its own ('' @ err
                    @ ''); recovered the sole '' @ squote ''{...}'' @ '' object in it''))
         | (Inl err, _) \<Rightarrow>
             (Some (JStr t), Some (''the reply was not valid JSON ('' @ err @ ''); captured as text''))))"
proof -
  let ?valid = "filter (\<lambda>v. is_ok (P v)) (top_level_objects (trim reply))"
  show ?thesis
  proof (cases "P (trim reply)")
    case (Inr v)
    then show ?thesis by (simp add: derive_agent_reply_capture_def Let_def)
  next
    case (Inl err)
    consider (none) "?valid = []" | (one) inner where "?valid = [inner]"
      | (more) a b rest where "?valid = a # b # rest"
      by (metis neq_Nil_conv)
    then show ?thesis
    proof cases
      case (one inner)
      then have "inner \<in> set ?valid" by simp
      then obtain v where v: "P inner = Inr v" by (auto simp: is_ok_iff)
      show ?thesis
        unfolding derive_agent_reply_capture_def sole_object_eq Let_def one Inl by (simp add: v)
    next
      case none
      show ?thesis
        unfolding derive_agent_reply_capture_def sole_object_eq Let_def none Inl by simp
    next
      case (more a b rest)
      show ?thesis
        unfolding derive_agent_reply_capture_def sole_object_eq Let_def more Inl by simp
    qed
  qed
qed

text \<open>
  A finished turn always has an outcome to route on: it is the agent's own outcome field,
  trimmed, whenever that is a non-blank string (of the reply of a stage that captures json, or of
  the report), and done otherwise; it is never blank nor surrounded by white space, and a note is
  made just when the expected field was not usable.
\<close>

theorem turn_always_has_outcome:
  "fst (turn_outcome c captured) =
     (case (if c = CaptureJson then reported_outcome captured else None) of
        Some s \<Rightarrow> s | None \<Rightarrow> TURN_DEFAULT_OUTCOME) \<and>
   (snd (turn_outcome c captured) = None) = (if c = CaptureJson then reported_outcome captured \<noteq> None else True) \<and>
   fst (outcome_from_report report) =
     (case reported_outcome (Some report) of Some s \<Rightarrow> s | None \<Rightarrow> TURN_DEFAULT_OUTCOME) \<and>
   (snd (outcome_from_report report) = None) = (reported_outcome (Some report) \<noteq> None) \<and>
   fst (turn_outcome c captured) \<noteq> [] \<and> trim (fst (turn_outcome c captured)) = fst (turn_outcome c captured)"
  unfolding turn_outcome_parts outcome_from_report_parts
  using reported_outcome_trimmed [of captured] default_outcome_trimmed by (auto split: option.split)

text \<open>
  Only a reply that is one fenced block is unwrapped: for an info string on one line and a
  body without a fence, the fenced text unwraps to the trimmed body; every other reply is returned
  as it is.
\<close>

theorem code_fence_roundtrip:
  "(unwrap_code_fence reply = out) =
     ((\<exists>info body. CHR 0x0A \<notin> set info \<and> \<not> str_contains fence body \<and>
         reply = fence @ info @ [CHR 0x0A] @ body @ fence \<and> out = trim body) \<or>
      (out = reply \<and> (\<nexists>info body. CHR 0x0A \<notin> set info \<and> \<not> str_contains fence body \<and>
         reply = fence @ info @ [CHR 0x0A] @ body @ fence)))"
proof -
  have split: "split_once [CHR 0x0A] b = Some (info, body) \<longleftrightarrow>
      b = info @ CHR 0x0A # body \<and> CHR 0x0A \<notin> set info" for b info body
    by (rule split_once_char)
  have unique: "body = body'" if "info @ CHR 0x0A # body = info' @ CHR 0x0A # body'"
    "CHR 0x0A \<notin> set info" "CHR 0x0A \<notin> set info'" for info info' body body' :: string
    using that split [of "info @ CHR 0x0A # body"] by (metis option.inject prod.inject)
  show ?thesis
  proof (cases "\<exists>info body. CHR 0x0A \<notin> set info \<and> \<not> str_contains fence body \<and>
         reply = fence @ info @ [CHR 0x0A] @ body @ fence")
    case True
    then obtain info body where r: "CHR 0x0A \<notin> set info" "\<not> str_contains fence body"
      "reply = fence @ info @ [CHR 0x0A] @ body @ fence" by blast
    have "strip_suffix fence (info @ CHR 0x0A # body @ fence) = Some (info @ CHR 0x0A # body)"
      by (simp add: strip_suffix_Some)
    moreover have "split_once [CHR 0x0A] (info @ CHR 0x0A # body) = Some (info, body)"
      using r(1) by (simp add: split)
    ultimately have u: "unwrap_code_fence reply = trim body"
      using r(2) by (simp add: unwrap_code_fence_def r(3))
    have only: "body' = body" if "CHR 0x0A \<notin> set info'" "reply = fence @ info' @ [CHR 0x0A] @ body' @ fence"
      for info' body'
      using unique [of info' "body' @ fence" info "body @ fence"] that r(1,3) by simp
    show ?thesis
    proof
      assume "unwrap_code_fence reply = out"
      with u r show "(\<exists>info body. CHR 0x0A \<notin> set info \<and> \<not> str_contains fence body \<and>
         reply = fence @ info @ [CHR 0x0A] @ body @ fence \<and> out = trim body) \<or>
        (out = reply \<and> (\<nexists>info body. CHR 0x0A \<notin> set info \<and> \<not> str_contains fence body \<and>
         reply = fence @ info @ [CHR 0x0A] @ body @ fence))" by blast
    next
      assume "(\<exists>info body. CHR 0x0A \<notin> set info \<and> \<not> str_contains fence body \<and>
         reply = fence @ info @ [CHR 0x0A] @ body @ fence \<and> out = trim body) \<or>
        (out = reply \<and> (\<nexists>info body. CHR 0x0A \<notin> set info \<and> \<not> str_contains fence body \<and>
         reply = fence @ info @ [CHR 0x0A] @ body @ fence))"
      with True only u show "unwrap_code_fence reply = out" by blast
    qed
  next
    case False
    have "unwrap_code_fence reply = reply"
    proof (rule ccontr)
      assume changed: "unwrap_code_fence reply \<noteq> reply"
      then obtain rest where 1: "strip_prefix fence reply = Some rest"
        unfolding unwrap_code_fence_def by (cases "strip_prefix fence reply") simp_all
      with changed obtain b where 2: "strip_suffix fence rest = Some b"
        unfolding unwrap_code_fence_def by (cases "strip_suffix fence rest") simp_all
      with changed 1 obtain info body where 3: "split_once [CHR 0x0A] b = Some (info, body)"
        unfolding unwrap_code_fence_def by (cases "split_once [CHR 0x0A] b") auto
      with changed 1 2 have "\<not> str_contains fence body"
        unfolding unwrap_code_fence_def by (cases "str_contains fence body") simp_all
      moreover from 1 2 have "reply = fence @ b @ fence"
        by (simp add: strip_prefix_Some strip_suffix_Some)
      ultimately show False using False 3 by (auto simp: split)
    qed
    with False show ?thesis by auto
  qed
qed

text \<open>
  What a stage captured is what a later stage's template reads: after the write, a reference
  to the stage follows its path into the captured value, references to other stages, to the task,
  the arrival and left_at read what they read before.
\<close>

theorem capture_then_template:
  "resolve r (merge_stage_capture stage v payload) =
     (if root_of r = StageRoot stage then and_then (follow r [] (path r) v) (scalar_text r)
      else resolve r payload)"
proof (cases "root_of r")
  case (StageRoot s)
  then show ?thesis
    using jget_merge [of stage v payload s]
    by (simp add: resolve_def root_value_def NAMESPACE_def)
qed (simp_all add: resolve_def root_value_def TASK_NAMESPACE_def ARRIVAL_NAMESPACE_def LEFT_AT_def
      capture_write.frame)

end
