(* ===== verification/Payload.thy ===== *)
theory Payload
  imports Workflow Capture
begin

text \<open>
  The engine-owned facts in a task's payload and loop counters, each written by its own function
  (engine/mod.rs: set_arrival, mark_stage_finished, set_left_at, bump_loop_counter,
  reset_loop_counter, clear_guards_escaping_to; engine/watch.rs: set_poll_window,
  poll_window_for and the watcher's small time rules; engine/parallel.rs: set_parallel_block,
  current_group_branches, block_for). Every payload write is an instance of the locale
  \<open>payload_write\<close> of the theory Json. The chrono crate is the record \<open>chrono\<close>; a point in time
  is its nanoseconds since the epoch. Integer additions wrap as in a release build.
\<close>

section \<open>Time\<close>

type_synonym time = int

record chrono =
  ch_stamp :: "time \<Rightarrow> string"
  ch_nanos :: "time \<Rightarrow> string"
  ch_limit :: "duration \<Rightarrow> (string, int) result"
  ch_add :: "time \<Rightarrow> int \<Rightarrow> time option"
  ch_read :: "string \<Rightarrow> time option"
  ch_window_error :: "json \<Rightarrow> string"

text \<open>\<open>(a - b).to_std()\<close>: no negative durations.\<close>

definition to_std :: "int \<Rightarrow> duration option" where
  "to_std n = (if n < 0 then None else Some (Duration (nat n div 1000000000) (nat n mod 1000000000)))"

definition duration_ZERO :: duration where
  "duration_ZERO = Duration 0 0"

definition remaining_budget :: "time \<Rightarrow> time \<Rightarrow> duration" where
  "remaining_budget deadline now = (case to_std (deadline - now) of None \<Rightarrow> duration_ZERO | Some d \<Rightarrow> d)"

definition final_attempt_limit :: "duration \<Rightarrow> duration" where
  "final_attempt_limit interval = min interval (from_secs 60)"

definition catch_up_len :: "duration \<Rightarrow> duration" where
  "catch_up_len timeout = min timeout (from_secs (30 * 60))"

definition missed :: "u64 \<Rightarrow> duration \<Rightarrow> duration \<Rightarrow> bool" where
  "missed attempts late interval = (attempts > 0 \<and> late > interval)"

definition round_for_note :: "duration \<Rightarrow> duration" where
  "round_for_note d = (if d \<ge> from_secs 60 then from_secs (as_secs d div 60 * 60) else d)"

section \<open>Arrival, finished stages, left at\<close>

text \<open>
  EngineError. The errors of other modules (the database, the session manager, the configuration,
  the adapters) are carried as the text they print as. Four constructors have the prefix Engine
  where the load errors of the theory Workflow use the name.
\<close>

datatype (plugins only: code) engine_error =
    GroupStateMissing string
  | NoWorkflowState
  | NoSuchTask
  | UnknownStage string
  | UnknownOutcome string string
  | StageMovedOn string string
  | TaskCancelled string
  | TerminalStageHasNoTransitions string
  | MissingAgentTurnInput string
  | EngineUnknownRole string string
  | ReadOnlyBaseline string string string
  | EngineInvalidPollPattern string string
  | EngineTemplate string string
  | PollWindow string string
  | UnknownCli string
  | RoleRejected string
  | SessionFailed string
  | Db string
  | EngineIo string
  | GlobalConfigFailed string
  | RoleConfigFailed string
  | WorktreeFailed string
  | QueueRowVanished string
  | QueueAdmission string

fun show_engine_error :: "engine_error \<Rightarrow> string" where
  "show_engine_error NoWorkflowState = ''task has no workflow_state row''"
| "show_engine_error NoSuchTask = ''no such task''"
| "show_engine_error (GroupStateMissing stage) =
     ''parallel stage '' @ squote stage @ '' was entered without its branch state in the workflow payload''"
| "show_engine_error (UnknownStage stage) = ''workflow_state references unknown stage '' @ squote stage"
| "show_engine_error (UnknownOutcome stage outcome) =
     ''stage '' @ squote stage @ '' has no '' @ squote ''on:'' @ '' transition for outcome '' @ squote outcome"
| "show_engine_error (StageMovedOn expected actual) =
     ''task left stage '' @ squote expected @ '' (now in '' @ squote actual
     @ '') before its outcome could be applied''"
| "show_engine_error (TaskCancelled task_id) =
     ''task '' @ squote task_id @ '' was cancelled and cannot be advanced''"
| "show_engine_error (TerminalStageHasNoTransitions stage) =
     ''stage '' @ squote stage @ '' is terminal and cannot be advanced''"
| "show_engine_error (MissingAgentTurnInput stage) =
     ''stage '' @ squote stage @ '' is an agent_turn with no prompt_file and no input was supplied''"
| "show_engine_error (EngineUnknownRole stage role) =
     ''stage '' @ squote stage @ '' is an agent_turn with unknown role '' @ squote role"
| "show_engine_error (ReadOnlyBaseline stage role reason) =
     ''could not record the worktree baseline for read-only role '' @ squote role @ '' in stage ''
     @ squote stage @ '': '' @ reason @ ''; the agent was not started''"
| "show_engine_error (EngineInvalidPollPattern stage reason) =
     ''stage '' @ squote stage @ '' has a poll outcome pattern that does not compile: '' @ reason"
| "show_engine_error (EngineTemplate stage reason) =
     ''stage '' @ squote stage @ '' could not render a template: '' @ reason"
| "show_engine_error (PollWindow stage reason) =
     ''stage '' @ squote stage @ '' has no usable poll window: '' @ reason"
| "show_engine_error (UnknownCli err) = err"
| "show_engine_error (RoleRejected message) = message"
| "show_engine_error (SessionFailed err) = err"
| "show_engine_error (Db err) = err"
| "show_engine_error (EngineIo err) = err"
| "show_engine_error (GlobalConfigFailed err) = err"
| "show_engine_error (RoleConfigFailed err) = err"
| "show_engine_error (WorktreeFailed err) = err"
| "show_engine_error (QueueRowVanished stage) =
     ''the queued turn for stage '' @ squote stage @ '' was withdrawn before it could start''"
| "show_engine_error (QueueAdmission message) = message"

definition set_arrival :: "string \<Rightarrow> string \<Rightarrow> json \<Rightarrow> json" where
  "set_arrival from_stage outcome payload =
     jset ''arrival'' (obj_of [(''from'', JStr from_stage), (''outcome'', JStr outcome)])
       (ensure_object payload)"

definition mark_stage_finished :: "string \<Rightarrow> json \<Rightarrow> json" where
  "mark_stage_finished stage payload =
     (let payload = ensure_object payload;
          xs = (case jget FINISHED_STAGES payload of Some v \<Rightarrow> v | None \<Rightarrow> JArr []);
          items = (case as_array xs of Some items \<Rightarrow> items | None \<Rightarrow> [])
      in jset FINISHED_STAGES
           (JArr (if list_ex (\<lambda>s. as_str s = Some stage) items then items else items @ [JStr stage]))
           payload)"

definition set_left_at :: "string \<Rightarrow> string \<Rightarrow> json \<Rightarrow> json" where
  "set_left_at stage at payload =
     (let payload = ensure_object payload;
          m = ensure_object (case jget LEFT_AT payload of Some v \<Rightarrow> v | None \<Rightarrow> obj_of [])
      in jset LEFT_AT (jset stage (JStr at) m) payload)"

section \<open>The poll window\<close>

definition watch_of :: "workflow_definition \<Rightarrow> string \<Rightarrow> watch option" where
  "watch_of d stage = Option.bind (stage_of d stage) stage_watch"

text \<open>The deadline: absent without a timeout, else the entry time plus it, if chrono can count that far.\<close>

definition window_deadline ::
  "chrono \<Rightarrow> string \<Rightarrow> duration option \<Rightarrow> time \<Rightarrow> (engine_error, json) result"
where
  "window_deadline C stage timeout now =
     (case timeout of
        None \<Rightarrow> Inr JNull
      | Some limit \<Rightarrow>
          and_then (map_err (\<lambda>err. PollWindow stage (''timeout is out of range: '' @ err)) (ch_limit C limit))
            (\<lambda>limit. case ch_add C now limit of
                None \<Rightarrow> Inl (PollWindow stage ''deadline overflows the calendar'')
              | Some at \<Rightarrow> Inr (JStr (ch_nanos C at))))"

definition set_poll_window ::
  "chrono \<Rightarrow> workflow_definition \<Rightarrow> string \<Rightarrow> time \<Rightarrow> json \<Rightarrow> (engine_error, json) result"
where
  "set_poll_window C d stage now payload =
     (let payload = ensure_object payload in
      case watch_of d stage of
        None \<Rightarrow> Inr (jremove ''poll_window'' payload)
      | Some w \<Rightarrow>
          and_then (window_deadline C stage (w_timeout w) now) (\<lambda>deadline.
            Inr (jset ''poll_window''
                  (obj_of [(''stage'', JStr stage), (''entered_at'', JStr (ch_nanos C now)),
                           (''deadline'', deadline)]) payload)))"

record poll_window =
  pw_stage :: string
  pw_entered_at :: time
  pw_deadline :: "time option"

text \<open>
  The derived deserializer of PollWindow: an object (unknown keys ignored, a missing deadline is
  null) or an array of the three fields in order.
\<close>

definition read_deadline :: "chrono \<Rightarrow> json \<Rightarrow> time option option" where
  "read_deadline C v =
     (case v of JNull \<Rightarrow> Some None
      | JStr s \<Rightarrow> map_option Some (ch_read C s)
      | _ \<Rightarrow> None)"

definition read_window_fields :: "chrono \<Rightarrow> json \<Rightarrow> json \<Rightarrow> json \<Rightarrow> poll_window option" where
  "read_window_fields C stage entered deadline =
     (case (as_str stage, Option.bind (as_str entered) (ch_read C), read_deadline C deadline) of
        (Some s, Some e, Some dl) \<Rightarrow> Some \<lparr>pw_stage = s, pw_entered_at = e, pw_deadline = dl\<rparr>
      | _ \<Rightarrow> None)"

definition read_window :: "chrono \<Rightarrow> json \<Rightarrow> poll_window option" where
  "read_window C v =
     (case v of
        JObj m \<Rightarrow>
          (case (map_of m ''stage'', map_of m ''entered_at'') of
             (Some s, Some e) \<Rightarrow>
               read_window_fields C s e (case map_of m ''deadline'' of None \<Rightarrow> JNull | Some d \<Rightarrow> d)
           | _ \<Rightarrow> None)
      | JArr [s, e, d] \<Rightarrow> read_window_fields C s e d
      | _ \<Rightarrow> None)"

definition poll_window_for :: "chrono \<Rightarrow> json \<Rightarrow> string \<Rightarrow> (string, poll_window option) result" where
  "poll_window_for C payload current_stage =
     (case jget ''poll_window'' payload of
        None \<Rightarrow> Inr None
      | Some raw \<Rightarrow>
          (case read_window C raw of
             None \<Rightarrow> Inl (''malformed poll_window: '' @ ch_window_error C raw)
           | Some window \<Rightarrow> if pw_stage window \<noteq> current_stage then Inr None else Inr (Some window)))"

record timed_out_watch =
  to_from :: string
  to_timeout :: "duration option"
  to_resumes :: "string option"

definition timed_out_watch :: "workflow_definition \<Rightarrow> string \<Rightarrow> json \<Rightarrow> timed_out_watch option" where
  "timed_out_watch d current_stage payload =
     Option.bind (stage_of d current_stage) (\<lambda>gate.
     if \<not> is_human_gate (sd_kind gate) \<or> stage_watch gate \<noteq> None then None
     else Option.bind (jget ''arrival'' payload) (\<lambda>arrival.
     Option.bind (Option.bind (jget ''outcome'' arrival) as_str) (\<lambda>outcome.
     if outcome \<noteq> ''timeout'' then None
     else Option.bind (Option.bind (jget ''from'' arrival) as_str) (\<lambda>source.
     Option.bind (stage_of d source) (\<lambda>watcher.
     Option.bind (stage_watch watcher) (\<lambda>w.
     if map_of (sd_on watcher) ''timeout'' \<noteq> Some current_stage then None
     else Some \<lparr>to_from = source, to_timeout = w_timeout w, to_resumes = map_of (sd_on gate) ''resumed''\<rparr>))))))"

section \<open>The parallel block\<close>

definition wrap_i64 :: "int \<Rightarrow> int" where
  "wrap_i64 i = (if i \<ge> 2 ^ 63 then i - 2 ^ 64 else i)"

definition next_entry :: "json \<Rightarrow> string \<Rightarrow> int" where
  "next_entry payload stage =
     wrap_i64 ((case Option.bind (Option.bind (jget ''parallel_entries'' payload) (jget stage)) as_i64 of
                  None \<Rightarrow> 0 | Some n \<Rightarrow> n) + 1)"

definition running_slot :: "string \<Rightarrow> json" where
  "running_slot started_at = obj_of [(''state'', JStr ''running''), (''started_at'', JStr started_at)]"

definition set_parallel_block ::
  "chrono \<Rightarrow> workflow_definition \<Rightarrow> string \<Rightarrow> time \<Rightarrow> json \<Rightarrow> json"
where
  "set_parallel_block C d stage now payload =
     (let payload = ensure_object payload in
      case Option.bind (stage_of d stage) (\<lambda>s. group_branches (sd_kind s)) of
        None \<Rightarrow> jremove ''parallel'' payload
      | Some branches \<Rightarrow>
          (let entry = next_entry payload stage;
               entries = ensure_object
                 (case jget ''parallel_entries'' payload of Some v \<Rightarrow> v | None \<Rightarrow> obj_of []);
               payload = jset ''parallel_entries'' (jset stage (json_i64 entry) entries) payload;
               started_at = ch_stamp C now;
               branch_states = obj_of (map (\<lambda>name. (name, running_slot started_at)) (ikeys branches))
           in jset ''parallel''
                (obj_of [(''stage'', JStr stage), (''entry'', json_i64 entry),
                         (''branches'', branch_states)]) payload))"

definition current_group_branches ::
  "json \<Rightarrow> string \<Rightarrow> string option \<Rightarrow> (string \<times> json) list option"
where
  "current_group_branches payload current_stage kind =
     (if kind \<noteq> Some ''parallel'' then None
      else Option.bind (jget ''parallel'' payload) (\<lambda>block.
           if \<not> is_object block then None
           else Option.bind (Option.bind (jget ''stage'' block) as_str) (\<lambda>stage.
                if stage \<noteq> current_stage then None
                else Option.bind (jget ''branches'' block) as_object)))"

definition block_for :: "json \<Rightarrow> string \<Rightarrow> json option" where
  "block_for payload grp =
     (case jget ''parallel'' payload of
        None \<Rightarrow> None
      | Some block \<Rightarrow>
          if Option.bind (jget ''stage'' block) as_str = Some grp then Some block else None)"

section \<open>Loop counters\<close>

text \<open>\<open>None\<close> is the panic of \<open>expect\<close> on counters that are not an object.\<close>

definition counter_of :: "json \<Rightarrow> string \<Rightarrow> u64" where
  "counter_of counters stage =
     (case Option.bind (Option.bind (jget stage counters) (jget ''count'')) as_u64 of
        None \<Rightarrow> 0 | Some n \<Rightarrow> n)"

definition bump_loop_counter :: "json \<Rightarrow> string \<Rightarrow> (json \<times> u64) option" where
  "bump_loop_counter counters stage =
     (if \<not> is_object counters then None
      else (let count = counter_of counters stage + 1
            in Some (jset stage (obj_of [(''count'', json_u64 count)]) counters, count)))"

definition reset_loop_counter :: "json \<Rightarrow> string \<Rightarrow> json option" where
  "reset_loop_counter counters stage =
     (if \<not> is_object counters then None else Some (jremove stage counters))"

text \<open>The loop over the definition's stages.\<close>

fun clear_loop :: "stage_def imap \<Rightarrow> string \<Rightarrow> json \<Rightarrow> json" where
  "clear_loop [] next_stage counters = counters"
| "clear_loop ((stage, def) # rest) next_stage counters =
     clear_loop rest next_stage
       (case sd_guard def of
          None \<Rightarrow> counters
        | Some guard \<Rightarrow> if lg_then guard = next_stage then jremove stage counters else counters)"

definition clear_guards_escaping_to :: "json \<Rightarrow> workflow_definition \<Rightarrow> string \<Rightarrow> json option" where
  "clear_guards_escaping_to counters d next_stage =
     (if \<not> is_object counters then None else Some (clear_loop (wd_stages d) next_stage counters))"

section \<open>The payload writes meet their contract\<close>

interpretation arrival_write: payload_write "set_arrival s o'" "{''arrival''}" for s o'
  by unfold_locales (simp_all add: set_arrival_def)

interpretation finished_write: payload_write "mark_stage_finished s" "{FINISHED_STAGES}" for s
  by unfold_locales (simp_all add: mark_stage_finished_def Let_def)

interpretation left_at_write: payload_write "set_left_at s t" "{LEFT_AT}" for s t
  by unfold_locales (simp_all add: set_left_at_def Let_def)

interpretation parallel_write: payload_write "set_parallel_block C d s t" "{''parallel'', ''parallel_entries''}"
  for C d s t
  by unfold_locales (auto simp: set_parallel_block_def Let_def jget_remove jget_set split: option.splits)

lemma set_poll_window_frame:
  assumes "set_poll_window C d s t p = Inr q"
  shows "is_object q \<and> (k \<noteq> ''poll_window'' \<longrightarrow> jget k q = jget k p)"
  using assms by (auto simp: set_poll_window_def Let_def result_simps jget_remove jget_set split: option.splits)

section \<open>Lemmas\<close>

lemma jget_arrival: "jget ''arrival'' (set_arrival s o' p) = Some (obj_of [(''from'', JStr s), (''outcome'', JStr o')])"
  by (simp add: set_arrival_def)

lemma jget_left_at:
  "Option.bind (jget LEFT_AT (set_left_at s t p)) (jget k) =
     (if k = s then Some (JStr t) else Option.bind (jget LEFT_AT p) (jget k))"
  by (simp add: set_left_at_def Let_def jget_set split: option.splits)

text \<open>The finished_stages array, empty when it is missing or no array.\<close>

definition finished_items :: "json \<Rightarrow> json list" where
  "finished_items p = (case Option.bind (jget FINISHED_STAGES p) as_array of Some xs \<Rightarrow> xs | None \<Rightarrow> [])"

lemma finished_items_mark:
  "finished_items (mark_stage_finished s p) =
     (if list_ex (\<lambda>x. as_str x = Some s) (finished_items p) then finished_items p
      else finished_items p @ [JStr s])"
proof -
  have "(case as_array (case jget FINISHED_STAGES p of Some v \<Rightarrow> v | None \<Rightarrow> JArr []) of
      Some items \<Rightarrow> items | None \<Rightarrow> []) = finished_items p"
    by (simp add: finished_items_def split: option.split)
  moreover have "finished_items (jset FINISHED_STAGES (JArr xs) q) = xs" for xs q
    by (simp add: finished_items_def)
  ultimately show ?thesis by (simp add: mark_stage_finished_def Let_def)
qed

lemma stage_finished_items: "stage_finished p k \<longleftrightarrow> list_ex (\<lambda>x. as_str x = Some k) (finished_items p)"
  by (simp add: stage_finished_def finished_items_def split: option.split)

lemma stage_finished_mark:
  "stage_finished (mark_stage_finished s p) k \<longleftrightarrow> k = s \<or> stage_finished p k"
  by (cases "list_ex (\<lambda>x. as_str x = Some s) (finished_items p)")
     (auto simp: stage_finished_items finished_items_mark list_ex_iff)

lemma clear_loop_object: "is_object c \<Longrightarrow> is_object (clear_loop stages n c)"
  by (induction stages n c rule: clear_loop.induct) (auto split: option.splits)

text \<open>The stages whose guard leads out to a stage.\<close>

definition escapes_to :: "stage_def imap \<Rightarrow> string \<Rightarrow> string \<Rightarrow> bool" where
  "escapes_to stages n k = list_ex (\<lambda>(k', s). k' = k \<and> map_option lg_then (sd_guard s) = Some n) stages"

lemma jget_clear_loop:
  "jget k (clear_loop stages n c) =
     (if escapes_to stages n k then None else jget k c)"
  by (induction stages n c rule: clear_loop.induct)
     (auto simp: escapes_to_def jget_remove split: option.splits)

lemma counter_of_jget: "jget k c = jget k c' \<Longrightarrow> counter_of c k = counter_of c' k"
  by (simp add: counter_of_def)

lemma counter_of_clear:
  "counter_of (clear_loop stages n c) k =
     (if escapes_to stages n k then 0 else counter_of c k)"
  by (simp add: counter_of_def jget_clear_loop)

lemma counter_of_set: "counter_of (jset s (obj_of [(''count'', json_u64 n)]) c) k = (if k = s then n else counter_of c k)"
  by (simp add: counter_of_def jget_set json_u64_def jget_obj_of_map)

lemma counter_of_remove: "counter_of (jremove s c) k = (if k = s then 0 else counter_of c k)"
  by (simp add: counter_of_def jget_remove)

end
