(* ===== verification/Sessions.thy ===== *)
theory Sessions
  imports Payload
begin

text \<open>
  The sessions table and its queries (chocofactoryd/src/db/sessions.rs, the session models of
  chocofactory-core/src/models.rs). A row keeps status and end reason as the text the database
  holds; reading a row parses them, and a status that does not parse is a panic, the \<open>None\<close> of
  \<open>session_of_row\<close>. The table is the list of its rows in insertion order. What SQL's INSERT and
  DELETE refuse (a duplicate id, a missing or still referenced session) is \<open>None\<close>; new ids and the
  count of stage entries come from outside the table and are arguments.
\<close>

section \<open>Status and end reason\<close>

datatype session_status = Active | Idle | Exited

datatype session_end_reason =
    Reaped
  | StartFailed
  | Cancelled
  | Lingered
  | NoReport
  | Interrupted
  | DaemonStopped
  | Paused
  | ClaudeSettingsRejected
  | ClaudeSettingsUnconfirmed

fun show_status :: "session_status \<Rightarrow> string" where
  "show_status Active = ''active''"
| "show_status Idle = ''idle''"
| "show_status Exited = ''exited''"

definition parse_status :: "string \<Rightarrow> (string, session_status) result" where
  "parse_status s =
     (if s = ''active'' then Inr Active
      else if s = ''idle'' then Inr Idle
      else if s = ''exited'' then Inr Exited
      else Inl s)"

fun show_end_reason :: "session_end_reason \<Rightarrow> string" where
  "show_end_reason Reaped = ''reaped''"
| "show_end_reason StartFailed = ''start_failed''"
| "show_end_reason Cancelled = ''cancelled''"
| "show_end_reason Lingered = ''lingered''"
| "show_end_reason NoReport = ''no_report''"
| "show_end_reason Interrupted = ''interrupted''"
| "show_end_reason DaemonStopped = ''daemon_stopped''"
| "show_end_reason Paused = ''paused''"
| "show_end_reason ClaudeSettingsRejected = ''claude_settings_rejected''"
| "show_end_reason ClaudeSettingsUnconfirmed = ''claude_settings_unconfirmed''"

definition parse_end_reason :: "string \<Rightarrow> (string, session_end_reason) result" where
  "parse_end_reason s =
     (if s = ''reaped'' then Inr Reaped
      else if s = ''start_failed'' then Inr StartFailed
      else if s = ''cancelled'' then Inr Cancelled
      else if s = ''lingered'' then Inr Lingered
      else if s = ''no_report'' then Inr NoReport
      else if s = ''interrupted'' then Inr Interrupted
      else if s = ''daemon_stopped'' then Inr DaemonStopped
      else if s = ''paused'' then Inr Paused
      else if s = ''claude_settings_rejected'' then Inr ClaudeSettingsRejected
      else if s = ''claude_settings_unconfirmed'' then Inr ClaudeSettingsUnconfirmed
      else Inl s)"

section \<open>Rows\<close>

record session_row =
  sr_id :: string
  sr_task_id :: string
  sr_stage :: string
  sr_role :: string
  sr_cli_adapter :: string
  sr_model :: string
  sr_adapter_session_id :: "string option"
  sr_status :: string
  sr_end_reason :: "string option"
  sr_resumed_from :: "string option"
  sr_started_at :: time
  sr_ended_at :: "time option"
  sr_lap :: "int option"

record session =
  se_id :: string
  se_task_id :: string
  se_stage :: string
  se_role :: string
  se_cli_adapter :: string
  se_model :: string
  se_adapter_session_id :: "string option"
  se_status :: session_status
  se_end_reason :: "session_end_reason option"
  se_resumed_from :: "string option"
  se_started_at :: time
  se_ended_at :: "time option"

text \<open>\<open>From<SessionRow>\<close>: strict on the status, lenient on the end reason.\<close>

definition session_of_row :: "session_row \<Rightarrow> session option" where
  "session_of_row r =
     (case parse_status (sr_status r) of
        Inl e \<Rightarrow> None
      | Inr st \<Rightarrow> Some
          \<lparr>se_id = sr_id r, se_task_id = sr_task_id r, se_stage = sr_stage r, se_role = sr_role r,
           se_cli_adapter = sr_cli_adapter r, se_model = sr_model r,
           se_adapter_session_id = sr_adapter_session_id r, se_status = st,
           se_end_reason = Option.bind (sr_end_reason r)
             (\<lambda>t. case parse_end_reason t of Inl e \<Rightarrow> None | Inr reason \<Rightarrow> Some reason),
           se_resumed_from = sr_resumed_from r, se_started_at = sr_started_at r,
           se_ended_at = sr_ended_at r\<rparr>)"

type_synonym sessions = "session_row list"

definition row_of :: "sessions \<Rightarrow> string \<Rightarrow> session_row option" where
  "row_of db id' = find (\<lambda>r. sr_id r = id') db"

section \<open>Creating\<close>

record new_session =
  ns_task_id :: string
  ns_stage :: string
  ns_role :: string
  ns_cli_adapter :: string
  ns_model :: string

record resumed_from =
  rf_session_id :: string
  rf_adapter_session_id :: string

text \<open>
  The one INSERT. \<open>entries\<close> is the number of events that count as entries of the stage; a resumed
  session has the lap of the session it resumes.
\<close>

definition create_inner ::
  "string \<Rightarrow> time \<Rightarrow> nat \<Rightarrow> new_session \<Rightarrow> resumed_from option \<Rightarrow> sessions \<Rightarrow> sessions option"
where
  "create_inner id' now entries new source db =
     (if row_of db id' \<noteq> None then None
      else if (case source of None \<Rightarrow> False | Some f \<Rightarrow> row_of db (rf_session_id f) = None) then None
      else Some (db @
        [\<lparr>sr_id = id', sr_task_id = ns_task_id new, sr_stage = ns_stage new, sr_role = ns_role new,
          sr_cli_adapter = ns_cli_adapter new, sr_model = ns_model new,
          sr_adapter_session_id = map_option rf_adapter_session_id source,
          sr_status = show_status Active, sr_end_reason = None,
          sr_resumed_from = map_option rf_session_id source, sr_started_at = now, sr_ended_at = None,
          sr_lap = (case source of
                      Some f \<Rightarrow> Option.bind (row_of db (rf_session_id f)) sr_lap
                    | None \<Rightarrow> Some (int (max 1 entries)))\<rparr>]))"

definition create_session :: "string \<Rightarrow> time \<Rightarrow> nat \<Rightarrow> new_session \<Rightarrow> sessions \<Rightarrow> sessions option" where
  "create_session id' now entries new db = create_inner id' now entries new None db"

definition create_resumed ::
  "string \<Rightarrow> time \<Rightarrow> nat \<Rightarrow> new_session \<Rightarrow> resumed_from \<Rightarrow> sessions \<Rightarrow> sessions option"
where
  "create_resumed id' now entries new source db = create_inner id' now entries new (Some source) db"

section \<open>Reading\<close>

text \<open>
  resume_chain_len: \<open>for walked in 0..limit\<close>, following resumed_from; a missing row has no parent.
\<close>

function walk_chain :: "sessions \<Rightarrow> nat \<Rightarrow> nat \<Rightarrow> string \<Rightarrow> nat" where
  "walk_chain db limit walked current =
     (if walked < limit then
        (case Option.bind (row_of db current) sr_resumed_from of
           Some parent \<Rightarrow> walk_chain db limit (Suc walked) parent
         | None \<Rightarrow> walked)
      else limit)"
  by pat_completeness auto
termination by (relation "measure (\<lambda>(db, limit, walked, current). limit - walked)") auto

declare walk_chain.simps [simp del]

definition resume_chain_len :: "sessions \<Rightarrow> string \<Rightarrow> nat \<Rightarrow> nat" where
  "resume_chain_len db session_id limit = walk_chain db limit 0 session_id"

definition get_session :: "sessions \<Rightarrow> string \<Rightarrow> session option option" where
  "get_session db id' = (case row_of db id' of None \<Rightarrow> Some None | Some r \<Rightarrow> map_option Some (session_of_row r))"

text \<open>ORDER BY started_at DESC, id DESC LIMIT 1.\<close>

definition newer :: "session_row \<Rightarrow> session_row \<Rightarrow> bool" where
  "newer a b = (sr_started_at a > sr_started_at b \<or> (sr_started_at a = sr_started_at b \<and> sr_id a > sr_id b))"

fun newest :: "session_row list \<Rightarrow> session_row option" where
  "newest [] = None"
| "newest (r # rs) = (case newest rs of None \<Rightarrow> Some r | Some b \<Rightarrow> Some (if newer r b then r else b))"

definition get_current_for_stage :: "sessions \<Rightarrow> string \<Rightarrow> string \<Rightarrow> session option option" where
  "get_current_for_stage db task_id stage =
     (case newest (filter (\<lambda>r. sr_task_id r = task_id \<and> sr_stage r = stage) db) of
        None \<Rightarrow> Some None
      | Some r \<Rightarrow> map_option Some (session_of_row r))"

definition lap :: "sessions \<Rightarrow> string \<Rightarrow> int option" where
  "lap db session_id = Option.bind (row_of db session_id) sr_lap"

section \<open>Updating\<close>

definition update_row :: "string \<Rightarrow> (session_row \<Rightarrow> session_row) \<Rightarrow> sessions \<Rightarrow> sessions" where
  "update_row id' f db = map (\<lambda>r. if sr_id r = id' then f r else r) db"

definition set_adapter_session_id :: "string \<Rightarrow> string \<Rightarrow> sessions \<Rightarrow> sessions" where
  "set_adapter_session_id id' adapter db = update_row id' (\<lambda>r. r\<lparr>sr_adapter_session_id := Some adapter\<rparr>) db"

definition update_status ::
  "string \<Rightarrow> session_status \<Rightarrow> time option \<Rightarrow> session_end_reason option \<Rightarrow> sessions \<Rightarrow> sessions"
where
  "update_status id' status ended_at end_reason db =
     update_row id' (\<lambda>r. r\<lparr>sr_status := show_status status, sr_ended_at := ended_at,
                          sr_end_reason := map_option show_end_reason end_reason\<rparr>) db"

text \<open>The two UPDATEs in turn, with the number of rows they changed.\<close>

definition recover_stale_active_sessions :: "time \<Rightarrow> sessions \<Rightarrow> sessions \<times> nat" where
  "recover_stale_active_sessions now db =
     (let stale = \<lambda>r. sr_status r = show_status Active;
          idled = length (filter (\<lambda>r. stale r \<and> sr_adapter_session_id r \<noteq> None) db);
          db = map (\<lambda>r. if stale r \<and> sr_adapter_session_id r \<noteq> None
                        then r\<lparr>sr_status := show_status Idle\<rparr> else r) db;
          exited = length (filter (\<lambda>r. stale r \<and> sr_adapter_session_id r = None) db);
          db = map (\<lambda>r. if stale r \<and> sr_adapter_session_id r = None
                        then r\<lparr>sr_status := show_status Exited, sr_ended_at := Some now\<rparr> else r) db
      in (db, idled + exited))"

definition mark_daemon_stopped :: "time \<Rightarrow> string \<Rightarrow> sessions \<Rightarrow> sessions \<times> bool" where
  "mark_daemon_stopped now id' db =
     (let hit = \<lambda>r. sr_id r = id' \<and> sr_status r = ''idle'' \<and> sr_end_reason r = None
      in (map (\<lambda>r. if hit r then r\<lparr>sr_status := ''exited'', sr_end_reason := Some ''daemon_stopped'',
                                  sr_ended_at := Some now\<rparr> else r) db,
          list_ex hit db))"

text \<open>The foreign key of resumed_from keeps a resumed session's row.\<close>

definition delete_session :: "string \<Rightarrow> sessions \<Rightarrow> (sessions \<times> bool) option" where
  "delete_session id' db =
     (if list_ex (\<lambda>r. sr_resumed_from r = Some id' \<and> sr_id r \<noteq> id') db then None
      else Some (filter (\<lambda>r. sr_id r \<noteq> id') db, row_of db id' \<noteq> None))"

section \<open>Reachable tables\<close>

text \<open>Any sequence of the module's writes, from the empty table.\<close>

inductive session_table :: "sessions \<Rightarrow> bool" where
  empty: "session_table []"
| created: "session_table db \<Longrightarrow> create_inner id' now entries new source db = Some db' \<Longrightarrow> session_table db'"
| status_set: "session_table db \<Longrightarrow> session_table (update_status id' status ended_at end_reason db)"
| adapter_set: "session_table db \<Longrightarrow> session_table (set_adapter_session_id id' adapter db)"
| recovered: "session_table db \<Longrightarrow> session_table (fst (recover_stale_active_sessions now db))"
| stopped: "session_table db \<Longrightarrow> session_table (fst (mark_daemon_stopped now id' db))"
| deleted: "session_table db \<Longrightarrow> delete_session id' db = Some (db', b) \<Longrightarrow> session_table db'"

section \<open>Lemmas\<close>

lemma parse_show_status [simp]: "parse_status (show_status s) = Inr s"
  by (cases s) (simp_all add: parse_status_def)

lemma parse_show_end_reason [simp]: "parse_end_reason (show_end_reason r) = Inr r"
  by (cases r) (simp_all add: parse_end_reason_def)

lemma row_of_Some: "row_of db i = Some r \<Longrightarrow> sr_id r = i \<and> r \<in> set db"
  by (auto simp: row_of_def find_Some_iff)

lemma row_of_None: "row_of db i = None \<longleftrightarrow> i \<notin> sr_id ` set db"
  by (auto simp: row_of_def find_None_iff)

lemma row_of_append:
  "row_of (db @ [r]) i = (case row_of db i of Some q \<Rightarrow> Some q | None \<Rightarrow> if sr_id r = i then Some r else None)"
  by (induction db) (auto simp: row_of_def)

text \<open>What a write that keeps the ids and the parents leaves alone.\<close>

definition readable :: "session_row \<Rightarrow> bool" where
  "readable r = (is_ok (parse_status (sr_status r)) \<and>
     (case sr_end_reason r of None \<Rightarrow> True | Some t \<Rightarrow> is_ok (parse_end_reason t)))"

definition parents_in :: "string set \<Rightarrow> session_row \<Rightarrow> bool" where
  "parents_in ids r = (case sr_resumed_from r of None \<Rightarrow> True | Some p \<Rightarrow> p \<in> ids)"

definition table_ok :: "sessions \<Rightarrow> bool" where
  "table_ok db = (distinct (map sr_id db) \<and> list_all readable db \<and>
     list_all (parents_in (sr_id ` set db)) db)"

definition keeps_links :: "(session_row \<Rightarrow> session_row) \<Rightarrow> bool" where
  "keeps_links f = (\<forall>r. sr_id (f r) = sr_id r \<and> sr_resumed_from (f r) = sr_resumed_from r
     \<and> (readable r \<longrightarrow> readable (f r)))"

lemma table_ok_map:
  assumes "table_ok db" and "keeps_links f"
  shows "table_ok (map f db)"
proof -
  have ids: "map sr_id (map f db) = map sr_id db"
    using assms(2) by (simp add: keeps_links_def)
  then have "sr_id ` set (map f db) = sr_id ` set db" by (metis set_map)
  with assms ids show ?thesis
    by (simp add: table_ok_def keeps_links_def parents_in_def list_all_iff del: map_map)
qed

lemma keeps_links_update_row:
  "(\<And>r. sr_id (f r) = sr_id r \<and> sr_resumed_from (f r) = sr_resumed_from r \<and> (readable r \<longrightarrow> readable (f r)))
     \<Longrightarrow> keeps_links (\<lambda>r. if sr_id r = i then f r else r)"
  by (simp add: keeps_links_def)

lemma readable_texts:
  "is_ok (parse_status ''idle'')" "is_ok (parse_status ''exited'')" "is_ok (parse_status ''active'')"
  "is_ok (parse_end_reason ''daemon_stopped'')"
  by (simp_all add: parse_status_def parse_end_reason_def)

lemma recover_fst:
  "fst (recover_stale_active_sessions now db) =
     map (\<lambda>r. if sr_status r = ''active'' then
                if sr_adapter_session_id r \<noteq> None then r\<lparr>sr_status := ''idle''\<rparr>
                else r\<lparr>sr_status := ''exited'', sr_ended_at := Some now\<rparr>
              else r) db"
  by (induction db) (simp_all add: recover_stale_active_sessions_def Let_def)

lemma create_inner_ok:
  assumes "create_inner i now n new source db = Some db'"
  obtains r where "db' = db @ [r]" "sr_id r = i" "row_of db i = None"
    "sr_status r = ''active''" "sr_end_reason r = None"
    "sr_resumed_from r = map_option rf_session_id source"
    "sr_lap r = (case source of Some f \<Rightarrow> lap db (rf_session_id f) | None \<Rightarrow> Some (int (max 1 n)))"
    "\<forall>f. source = Some f \<longrightarrow> row_of db (rf_session_id f) \<noteq> None"
  using assms by (auto simp: create_inner_def lap_def split: if_splits option.splits)

lemma table_ok_create:
  assumes "table_ok db" and "create_inner i now n new source db = Some db'"
  shows "table_ok db'"
  using assms(2)
proof (cases rule: create_inner_ok)
  case (1 r)
  have "readable r" using 1 by (simp add: readable_def readable_texts)
  moreover have "parents_in (sr_id ` set db) r"
    using 1 by (cases source) (auto simp: parents_in_def row_of_None)
  ultimately show ?thesis
    using assms(1) 1 by (auto simp: table_ok_def row_of_None parents_in_def list_all_iff split: option.splits)
qed

lemma table_ok_delete:
  assumes "table_ok db" and "delete_session i db = Some (db', b)"
  shows "table_ok db'"
proof -
  have db': "db' = filter (\<lambda>r. sr_id r \<noteq> i) db"
    and free: "\<not> list_ex (\<lambda>r. sr_resumed_from r = Some i \<and> sr_id r \<noteq> i) db"
    using assms(2) by (auto simp: delete_session_def split: if_splits)
  have "parents_in (sr_id ` set db') r" if r: "r \<in> set db'" for r
  proof (cases "sr_resumed_from r")
    case (Some p)
    have "p \<in> sr_id ` set db"
      using assms(1) r Some by (auto simp: db' table_ok_def list_all_iff parents_in_def)
    moreover have "p \<noteq> i" using free r Some by (auto simp: db' list_ex_iff)
    ultimately show ?thesis using Some by (auto simp: db' parents_in_def)
  qed (simp add: parents_in_def)
  with assms(1) show ?thesis
    by (simp add: table_ok_def distinct_map_filter list_all_iff db')
qed

lemma session_table_ok: "session_table db \<Longrightarrow> table_ok db"
proof (induction rule: session_table.induct)
  case empty
  show ?case by (simp add: table_ok_def)
next
  case (status_set db i status ended_at end_reason)
  show ?case
    unfolding update_status_def update_row_def
    by (rule table_ok_map [OF status_set.IH keeps_links_update_row])
       (cases end_reason; simp add: readable_def)
next
  case (adapter_set db i adapter)
  show ?case
    unfolding set_adapter_session_id_def update_row_def
    by (rule table_ok_map [OF adapter_set.IH keeps_links_update_row]) (simp add: readable_def)
next
  case (recovered db now)
  show ?case
    unfolding recover_fst
    by (rule table_ok_map [OF recovered.IH]) (simp add: keeps_links_def readable_def readable_texts)
next
  case (stopped db now i)
  show ?case
    unfolding mark_daemon_stopped_def Let_def fst_conv
    by (rule table_ok_map [OF stopped.IH]) (simp add: keeps_links_def readable_def readable_texts)
qed (use table_ok_create table_ok_delete in blast)+

subsection \<open>Resume chains\<close>

text \<open>The number of resumes that led to a session, counted up to a bound.\<close>

fun chain :: "sessions \<Rightarrow> nat \<Rightarrow> string \<Rightarrow> nat" where
  "chain db 0 s = 0"
| "chain db (Suc n) s =
     (case Option.bind (row_of db s) sr_resumed_from of None \<Rightarrow> 0 | Some p \<Rightarrow> Suc (chain db n p))"

lemma walk_chain: "w \<le> limit \<Longrightarrow> walk_chain db limit w s = w + chain db (limit - w) s"
proof (induction db limit w s rule: walk_chain.induct)
  case (1 db limit w s)
  show ?case
  proof (cases "w < limit")
    case True
    then obtain n where n: "limit - w = Suc n" "limit - Suc w = n" "Suc w \<le> limit"
      by (metis Suc_diff_Suc Suc_leI)
    show ?thesis
    proof (cases "Option.bind (row_of db s) sr_resumed_from")
      case None
      then show ?thesis by (subst walk_chain.simps) (simp add: True n)
    next
      case (Some p)
      then show ?thesis using "1.IH" [OF True Some n(3)] True n by (subst walk_chain.simps) simp
    qed
  next
    case False
    then show ?thesis using "1.prems" by (subst walk_chain.simps) simp
  qed
qed

lemma resume_chain_len_chain: "resume_chain_len db s limit = chain db limit s"
  by (simp add: resume_chain_len_def walk_chain)

lemma chain_min: "m \<le> n \<Longrightarrow> chain db m s = min m (chain db n s)"
proof (induction db m s arbitrary: n rule: chain.induct)
  case (2 db m s)
  then obtain k where "n = Suc k" "m \<le> k" by (cases n) auto
  with 2 show ?case by (cases "Option.bind (row_of db s) sr_resumed_from") auto
qed simp

text \<open>A new row at the end does not change the chains of the sessions before it.\<close>

lemma chain_append:
  assumes "table_ok db" and "row_of db (sr_id r) = None" and "s \<in> sr_id ` set db"
  shows "chain (db @ [r]) n s = chain db n s"
  using assms(3)
proof (induction n arbitrary: s)
  case (Suc n)
  then obtain q where q: "row_of db s = Some q" by (cases "row_of db s") (auto simp: row_of_None)
  show ?case
  proof (cases "sr_resumed_from q")
    case (Some p)
    then have "p \<in> sr_id ` set db"
      using assms(1) row_of_Some [OF q] by (auto simp: table_ok_def list_all_iff parents_in_def)
    with Suc.IH q Some show ?thesis by (simp add: row_of_append)
  qed (simp add: q row_of_append)
qed simp

lemma chain_created:
  assumes "table_ok db" and "create_inner i now n new source db = Some db'"
  shows "chain db' m i = (case source of None \<Rightarrow> 0 | Some f \<Rightarrow> min m (Suc (chain db m (rf_session_id f))))
    \<and> (s \<in> sr_id ` set db \<longrightarrow> chain db' m s = chain db m s)"
  using assms(2)
proof (cases rule: create_inner_ok)
  case (1 r)
  have old: "s \<in> sr_id ` set db \<Longrightarrow> chain db' k s = chain db k s" for k s
    using chain_append [OF assms(1)] 1 by simp
  have "chain db' m i = (case source of None \<Rightarrow> 0 | Some f \<Rightarrow> min m (Suc (chain db m (rf_session_id f))))"
  proof (cases m)
    case (Suc k)
    have "rf_session_id f \<in> sr_id ` set db" if "source = Some f" for f
      using 1 that row_of_None by blast
    then show ?thesis
      using 1 Suc old chain_min [of k m db]
      by (auto simp: row_of_append min_def split: option.splits)
  qed (simp split: option.split)
  with old show ?thesis by blast
qed

section \<open>Properties\<close>

text \<open>
  Every row the module ever writes reads back: over any sequence of its writes, no row's status
  panics the reader and no end reason is dropped as unknown.
\<close>

theorem session_rows_read_back:
  assumes "session_table db"
  shows "list_all (\<lambda>r. case session_of_row r of
             None \<Rightarrow> False
           | Some s \<Rightarrow> show_status (se_status s) = sr_status r
               \<and> map_option show_end_reason (se_end_reason s) = sr_end_reason r) db"
proof -
  have show_parse: "parse_status t = Inr st \<Longrightarrow> show_status st = t" for t st
    by (auto simp: parse_status_def split: if_splits)
  have show_parse_reason: "parse_end_reason t = Inr e \<Longrightarrow> show_end_reason e = t" for t e
    by (auto simp: parse_end_reason_def split: if_splits)
  show ?thesis
    unfolding list_all_iff
  proof
    fix r assume "r \<in> set db"
    then have r: "readable r" using session_table_ok [OF assms] by (simp add: table_ok_def list_all_iff)
    then obtain st where st: "parse_status (sr_status r) = Inr st" by (auto simp: readable_def is_ok_iff)
    have e: "map_option show_end_reason (Option.bind (sr_end_reason r)
        (\<lambda>t. case parse_end_reason t of Inl e \<Rightarrow> None | Inr reason \<Rightarrow> Some reason)) = sr_end_reason r"
      using r show_parse_reason by (auto simp: readable_def is_ok_iff split: option.splits)
    show "case session_of_row r of None \<Rightarrow> False
      | Some s \<Rightarrow> show_status (se_status s) = sr_status r
          \<and> map_option show_end_reason (se_end_reason s) = sr_end_reason r"
      using st e show_parse [OF st] by (simp add: session_of_row_def)
  qed
qed

text \<open>
  C39. resume_chain_len counts resumes: the session a resume creates is one link further from its
  chain's start than the session it continues, up to the caller's limit, a fresh session starts
  a chain, and no earlier session's count changes. A resumed session keeps the lap of its source.
\<close>

theorem resume_chain_counts:
  assumes "session_table db" and "create_inner id' now entries new source db = Some db'"
    and "s \<in> sr_id ` set db"
  shows "resume_chain_len db' id' limit =
      (case source of None \<Rightarrow> 0
       | Some f \<Rightarrow> min limit (Suc (resume_chain_len db (rf_session_id f) limit)))
    \<and> lap db' id' = (case source of None \<Rightarrow> Some (int (max 1 entries)) | Some f \<Rightarrow> lap db (rf_session_id f))
    \<and> resume_chain_len db' s limit = resume_chain_len db s limit"
proof -
  have "lap db' id' = (case source of None \<Rightarrow> Some (int (max 1 entries)) | Some f \<Rightarrow> lap db (rf_session_id f))"
    using assms(2) by (cases rule: create_inner_ok) (simp add: lap_def row_of_append split: option.split)
  with chain_created [OF session_table_ok [OF assms(1)] assms(2), of limit s] assms(3)
  show ?thesis by (simp add: resume_chain_len_chain split: option.split)
qed

text \<open>
  After a restart's recovery no session is active: those the CLI can resume are idle, the
  others exited, with the time of the recovery; and recovering again changes nothing.
\<close>

theorem recovery_leaves_none_active:
  "list_all (\<lambda>r. sr_status r \<noteq> ''active'') (fst (recover_stale_active_sessions now db))
   \<and> recover_stale_active_sessions later (fst (recover_stale_active_sessions now db))
       = (fst (recover_stale_active_sessions now db), 0)
   \<and> snd (recover_stale_active_sessions now db) = length (filter (\<lambda>r. sr_status r = ''active'') db)"
proof -
  have stable: "list_all (\<lambda>r. sr_status r \<noteq> ''active'') xs \<Longrightarrow> recover_stale_active_sessions later xs = (xs, 0)" for xs
    by (induction xs) (simp_all add: recover_stale_active_sessions_def Let_def)
  have none: "list_all (\<lambda>r. sr_status r \<noteq> ''active'') (fst (recover_stale_active_sessions now db))"
    by (auto simp: recover_fst list_all_iff)
  have "snd (recover_stale_active_sessions now db) = length (filter (\<lambda>r. sr_status r = ''active'') db)"
    by (induction db) (auto simp: recover_stale_active_sessions_def Let_def)
  with stable [OF none] none show ?thesis by simp
qed

text \<open>Two sessions of one stage: the second continues the first, which a usage limit cut off.\<close>

definition example_new :: new_session where
  "example_new = \<lparr>ns_task_id = ''t'', ns_stage = ''code'', ns_role = ''coder'', ns_cli_adapter = ''claude'',
     ns_model = ''m''\<rparr>"

definition example_session_row :: session_row where
  "example_session_row =
     \<lparr>sr_id = ''s1'', sr_task_id = ''t'', sr_stage = ''code'', sr_role = ''coder'', sr_cli_adapter = ''claude'',
      sr_model = ''m'', sr_adapter_session_id = None, sr_status = ''active'', sr_end_reason = None,
      sr_resumed_from = None, sr_started_at = 1, sr_ended_at = None, sr_lap = Some 2\<rparr>"

definition example_sessions :: sessions where
  "example_sessions = update_status ''s1'' Idle (Some 5) (Some Interrupted)
     (set_adapter_session_id ''s1'' ''a1'' [example_session_row])"

definition example_source :: resumed_from where
  "example_source = \<lparr>rf_session_id = ''s1'', rf_adapter_session_id = ''a1''\<rparr>"

lemma example_created: "create_inner ''s1'' 1 2 example_new None [] = Some [example_session_row]"
  by (simp add: create_inner_def row_of_def example_session_row_def example_new_def)

lemma example_sessions_table: "session_table example_sessions"
  unfolding example_sessions_def
  by (intro session_table.status_set session_table.adapter_set)
     (rule session_table.created [OF session_table.empty example_created])

lemma example_ids: "map sr_id example_sessions = [''s1'']" "row_of example_sessions ''s2'' = None"
    "Option.bind (row_of example_sessions ''s1'') sr_resumed_from = None"
    "Option.bind (row_of example_sessions ''s1'') sr_lap = Some 2"
  by (simp_all add: example_sessions_def update_status_def set_adapter_session_id_def update_row_def
      example_session_row_def row_of_def)

lemma example_resumed_create:
  "create_inner ''s2'' 7 2 example_new (Some example_source) example_sessions \<noteq> None"
proof -
  have "row_of example_sessions ''s1'' \<noteq> None"
    using example_ids(4) by (cases "row_of example_sessions ''s1''") simp_all
  then show ?thesis by (simp add: create_inner_def example_ids example_source_def)
qed

theorem session_rows_read_back_witness:
  "list_all (\<lambda>r. case session_of_row r of
       None \<Rightarrow> False
     | Some s \<Rightarrow> show_status (se_status s) = sr_status r
         \<and> map_option show_end_reason (se_end_reason s) = sr_end_reason r) example_sessions
   \<and> map sr_id example_sessions = [''s1'']"
  using session_rows_read_back [OF example_sessions_table] example_ids by simp

theorem resume_chain_counts_witness:
  "\<exists>db. create_inner ''s2'' 7 2 example_new (Some example_source) example_sessions = Some db
     \<and> resume_chain_len db ''s2'' 3 = 1 \<and> lap db ''s2'' = Some 2"
proof -
  obtain db where db: "create_inner ''s2'' 7 2 example_new (Some example_source) example_sessions = Some db"
    using example_resumed_create by blast
  have "sr_id ` set example_sessions = {''s1''}"
    using arg_cong [OF example_ids(1), of set] by simp
  then have "''s1'' \<in> sr_id ` set example_sessions" by simp
  moreover have "resume_chain_len example_sessions ''s1'' 3 = 0"
    unfolding resume_chain_len_chain by (simp add: example_ids numeral_3_eq_3)
  moreover have "lap example_sessions ''s1'' = Some 2" by (simp add: example_ids lap_def)
  ultimately show ?thesis
    using resume_chain_counts [OF example_sessions_table db, of "''s1''" 3] db
    by (simp add: example_source_def)
qed

end
