(* ===== verification/Roles.thy ===== *)
theory Roles
  imports Resolve
begin

text \<open>
  Which CLI, model, prompt and settings a role's turn runs with: chocofactoryd/src/role_config.rs
  (three layers, task config over workflow over global config; two for claude_settings),
  global_config.rs (the loaded config.yaml and the keys it may not set), and the checks of a
  role against its adapter (adapter/mod.rs). An adapter is the pair of its two validators, since
  the code reaches it through a trait; the registry is the map of adapters by name. The YAML
  parser and file reads are parameters.
\<close>

section \<open>Configuration\<close>

record global_role_config =
  gr_cli :: "string option"
  gr_model :: "string option"
  gr_system_prompt_file :: "string option"
  gr_claude_settings :: claude_settings

record global_config =
  gc_roles :: "global_role_config imap"
  gc_max_agents :: "u32 option"

record raw_global_role_config =
  rg_cli :: "string option"
  rg_model :: "string option"
  rg_system_prompt_file :: "string option"
  rg_claude_settings :: "yaml option"

record raw_global_config =
  rg_roles :: "raw_global_role_config imap"
  rg_max_agents :: "u32 option"

definition WORKFLOW_ONLY_CLAUDE_SETTINGS :: "string list" where
  "WORKFLOW_ONLY_CLAUDE_SETTINGS =
     [''hooks'', ''disableAllHooks'', ''enabledPlugins'', ''extraKnownMarketplaces'', ''pluginConfigs'',
      ''outputStyle'', ''claudeMdExcludes'', ''enableAllProjectMcpServers'', ''enabledMcpjsonServers'',
      ''disabledMcpjsonServers'']"

record workflow_only_key_error =
  wk_role :: string
  wk_keys :: "string list"

definition show_workflow_only_key_error :: "workflow_only_key_error \<Rightarrow> string" where
  "show_workflow_only_key_error e =
     ''role '' @ squote (wk_role e) @ '' sets claude_settings '' @ [CHR 0x27]
     @ join ([CHR 0x27] @ '', '' @ [CHR 0x27]) (wk_keys e) @ [CHR 0x27]
     @ '' in the global config, which only a workflow file may set''"

definition check_workflow_only_claude_settings ::
  "string \<Rightarrow> claude_settings \<Rightarrow> (workflow_only_key_error, unit) result"
where
  "check_workflow_only_claude_settings role settings =
     (let keys = sort (filter (\<lambda>key. map_of settings key \<noteq> None) WORKFLOW_ONLY_CLAUDE_SETTINGS)
      in if keys = [] then Inr () else Inl \<lparr>wk_role = role, wk_keys = keys\<rparr>)"

datatype global_config_error =
    GlobalIo string string
  | GlobalYaml string string
  | GlobalInvalidFileReference string string
  | GlobalMissingReferencedFile string string
  | GlobalInvalidClaudeSettings string string shape_error

definition show_global_config_error :: "global_config_error \<Rightarrow> string" where
  "show_global_config_error e =
     (case e of
        GlobalIo p err \<Rightarrow> ''failed to read global config '' @ p @ '': '' @ err
      | GlobalYaml p err \<Rightarrow> ''failed to parse global config '' @ p @ '': '' @ err
      | GlobalInvalidFileReference role v \<Rightarrow>
          ''role '' @ squote role @ '' references system_prompt_file '' @ squote v
          @ '', which is an absolute path or escapes the global config'' @ [CHR 0x27] @ ''s directory''
      | GlobalInvalidClaudeSettings p role problem \<Rightarrow>
          p @ '': role '' @ squote role @ '': claude_settings '' @ show_shape_error problem
      | GlobalMissingReferencedFile role p \<Rightarrow>
          ''role '' @ squote role @ '' references system_prompt_file '' @ squote p
          @ '', which does not exist'')"

definition load_global_role ::
  "externals \<Rightarrow> string \<Rightarrow> string \<Rightarrow> string \<times> raw_global_role_config \<Rightarrow>
   (global_config_error, string \<times> global_role_config) result"
where
  "load_global_role X config_path base_dir entry =
     (case entry of (name, role) \<Rightarrow>
       and_then
         (opt_res (\<lambda>rel. map_err (\<lambda>err. case err of
              Escapes \<Rightarrow> GlobalInvalidFileReference name rel
            | MissingFile p \<Rightarrow> GlobalMissingReferencedFile name p)
            (resolve_relative X base_dir rel)) (rg_system_prompt_file role))
         (\<lambda>system_prompt_file.
       and_then (map_err (GlobalInvalidClaudeSettings config_path name) (from_yaml (rg_claude_settings role)))
         (\<lambda>claude_settings.
           Inr (name, \<lparr>gr_cli = rg_cli role, gr_model = rg_model role,
                       gr_system_prompt_file = system_prompt_file,
                       gr_claude_settings = claude_settings\<rparr>))))"

text \<open>What reading config.yaml found, and \<open>GlobalConfig::load\<close>: a missing file is the default.\<close>

datatype 'a file_read = FileMissing | ReadFailed string | FileText 'a

definition load_global_config ::
  "externals \<Rightarrow> string \<Rightarrow> string \<Rightarrow> (string \<Rightarrow> (string, raw_global_config) result) \<Rightarrow> string file_read \<Rightarrow>
   (global_config_error, global_config) result"
where
  "load_global_config X config_path base_dir parse_yaml contents =
     (case contents of
        FileMissing \<Rightarrow> Inr \<lparr>gc_roles = [], gc_max_agents = None\<rparr>
      | ReadFailed err \<Rightarrow> Inl (GlobalIo config_path err)
      | FileText raw \<Rightarrow>
          and_then (map_err (GlobalYaml config_path) (parse_yaml raw)) (\<lambda>parsed.
          and_then (map_res (load_global_role X config_path base_dir) (rg_roles parsed)) (\<lambda>roles.
            Inr \<lparr>gc_roles = roles,
                 gc_max_agents = Option.bind (rg_max_agents parsed) (\<lambda>n. if n > 0 then Some n else None)\<rparr>)))"

section \<open>Resolving a role\<close>

datatype role_config_error =
    MissingField string string
  | SystemPromptIo string
  | WorkflowOnlyClaudeSettings workflow_only_key_error

fun show_role_config_error :: "role_config_error \<Rightarrow> string" where
  "show_role_config_error (MissingField role field) =
     ''role '' @ squote role @ '' has no '' @ squote field
     @ '' from task config, workflow definition, or global config''"
| "show_role_config_error (SystemPromptIo err) = ''failed to read resolved system prompt file: '' @ err"
| "show_role_config_error (WorkflowOnlyClaudeSettings err) = show_workflow_only_key_error err"

definition opt_or :: "'a option \<Rightarrow> 'a option \<Rightarrow> 'a option" where
  "opt_or a b = (case a of None \<Rightarrow> b | Some x \<Rightarrow> Some x)"

definition resolve_string_field ::
  "json option \<Rightarrow> string \<Rightarrow> string option \<Rightarrow> string option \<Rightarrow> string option"
where
  "resolve_string_field task_role key workflow_def_value global_value =
     opt_or (opt_or (Option.bind (Option.bind task_role (jget key)) as_str) workflow_def_value) global_value"

definition task_role_of :: "json \<Rightarrow> string \<Rightarrow> json option" where
  "task_role_of task_config role_name = Option.bind (jget ''roles'' task_config) (jget role_name)"

definition resolve_cli ::
  "string \<Rightarrow> role_def \<Rightarrow> global_config \<Rightarrow> json \<Rightarrow> (role_config_error, string) result"
where
  "resolve_cli role_name role_def global task_config =
     (case resolve_string_field (task_role_of task_config role_name) ''cli'' (rd_cli role_def)
             (Option.bind (map_of (gc_roles global) role_name) gr_cli) of
        None \<Rightarrow> Inl (MissingField role_name ''cli'')
      | Some cli \<Rightarrow> Inr cli)"

definition resolve_model ::
  "string \<Rightarrow> role_def \<Rightarrow> global_config \<Rightarrow> json \<Rightarrow> (role_config_error, string) result"
where
  "resolve_model role_name role_def global task_config =
     (case resolve_string_field (task_role_of task_config role_name) ''model'' (rd_model role_def)
             (Option.bind (map_of (gc_roles global) role_name) gr_model) of
        None \<Rightarrow> Inl (MissingField role_name ''model'')
      | Some model \<Rightarrow> Inr model)"

definition resolve_claude_settings ::
  "string \<Rightarrow> role_def \<Rightarrow> global_config \<Rightarrow> (role_config_error, claude_settings) result"
where
  "resolve_claude_settings role_name role_def global =
     and_then
       (case map_of (gc_roles global) role_name of
          Some role \<Rightarrow>
            and_then (map_err WorkflowOnlyClaudeSettings
                (check_workflow_only_claude_settings role_name (gr_claude_settings role)))
              (\<lambda>_. Inr (gr_claude_settings role))
        | None \<Rightarrow> Inr [])
       (\<lambda>merged. Inr (drop_null_keys (overlay merged (rd_claude_settings role_def))))"

text \<open>RoleConfig, what an adapter starts a turn with.\<close>

record role_config =
  rc_cwd :: string
  rc_model :: "string option"
  rc_system_prompt :: "string option"
  rc_sandboxed :: bool
  rc_report_outcomes :: "string list"
  rc_report_sections :: "string list"
  rc_isolation :: isolation
  rc_disallowed_tools :: "role_tool list"
  rc_role :: string
  rc_project_id :: "string option"
  rc_claude_settings :: claude_settings

record resolved_role_config =
  rr_cfg_cli :: string
  rr_cfg_model :: string
  rr_cfg_role_config :: role_config

definition resolve_system_prompt ::
  "(string \<Rightarrow> (string, string) result) \<Rightarrow> json option \<Rightarrow> role_def \<Rightarrow> global_role_config option \<Rightarrow>
   (role_config_error, string option) result"
where
  "resolve_system_prompt read task_role role_def global_role =
     (case Option.bind (Option.bind task_role (jget ''system_prompt'')) as_str of
        Some t \<Rightarrow> Inr (Some t)
      | None \<Rightarrow>
          (case rd_system_prompt_file role_def of
             Some file \<Rightarrow> and_then (map_err SystemPromptIo (read file)) (\<lambda>t. Inr (Some t))
           | None \<Rightarrow>
               (case Option.bind global_role gr_system_prompt_file of
                  Some file \<Rightarrow> and_then (map_err SystemPromptIo (read file)) (\<lambda>t. Inr (Some t))
                | None \<Rightarrow> Inr None)))"

definition resolve_role_config ::
  "(string \<Rightarrow> (string, string) result) \<Rightarrow> string \<Rightarrow> role_def \<Rightarrow> global_config \<Rightarrow> json \<Rightarrow> string \<Rightarrow> bool \<Rightarrow>
   string list \<times> string list \<Rightarrow> string \<Rightarrow> (role_config_error, resolved_role_config) result"
where
  "resolve_role_config read role_name role_def global task_config cwd sandboxed report project_id =
     and_then (resolve_cli role_name role_def global task_config) (\<lambda>cli.
     and_then (resolve_model role_name role_def global task_config) (\<lambda>model.
     and_then (resolve_claude_settings role_name role_def global) (\<lambda>claude_settings.
     and_then (resolve_system_prompt read (task_role_of task_config role_name) role_def
                 (map_of (gc_roles global) role_name)) (\<lambda>system_prompt.
       Inr \<lparr>rr_cfg_cli = cli, rr_cfg_model = model,
            rr_cfg_role_config =
              \<lparr>rc_cwd = cwd, rc_model = Some model, rc_system_prompt = system_prompt,
               rc_sandboxed = sandboxed, rc_report_outcomes = fst report, rc_report_sections = snd report,
               rc_isolation = rd_isolation role_def, rc_disallowed_tools = rd_disallowed_tools role_def,
               rc_role = role_name, rc_project_id = Some project_id,
               rc_claude_settings = claude_settings\<rparr>\<rparr>))))"

section \<open>Checks against the adapters\<close>

record adapter =
  ad_validate_role :: "string \<Rightarrow> isolation \<Rightarrow> claude_settings \<Rightarrow> (string, unit) result"
  ad_validate_model :: "string \<Rightarrow> string \<Rightarrow> (string, unit) result"

text \<open>A BTreeMap by name, so the names come sorted.\<close>

type_synonym registry = "(string \<times> adapter) list"

record unknown_cli_error =
  uc_role :: "string option"
  uc_cli :: string
  uc_known :: "string list"

definition registry_names :: "registry \<Rightarrow> string list" where
  "registry_names reg = map fst reg"

definition registry_lookup ::
  "registry \<Rightarrow> string option \<Rightarrow> string \<Rightarrow> (unknown_cli_error, adapter) result"
where
  "registry_lookup reg role cli =
     (case map_of reg cli of
        Some a \<Rightarrow> Inr a
      | None \<Rightarrow> Inl \<lparr>uc_role = role, uc_cli = cli, uc_known = registry_names reg\<rparr>)"

definition check_task_config_clis :: "json \<Rightarrow> registry \<Rightarrow> (unknown_cli_error, unit) result" where
  "check_task_config_clis config reg =
     (case Option.bind (jget ''roles'' config) as_object of
        None \<Rightarrow> Inr ()
      | Some roles \<Rightarrow>
          for_each (\<lambda>name.
              case Option.bind (Option.bind (map_of roles name) (jget ''cli'')) as_str of
                None \<Rightarrow> Inr ()
              | Some cli \<Rightarrow> and_then (registry_lookup reg (Some name) cli) (\<lambda>_. Inr ()))
            (sort (map fst roles)))"

text \<open>One role's checks; \<open>None\<close> of a cli or an adapter is the code's \<open>continue\<close>.\<close>

definition check_task_config_role ::
  "json \<Rightarrow> global_config \<Rightarrow> registry \<Rightarrow> string \<Rightarrow> role_def \<Rightarrow> (string, unit) result"
where
  "check_task_config_role task_config global reg name role =
     and_then (map_err show_role_config_error (resolve_claude_settings name role global))
       (\<lambda>claude_settings.
        case resolve_cli name role global task_config of
          Inl e \<Rightarrow> Inr ()
        | Inr cli \<Rightarrow>
            (case registry_lookup reg (Some name) cli of
               Inl e \<Rightarrow> Inr ()
             | Inr a \<Rightarrow>
                 and_then (ad_validate_role a name (rd_isolation role) claude_settings) (\<lambda>_.
                   case resolve_model name role global task_config of
                     Inl e \<Rightarrow> Inr ()
                   | Inr model \<Rightarrow> ad_validate_model a name model)))"

definition check_task_config_roles ::
  "json \<Rightarrow> workflow_definition \<Rightarrow> global_config \<Rightarrow> registry \<Rightarrow> string list option \<Rightarrow> (string, unit) result"
where
  "check_task_config_roles task_config d global reg only =
     for_each (\<lambda>name. case map_of (wd_roles d) name of
          None \<Rightarrow> Inr ()
        | Some role \<Rightarrow> check_task_config_role task_config global reg name role)
       (sort (filter (\<lambda>name. case only of None \<Rightarrow> True | Some ns \<Rightarrow> name \<in> set ns) (ikeys (wd_roles d))))"

datatype startup_role_error =
    StartupUnknownCli unknown_cli_error
  | StartupRoleRejected string
  | StartupWorkflowOnly workflow_only_key_error

definition check_global_role ::
  "registry \<Rightarrow> string \<Rightarrow> global_role_config \<Rightarrow> (startup_role_error, unit) result"
where
  "check_global_role reg name role =
     and_then (map_err StartupWorkflowOnly
         (check_workflow_only_claude_settings name (gr_claude_settings role))) (\<lambda>_.
       case gr_cli role of
         None \<Rightarrow> Inr ()
       | Some cli \<Rightarrow>
           and_then (map_err StartupUnknownCli (registry_lookup reg (Some name) cli)) (\<lambda>a.
           and_then (map_err StartupRoleRejected
               (ad_validate_role a name InheritOperatorConfig (gr_claude_settings role))) (\<lambda>_.
             case gr_model role of
               None \<Rightarrow> Inr ()
             | Some model \<Rightarrow> map_err StartupRoleRejected (ad_validate_model a name model))))"

text \<open>The daemon's start-up check; a config that cannot be loaded is logged and passes.\<close>

definition check_global_roles ::
  "registry \<Rightarrow> (global_config_error, global_config) result option \<Rightarrow> (startup_role_error, unit) result"
where
  "check_global_roles reg loaded =
     (case loaded of
        None \<Rightarrow> Inr ()
      | Some (Inl err) \<Rightarrow> Inr ()
      | Some (Inr config) \<Rightarrow>
          for_each (\<lambda>name. case map_of (gc_roles config) name of
              None \<Rightarrow> Inr ()
            | Some role \<Rightarrow> check_global_role reg name role)
            (sort (ikeys (gc_roles config))))"

section \<open>Lemmas\<close>

lemma check_workflow_only_ok:
  "check_workflow_only_claude_settings role settings = Inr u \<longleftrightarrow>
     (\<forall>k\<in>set WORKFLOW_ONLY_CLAUDE_SETTINGS. map_of settings k = None)"
proof -
  have "sort (filter (\<lambda>key. map_of settings key \<noteq> None) WORKFLOW_ONLY_CLAUDE_SETTINGS) = []
      \<longleftrightarrow> (\<forall>k\<in>set WORKFLOW_ONLY_CLAUDE_SETTINGS. map_of settings k = None)"
    by (metis (mono_tags, lifting) filter_empty_conv set_empty set_sort)
  then show ?thesis by (auto simp: check_workflow_only_claude_settings_def Let_def)
qed

lemma load_global_settings_ok:
  assumes "load_global_config X p base yaml c = Inr g" and "map_of (gc_roles g) name = Some role"
  shows "obj_ok (gr_claude_settings role)"
proof (cases c)
  case (FileText raw)
  then obtain parsed roles where "yaml raw = Inr parsed"
    and r: "map_res (load_global_role X p base) (rg_roles parsed) = Inr roles" and g: "gc_roles g = roles"
    using assms(1) by (auto simp: load_global_config_def result_simps)
  from assms(2) g have "(name, role) \<in> set roles" by (auto dest: map_of_SomeD)
  then obtain i where i: "i < length roles" "roles ! i = (name, role)" by (auto simp: in_set_conv_nth)
  have "load_global_role X p base (rg_roles parsed ! i) = Inr (name, role)"
    using list_all2_nthD2 [OF r [unfolded map_res_ok] i(1)] i(2) by simp
  then show ?thesis
    by (auto simp: load_global_role_def result_simps dest: from_yaml_ok split: prod.splits)
qed (use assms in \<open>auto simp: load_global_config_def\<close>)

lemma resolve_role_settings_ok:
  "resolve_role X base worktree name r = Inr d \<Longrightarrow> obj_ok (rd_claude_settings (d :: role_def))"
  by (auto simp: resolve_role_def result_simps dest: from_yaml_ok)

lemma resolve_claude_settings_cases:
  assumes "resolve_claude_settings name role global = Inr s"
  obtains base where "s = drop_null_keys (overlay base (rd_claude_settings role))"
    "base = (case map_of (gc_roles global) name of None \<Rightarrow> [] | Some g \<Rightarrow> gr_claude_settings g)"
    "\<forall>k\<in>set WORKFLOW_ONLY_CLAUDE_SETTINGS. map_of base k = None"
  using assms
  by (cases "map_of (gc_roles global) name")
     (auto simp: resolve_claude_settings_def result_simps check_workflow_only_ok)

lemma merged_lookup:
  assumes "obj_ok base" and "obj_ok layer"
  shows "map_of (drop_null_keys (overlay base layer)) k =
    (case (case map_of layer k of Some v \<Rightarrow> Some v | None \<Rightarrow> map_of base k) of
       Some JNull \<Rightarrow> None | w \<Rightarrow> w)"
proof -
  have "distinct (map fst (overlay base layer))"
    using assms by (intro obj_ok_distinct overlay_ok)
  then show ?thesis by (simp add: drop_null_lookup overlay_lookup map_of_rev_ok assms)
qed

section \<open>Properties\<close>

text \<open>
  C40. The settings that run code or change what an agent loads can come from nowhere but the
  workflow file: in the merged settings of a role, such a key has exactly the value the workflow's
  role gives it (absent when that is null or missing), whatever the global config holds.
\<close>

theorem workflow_only_settings:
  assumes "load_global_config X config_path base_dir yaml contents = Inr global"
    and "resolve_role X' base worktree name raw = Inr role"
    and "resolve_claude_settings name role global = Inr settings"
    and "k \<in> set WORKFLOW_ONLY_CLAUDE_SETTINGS"
  shows "map_of settings k =
    (case map_of (rd_claude_settings role) k of Some JNull \<Rightarrow> None | v \<Rightarrow> v)"
  using assms(3)
proof (cases rule: resolve_claude_settings_cases)
  case (1 gbase)
  have "obj_ok gbase"
    using 1(2) load_global_settings_ok [OF assms(1)] by (auto split: option.splits)
  with 1 assms(4) show ?thesis
    by (auto simp: merged_lookup resolve_role_settings_ok [OF assms(2)] split: option.split)
qed

text \<open>
  Task config chooses a role's CLI, model and prompt and nothing else: whatever two task
  configs say, a role that resolves under both runs with the same isolation, the same disallowed
  tools, the same settings, outcomes and sections, all of them the workflow's own; and each of
  CLI and model is the task's text when it gives one, else the workflow's, else the global one.
\<close>

theorem task_config_cannot_loosen:
  assumes "resolve_role_config read name role global config cwd sandboxed report pid = Inr r"
    and "resolve_role_config read name role global config' cwd sandboxed report pid = Inr r'"
  shows "rc_isolation (rr_cfg_role_config r) = rd_isolation role
    \<and> rc_disallowed_tools (rr_cfg_role_config r) = rd_disallowed_tools role
    \<and> rr_cfg_role_config r' = (rr_cfg_role_config r)
        \<lparr>rc_model := Some (rr_cfg_model r'), rc_system_prompt := rc_system_prompt (rr_cfg_role_config r')\<rparr>
    \<and> Some (rr_cfg_cli r) =
        (case Option.bind (Option.bind (task_role_of config name) (jget ''cli'')) as_str of
           Some t \<Rightarrow> Some t
         | None \<Rightarrow> (case rd_cli role of Some t \<Rightarrow> Some t
                   | None \<Rightarrow> Option.bind (map_of (gc_roles global) name) gr_cli))
    \<and> Some (rr_cfg_model r) =
        (case Option.bind (Option.bind (task_role_of config name) (jget ''model'')) as_str of
           Some t \<Rightarrow> Some t
         | None \<Rightarrow> (case rd_model role of Some t \<Rightarrow> Some t
                   | None \<Rightarrow> Option.bind (map_of (gc_roles global) name) gr_model))"
  using assms
  by (auto simp: resolve_role_config_def result_simps resolve_cli_def resolve_model_def
      resolve_string_field_def opt_or_def split: option.splits)

text \<open>
  What the adapters were asked is what runs: when the check of a task's config against the
  workflow passed, every role whose turn then resolves to a CLI of the registry is one its adapter
  accepted, with the very isolation, settings and model the turn starts with.
\<close>

theorem checked_roles_run:
  assumes "check_task_config_roles config d global reg None = Inr ()"
    and "map_of (wd_roles d) name = Some role"
    and "resolve_role_config read name role global config cwd sandboxed report pid = Inr r"
    and "map_of reg (rr_cfg_cli r) = Some a"
  shows "ad_validate_role a name (rc_isolation (rr_cfg_role_config r)) (rc_claude_settings (rr_cfg_role_config r))
      = Inr ()
    \<and> ad_validate_model a name (rr_cfg_model r) = Inr ()"
proof -
  have "name \<in> set (ikeys (wd_roles d))" using assms(2) has_key_def has_key_map_of by fastforce
  then have c: "check_task_config_role config global reg name role = Inr ()"
    using assms(1,2) by (auto simp: check_task_config_roles_def for_each_ok)
  from assms(3) have "resolve_cli name role global config = Inr (rr_cfg_cli r)"
    "resolve_model name role global config = Inr (rr_cfg_model r)"
    "resolve_claude_settings name role global = Inr (rc_claude_settings (rr_cfg_role_config r))"
    "rc_isolation (rr_cfg_role_config r) = rd_isolation role"
    by (auto simp: resolve_role_config_def result_simps)
  with c assms(4) show ?thesis
    by (auto simp: check_task_config_role_def registry_lookup_def result_simps)
qed

section \<open>Witnesses\<close>

definition example_global :: global_config where
  "example_global =
     \<lparr>gc_roles = [(''coder'', \<lparr>gr_cli = Some ''claude'', gr_model = Some ''opus'', gr_system_prompt_file = None,
                             gr_claude_settings = []\<rparr>)],
      gc_max_agents = None\<rparr>"

definition example_raw_global :: raw_global_config where
  "example_raw_global =
     \<lparr>rg_roles = [(''coder'', \<lparr>rg_cli = Some ''claude'', rg_model = Some ''opus'',
                             rg_system_prompt_file = None, rg_claude_settings = None\<rparr>)],
      rg_max_agents = None\<rparr>"

definition example_raw_role :: raw_role where
  "example_raw_role =
     \<lparr>rr_cli = None, rr_model = None, rr_system_prompt_file = None, rr_inherit_operator_config = True,
      rr_skills = None, rr_memory = None, rr_disallowed_tools = [], rr_read_only = False,
      rr_claude_settings = Some (YMap [(YStr ''hooks'', YBool True)])\<rparr>"

definition example_role_def :: role_def where
  "example_role_def =
     \<lparr>rd_cli = None, rd_model = None, rd_system_prompt_file = None, rd_isolation = InheritOperatorConfig,
      rd_disallowed_tools = [], rd_read_only = False, rd_claude_settings = [(''hooks'', JBool True)]\<rparr>"

definition example_config :: json where
  "example_config = obj_of [(''roles'', obj_of [(''coder'', obj_of [(''model'', JStr ''haiku'')])])]"

lemma example_global_loads:
  "load_global_config example_externals ''config.yaml'' [] (\<lambda>_. Inr example_raw_global) (FileText []) =
     Inr example_global"
  by (simp add: load_global_config_def load_global_role_def example_raw_global_def example_global_def
      from_yaml_def)

lemma example_role_resolves:
  "resolve_role example_externals [] False ''coder'' example_raw_role = Inr example_role_def"
  by (simp add: resolve_role_def role_isolation_def role_disallowed_tools_def example_raw_role_def
      example_role_def_def from_yaml_def)

lemma example_settings:
  "resolve_claude_settings ''coder'' example_role_def example_global = Inr [(''hooks'', JBool True)]"
  by code_simp

theorem workflow_only_settings_witness:
  "map_of [(''hooks'', JBool True)] ''hooks'' =
    (case map_of (rd_claude_settings example_role_def) ''hooks'' of Some JNull \<Rightarrow> None | v \<Rightarrow> v)"
  by (rule workflow_only_settings [OF example_global_loads example_role_resolves example_settings])
     (simp add: WORKFLOW_ONLY_CLAUDE_SETTINGS_def)

definition example_start :: "json \<Rightarrow> (role_config_error, resolved_role_config) result" where
  "example_start config =
     resolve_role_config (\<lambda>_. Inr []) ''coder'' example_role_def example_global config ''repo'' True
       ([''done''], []) ''p''"

lemma example_role_starts: "is_ok (example_start example_config)" "is_ok (example_start JNull)"
    "rr_cfg_cli (projr (example_start example_config)) = ''claude''"
  by code_simp+

theorem task_config_cannot_loosen_witness:
  "\<exists>r r'. example_start example_config = Inr r \<and> example_start JNull = Inr r'
     \<and> rc_disallowed_tools (rr_cfg_role_config r) = [] \<and> rr_cfg_model r = ''haiku'' \<and> rr_cfg_cli r' = ''claude''"
proof -
  obtain r r' where s: "example_start example_config = Inr r" "example_start JNull = Inr r'"
    using example_role_starts by (auto simp: is_ok_iff)
  note a = task_config_cannot_loosen [OF s [unfolded example_start_def]]
  note b = task_config_cannot_loosen [OF s(2,1) [unfolded example_start_def]]
  have "Option.bind (Option.bind (task_role_of example_config ''coder'') (jget ''model'')) as_str = Some ''haiku''"
    "Option.bind (task_role_of JNull ''coder'') (jget ''cli'') = None"
    by code_simp+
  with a b s show ?thesis
    by (auto simp: example_role_def_def example_global_def)
qed

definition example_registry :: registry where
  "example_registry = [(''claude'', \<lparr>ad_validate_role = \<lambda>_ _ _. Inr (), ad_validate_model = \<lambda>_ _. Inr ()\<rparr>)]"

definition example_roles_definition :: workflow_definition where
  "example_roles_definition =
     \<lparr>wd_name = ''w'', wd_roles = [(''coder'', example_role_def)], wd_stages = [], wd_worktree = False\<rparr>"

theorem checked_roles_run_witness:
  "\<exists>r a. example_start example_config = Inr r \<and> map_of example_registry (rr_cfg_cli r) = Some a
     \<and> ad_validate_model a ''coder'' (rr_cfg_model r) = Inr ()"
proof -
  obtain r where r: "example_start example_config = Inr r"
    using example_role_starts by (auto simp: is_ok_iff)
  then have "rr_cfg_cli r = ''claude''" using example_role_starts(3) by simp
  then obtain a where a: "map_of example_registry (rr_cfg_cli r) = Some a" by (simp add: example_registry_def)
  have "check_task_config_roles example_config example_roles_definition example_global example_registry None = Inr ()"
    by code_simp
  moreover have "map_of (wd_roles example_roles_definition) ''coder'' = Some example_role_def"
    by (simp add: example_roles_definition_def)
  ultimately show ?thesis
    using checked_roles_run [OF _ _ r [unfolded example_start_def] a] r a by blast
qed

end
