(* ===== verification/Resume.thy ===== *)
theory Resume
  imports Sessions Roles
begin

text \<open>
  Whether a stage's last run can be picked up where it left off (engine/mod.rs:
  resumable_session, current_role_cli; the ResumeSession of engine/turn.rs), over the sessions
  table and the adapters' registry. The verdict is a sum: \<open>Inl\<close> the sentence saying why not.
  The database's own failures are not modelled.
\<close>

section \<open>The verdict\<close>

definition MAX_CONSECUTIVE_RESUMES :: nat where
  "MAX_CONSECUTIVE_RESUMES = 3"

record resume_session =
  re_adapter_session_id :: string
  re_cli_adapter :: string
  re_previous_session_id :: string
  re_end_reason :: session_end_reason

definition current_role_cli ::
  "workflow_definition \<Rightarrow> (global_config_error, global_config) result \<Rightarrow> json \<Rightarrow> stage_def \<Rightarrow> (string, string) result"
where
  "current_role_cli d global config sd =
     (case kind_role (sd_kind sd) of
        None \<Rightarrow> Inl ''the stage is not an agent turn''
      | Some role \<Rightarrow>
          (case map_of (wd_roles d) role of
             None \<Rightarrow> Inl (''unknown role '' @ squote role)
           | Some role_def \<Rightarrow>
               and_then (map_err show_global_config_error global) (\<lambda>global.
                 map_err show_role_config_error (resolve_cli role role_def global config))))"

text \<open>\<open>ResumeSession::describe\<close>.\<close>

definition describe_resume :: "resume_session \<Rightarrow> string" where
  "describe_resume r =
     (case re_end_reason r of
        Interrupted \<Rightarrow> ''your account hit a usage limit''
      | DaemonStopped \<Rightarrow> ''the daemon was stopped or restarted while you were working''
      | Paused \<Rightarrow> ''the operator paused the task while you were working''
      | Reaped \<Rightarrow> ''the daemon closed it after it went quiet for longer than its idle timeout''
      | _ \<Rightarrow> ''it was interrupted'')"

text \<open>Which end reasons describe something done to the turn rather than by it.\<close>

definition resumable_reason :: "session_end_reason \<Rightarrow> bool" where
  "resumable_reason r = (r = Interrupted \<or> r = Reaped \<or> r = DaemonStopped \<or> r = Paused)"

definition checked_end_reason :: "session_end_reason option \<Rightarrow> (string, session_end_reason) result" where
  "checked_end_reason end_reason =
     (case end_reason of
        Some reason \<Rightarrow>
          (if resumable_reason reason then Inr reason
           else if reason = ClaudeSettingsRejected \<or> reason = ClaudeSettingsUnconfirmed then
             Inl (''its turn ended '' @ squote (show_end_reason reason) @ '', so there is nothing to resume'')
           else
             Inl (''its turn ended '' @ squote (show_end_reason reason)
                  @ '', which is the agent'' @ [CHR 0x27] @ ''s own failure rather than an interruption''))
      | None \<Rightarrow> Inl ''its process exited without saying why, so the session may be broken'')"

definition resumable_session ::
  "registry \<Rightarrow> sessions \<Rightarrow> (string, string) result \<Rightarrow> stage_def \<Rightarrow> session option \<Rightarrow> bool \<Rightarrow>
   (string, resume_session) result"
where
  "resumable_session reg db current_cli sd last_session is_branch =
     (if kind_role (sd_kind sd) = None then Inl ''it is not an agent turn, so it has no session''
      else if \<not> is_branch \<and> sd_on sd = [] then
        Inl (''it is a standing session, which is resumed by sending it a message ''
             @ ''rather than by retrying'')
      else
        (case last_session of
           None \<Rightarrow> Inl ''the stage has no previous session''
         | Some session \<Rightarrow>
             (if \<not> is_ok (registry_lookup reg None (se_cli_adapter session)) then
                Inl (''its session ran on cli '' @ squote (se_cli_adapter session)
                     @ '', which this daemon doesn'' @ [CHR 0x27] @ ''t know (known CLIs: ''
                     @ join '', '' (registry_names reg) @ ''), so it can'' @ [CHR 0x27] @ ''t be resumed'')
              else
                and_then (map_err (\<lambda>why. ''the role'' @ [CHR 0x27] @ ''s CLI could not be resolved: '' @ why)
                    current_cli) (\<lambda>current_cli.
                if current_cli \<noteq> se_cli_adapter session then
                  Inl (''the role'' @ [CHR 0x27] @ ''s CLI changed from '' @ squote (se_cli_adapter session)
                       @ '' to '' @ squote current_cli @ '' since its session ran, and a ''
                       @ ''session can only be resumed by the CLI that created it'')
                else
                  and_then (checked_end_reason (se_end_reason session)) (\<lambda>end_reason.
                  (case se_adapter_session_id session of
                     None \<Rightarrow> Inl ''it never reported a session to resume''
                   | Some adapter_session_id \<Rightarrow>
                       (let resumes = resume_chain_len db (se_id session) MAX_CONSECUTIVE_RESUMES in
                        if resumes \<ge> MAX_CONSECUTIVE_RESUMES then
                          Inl (''its session has already been resumed '' @ show_nat resumes
                               @ '' times in a row; starting over is ''
                               @ ''the only way out of an interruption that keeps repeating'')
                        else
                          Inr \<lparr>re_adapter_session_id = adapter_session_id,
                               re_cli_adapter = se_cli_adapter session,
                               re_previous_session_id = se_id session, re_end_reason = end_reason\<rparr>)))))))"

section \<open>Guarded tables\<close>

text \<open>
  The tables reached when every session that continues another one does so on the verdict of
  resumable_session, which is how the engine calls the module.
\<close>

inductive guarded_table :: "sessions \<Rightarrow> bool" where
  empty: "guarded_table []"
| fresh: "guarded_table db \<Longrightarrow> create_session id' now entries new db = Some db' \<Longrightarrow> guarded_table db'"
| resumed: "guarded_table db \<Longrightarrow> get_session db prev = Some (Some session) \<Longrightarrow>
     resumable_session reg db cli sd (Some session) is_branch = Inr r \<Longrightarrow>
     create_resumed id' now entries new
       \<lparr>rf_session_id = re_previous_session_id r, rf_adapter_session_id = re_adapter_session_id r\<rparr> db = Some db' \<Longrightarrow>
     guarded_table db'"
| status_set: "guarded_table db \<Longrightarrow> guarded_table (update_status id' status ended_at end_reason db)"
| adapter_set: "guarded_table db \<Longrightarrow> guarded_table (set_adapter_session_id id' adapter db)"
| recovered: "guarded_table db \<Longrightarrow> guarded_table (fst (recover_stale_active_sessions now db))"
| stopped: "guarded_table db \<Longrightarrow> guarded_table (fst (mark_daemon_stopped now id' db))"
| deleted: "guarded_table db \<Longrightarrow> delete_session id' db = Some (db', b) \<Longrightarrow> guarded_table db'"

section \<open>Lemmas\<close>

lemma guarded_session_table: "guarded_table db \<Longrightarrow> session_table db"
  by (induction rule: guarded_table.induct)
     (auto simp: create_session_def create_resumed_def intro: session_table.intros)

lemma resumable_ok:
  "resumable_session reg db cli sd prev is_branch = Inr r \<longleftrightarrow>
    (\<exists>s. prev = Some s \<and> kind_role (sd_kind sd) \<noteq> None \<and> (is_branch \<or> sd_on sd \<noteq> [])
       \<and> map_of reg (se_cli_adapter s) \<noteq> None \<and> cli = Inr (se_cli_adapter s)
       \<and> se_end_reason s = Some (re_end_reason r) \<and> resumable_reason (re_end_reason r)
       \<and> se_adapter_session_id s = Some (re_adapter_session_id r)
       \<and> resume_chain_len db (se_id s) MAX_CONSECUTIVE_RESUMES < MAX_CONSECUTIVE_RESUMES
       \<and> re_cli_adapter r = se_cli_adapter s \<and> re_previous_session_id r = se_id s)"
proof (cases prev)
  case (Some s)
  have reg: "is_ok (registry_lookup reg None c) \<longleftrightarrow> map_of reg c \<noteq> None" for c
    by (simp add: registry_lookup_def split: option.split)
  have e: "checked_end_reason o' = Inr e \<longleftrightarrow> o' = Some e \<and> resumable_reason e" for o' e
    by (auto simp: checked_end_reason_def split: option.splits)
  show ?thesis
    by (cases r) (auto simp: Some resumable_session_def result_simps reg e Let_def split: option.splits if_splits)
qed (simp add: resumable_session_def)

text \<open>Chains depend only on the links.\<close>

lemma chain_map:
  assumes "keeps_links f"
  shows "chain (map f db) n s = chain db n s"
proof -
  have "row_of (map f db) s = map_option f (row_of db s)" for s
    using assms by (induction db) (auto simp: row_of_def keeps_links_def)
  then have "Option.bind (row_of (map f db) s) sr_resumed_from = Option.bind (row_of db s) sr_resumed_from" for s
    using assms by (cases "row_of db s") (auto simp: keeps_links_def)
  then show ?thesis by (induction n arbitrary: s) (simp_all split: option.split)
qed

lemma chain_delete:
  assumes "delete_session i db = Some (db', b)" and "s \<noteq> i"
  shows "chain db' n s = chain db n s"
proof -
  have db': "db' = filter (\<lambda>r. sr_id r \<noteq> i) db"
    and free: "\<not> list_ex (\<lambda>r. sr_resumed_from r = Some i \<and> sr_id r \<noteq> i) db"
    using assms(1) by (auto simp: delete_session_def split: if_splits)
  have row: "row_of db' t = row_of db t" if "t \<noteq> i" for t
    using that unfolding db' by (induction db) (auto simp: row_of_def)
  show ?thesis
    using assms(2)
  proof (induction n arbitrary: s)
    case (Suc n)
    show ?case
    proof (cases "row_of db s")
      case (Some q)
      then have "sr_resumed_from q \<noteq> Some i"
        using free row_of_Some [OF Some] Suc.prems by (auto simp: list_ex_iff)
      with Some Suc row show ?thesis by (cases "sr_resumed_from q") auto
    qed (simp add: row Suc.prems)
  qed simp
qed

lemma chain_settled: "chain db m s < m \<Longrightarrow> chain db n s \<le> chain db m s"
proof -
  assume lt: "chain db m s < m"
  consider "n \<le> m" | "m \<le> n" by linarith
  then show ?thesis
  proof cases
    case 1
    then show ?thesis using chain_min [OF 1, of db s] by simp
  next
    case 2
    with lt chain_min [OF 2, of db s] show ?thesis by simp
  qed
qed

definition chains_bounded :: "sessions \<Rightarrow> bool" where
  "chains_bounded db = (\<forall>n. \<forall>s\<in>sr_id ` set db. chain db n s \<le> MAX_CONSECUTIVE_RESUMES)"

lemma chains_bounded_map:
  assumes "chains_bounded db" and "keeps_links f"
  shows "chains_bounded (map f db)"
proof -
  have "map sr_id (map f db) = map sr_id db" using assms(2) by (simp add: keeps_links_def)
  then have "sr_id ` set (map f db) = sr_id ` set db" by (metis set_map)
  with assms show ?thesis by (simp add: chains_bounded_def chain_map)
qed

lemma chains_bounded_create:
  assumes "table_ok db" and "chains_bounded db" and "create_inner i now n new source db = Some db'"
    and "\<forall>f. source = Some f \<longrightarrow> chain db MAX_CONSECUTIVE_RESUMES (rf_session_id f) < MAX_CONSECUTIVE_RESUMES"
  shows "chains_bounded db'"
proof -
  from assms(3) obtain r where r: "db' = db @ [r]" "sr_id r = i"
    by (cases rule: create_inner_ok)
  have new: "chain db' m i \<le> MAX_CONSECUTIVE_RESUMES" for m
  proof (cases source)
    case None
    then show ?thesis using chain_created [OF assms(1,3)] by simp
  next
    case (Some f)
    with assms(4) have lt: "chain db MAX_CONSECUTIVE_RESUMES (rf_session_id f) < MAX_CONSECUTIVE_RESUMES" by simp
    have "chain db m (rf_session_id f) < MAX_CONSECUTIVE_RESUMES"
      using chain_settled [OF lt, of m] lt by linarith
    then show ?thesis
      using chain_created [OF assms(1,3), of m i] Some by simp
  qed
  have "chain db' m s \<le> MAX_CONSECUTIVE_RESUMES" if "s \<in> sr_id ` set db" for m s
    using chain_created [OF assms(1,3), of m s] that assms(2) by (auto simp: chains_bounded_def)
  with new r show ?thesis by (auto simp: chains_bounded_def)
qed

lemma guarded_chains_bounded: "guarded_table db \<Longrightarrow> chains_bounded db"
proof (induction rule: guarded_table.induct)
  case empty
  show ?case by (simp add: chains_bounded_def)
next
  case (fresh db i now entries new db')
  then show ?case
    using chains_bounded_create session_table_ok [OF guarded_session_table]
    by (fastforce simp: create_session_def)
next
  case (resumed db prev session reg cli sd is_branch r i now entries new db')
  from resumed.hyps(3) have "chain db MAX_CONSECUTIVE_RESUMES (re_previous_session_id r) < MAX_CONSECUTIVE_RESUMES"
    by (auto simp: resumable_ok resume_chain_len_chain)
  then show ?case
    using chains_bounded_create [OF session_table_ok [OF guarded_session_table [OF resumed.hyps(1)]]
        resumed.IH resumed.hyps(4) [unfolded create_resumed_def]]
    by simp
next
  case (status_set db i status ended_at end_reason)
  show ?case
    unfolding update_status_def update_row_def
    by (rule chains_bounded_map [OF status_set.IH keeps_links_update_row])
       (cases end_reason; simp add: readable_def)
next
  case (adapter_set db i adapter)
  show ?case
    unfolding set_adapter_session_id_def update_row_def
    by (rule chains_bounded_map [OF adapter_set.IH keeps_links_update_row]) (simp add: readable_def)
next
  case (recovered db now)
  show ?case
    unfolding recover_fst
    by (rule chains_bounded_map [OF recovered.IH]) (simp add: keeps_links_def readable_def readable_texts)
next
  case (stopped db now i)
  show ?case
    unfolding mark_daemon_stopped_def Let_def fst_conv
    by (rule chains_bounded_map [OF stopped.IH]) (simp add: keeps_links_def readable_def readable_texts)
next
  case (deleted db i db' b)
  then have sub: "s \<in> sr_id ` set db' \<Longrightarrow> s \<in> sr_id ` set db \<and> s \<noteq> i" for s
    by (auto simp: delete_session_def split: if_splits)
  show ?case
    unfolding chains_bounded_def
  proof (intro allI ballI)
    fix n s
    assume "s \<in> sr_id ` set db'"
    with sub have s: "s \<in> sr_id ` set db" "s \<noteq> i" by blast+
    then show "chain db' n s \<le> MAX_CONSECUTIVE_RESUMES"
      using deleted.IH chain_delete [OF deleted.hyps(2) s(2)] unfolding chains_bounded_def by auto
  qed
qed

section \<open>Properties\<close>

text \<open>
  A run is resumed exactly when all of this holds: the stage is an agent turn that concludes
  on its own, the run's CLI is one this daemon has and still the role's, the run ended by an
  interruption (a usage limit, the idle reaper, a daemon stop or a pause), it reported a session
  to resume, and that session is fewer than three resumes away from a fresh start. The resume
  then continues that very session on that CLI.
\<close>

theorem resumable_iff:
  "resumable_session reg db cli sd prev is_branch = Inr r \<longleftrightarrow>
    (case prev of None \<Rightarrow> False
     | Some s \<Rightarrow>
         kind_role (sd_kind sd) \<noteq> None \<and> (if sd_on sd = [] then is_branch else True)
         \<and> map_of reg (se_cli_adapter s) \<noteq> None \<and> cli = Inr (se_cli_adapter s)
         \<and> (\<exists>reason\<in>{Interrupted, Reaped, DaemonStopped, Paused}. se_end_reason s = Some reason)
         \<and> se_adapter_session_id s \<noteq> None
         \<and> resume_chain_len db (se_id s) MAX_CONSECUTIVE_RESUMES < 3
         \<and> r = \<lparr>re_adapter_session_id = the (se_adapter_session_id s), re_cli_adapter = se_cli_adapter s,
                re_previous_session_id = se_id s, re_end_reason = the (se_end_reason s)\<rparr>)"
  by (cases r) (auto simp: resumable_ok resumable_reason_def MAX_CONSECUTIVE_RESUMES_def split: option.splits)

text \<open>
  C37. No conversation is picked up more than three times in a row: over any sequence of writes in
  which a session continues another one only on resumable_session's verdict, every session is at
  most three resumes away from one that started fresh.
\<close>

theorem at_most_three_resumes:
  assumes "guarded_table db" and "s \<in> sr_id ` set db"
  shows "resume_chain_len db s limit \<le> 3"
  using guarded_chains_bounded [OF assms(1)] assms(2)
  by (auto simp: chains_bounded_def resume_chain_len_chain MAX_CONSECUTIVE_RESUMES_def)

theorem at_most_three_resumes_witness: "resume_chain_len example_sessions ''s1'' 7 \<le> 3"
proof -
  have "create_session ''s1'' 1 2 example_new [] = Some [example_session_row]"
    by (simp add: create_session_def example_created)
  then have "guarded_table example_sessions"
    unfolding example_sessions_def
    by (intro guarded_table.status_set guarded_table.adapter_set) (rule guarded_table.fresh [OF guarded_table.empty])
  moreover have "''s1'' \<in> sr_id ` set example_sessions"
    using arg_cong [OF example_ids(1), of set] by simp
  ultimately show ?thesis by (rule at_most_three_resumes)
qed

end
