(* ===== verification/Transition.thy ===== *)
theory Transition
  imports Payload Validate
begin

text \<open>
  A task's transitions (engine/mod.rs: compute_transition, the guarded part of
  advance_from_stage, the row start_task inserts, rewatch_locked's move back to a watcher;
  db/workflow_state.rs: the row and its update). A step is a function from the stored row to the
  one UPDATE that replaces it; the outer \<open>None\<close> is a panic of the code (loop counters that are not
  an object). Runs over these functions are in the theory Runs.
\<close>

section \<open>The stored row\<close>

record workflow_state =
  ws_current_stage :: string
  ws_stage_kind :: "string option"
  ws_loop_counters :: json
  ws_payload :: json
  ws_updated_at :: time
  ws_stage_entered_at :: "time option"

record state_update =
  su_current_stage :: string
  su_stage_kind :: string
  su_loop_counters :: json
  su_payload :: json
  su_enters_stage :: bool

text \<open>\<open>workflow_state::create\<close> and the UPDATE of \<open>workflow_state::update_in\<close>.\<close>

definition create_state :: "string \<Rightarrow> string \<Rightarrow> json \<Rightarrow> time \<Rightarrow> workflow_state" where
  "create_state current_stage kind payload now =
     \<lparr>ws_current_stage = current_stage, ws_stage_kind = Some kind, ws_loop_counters = obj_of [],
      ws_payload = payload, ws_updated_at = now, ws_stage_entered_at = Some now\<rparr>"

definition update_state :: "state_update \<Rightarrow> time \<Rightarrow> workflow_state \<Rightarrow> workflow_state" where
  "update_state u now row =
     row\<lparr>ws_current_stage := su_current_stage u, ws_stage_kind := Some (su_stage_kind u),
         ws_loop_counters := su_loop_counters u, ws_payload := su_payload u, ws_updated_at := now,
         ws_stage_entered_at := (if su_enters_stage u then Some now else ws_stage_entered_at row)\<rparr>"

section \<open>compute_transition\<close>

text \<open>
  The loop guard's part: where the outcome leads after counting, and the counters it leaves.
\<close>

definition apply_guard ::
  "stage_def \<Rightarrow> string \<Rightarrow> string \<Rightarrow> string \<Rightarrow> json \<Rightarrow> (string \<times> json) option"
where
  "apply_guard stage_def from_stage outcome next_stage counters =
     (case sd_guard stage_def of
        None \<Rightarrow> Some (next_stage, counters)
      | Some guard \<Rightarrow>
          (if lg_on guard = outcome then
             map_option (\<lambda>(counters, count).
                 (if uint count > uint (lg_max guard) then lg_then guard else next_stage, counters))
               (bump_loop_counter counters from_stage)
           else map_option (\<lambda>counters. (next_stage, counters)) (reset_loop_counter counters from_stage)))"

text \<open>
  The payload written with a transition. The three readings of the clock are separate: left_at's,
  the poll window's and the parallel block's.
\<close>

definition stamp_payload ::
  "chrono \<Rightarrow> workflow_definition \<Rightarrow> time \<times> time \<times> time \<Rightarrow> string \<Rightarrow> string \<Rightarrow> string \<Rightarrow> json option \<Rightarrow>
   json \<Rightarrow> (engine_error, json) result"
where
  "stamp_payload C d nows from_stage outcome next_stage capture payload =
     (let payload = (case capture of None \<Rightarrow> payload | Some v \<Rightarrow> merge_stage_capture from_stage v payload);
          payload = set_arrival from_stage outcome payload;
          payload = mark_stage_finished from_stage payload;
          payload = set_left_at from_stage (ch_stamp C (fst nows)) payload
      in and_then (set_poll_window C d next_stage (fst (snd nows)) payload) (\<lambda>payload.
           Inr (set_parallel_block C d next_stage (snd (snd nows)) payload)))"

definition compute_transition ::
  "chrono \<Rightarrow> workflow_definition \<Rightarrow> time \<times> time \<times> time \<Rightarrow> workflow_state \<Rightarrow> string \<Rightarrow> json option \<Rightarrow>
   (engine_error, string \<times> state_update) result option"
where
  "compute_transition C d nows state outcome capture =
     (let from_stage = ws_current_stage state in
      case stage_of d from_stage of
        None \<Rightarrow> Some (Inl (UnknownStage from_stage))
      | Some stage_def \<Rightarrow>
          if is_terminal (sd_kind stage_def) then Some (Inl (TerminalStageHasNoTransitions from_stage))
          else
          (case map_of (sd_on stage_def) outcome of
             None \<Rightarrow> Some (Inl (UnknownOutcome from_stage outcome))
           | Some target \<Rightarrow>
               Option.bind (apply_guard stage_def from_stage outcome target (ws_loop_counters state))
                 (\<lambda>(next_stage, counters).
               Option.bind (clear_guards_escaping_to counters d next_stage) (\<lambda>counters.
               Some
                 (and_then (stamp_payload C d nows from_stage outcome next_stage capture (ws_payload state))
                   (\<lambda>payload.
                    case stage_of d next_stage of
                      None \<Rightarrow> Inl (UnknownStage next_stage)
                    | Some s \<Rightarrow>
                        Inr (next_stage,
                             \<lparr>su_current_stage = next_stage, su_stage_kind = stage_kind_name (sd_kind s),
                              su_loop_counters = counters, su_payload = payload,
                              su_enters_stage = True\<rparr>)))))))"

section \<open>advance_from_stage\<close>

definition TASK_STATUS_CANCELLED :: string where
  "TASK_STATUS_CANCELLED = ''cancelled''"

text \<open>
  The part under the task lock, up to the write: the task's status (if there is a row), the stored
  state and the stage the caller believes the task is in.
\<close>

definition decide_advance ::
  "chrono \<Rightarrow> workflow_definition \<Rightarrow> time \<times> time \<times> time \<Rightarrow> string \<Rightarrow> string option \<Rightarrow> workflow_state option \<Rightarrow>
   string option \<Rightarrow> string \<Rightarrow> json option \<Rightarrow> (engine_error, string \<times> state_update) result option"
where
  "decide_advance C d nows task_id status state expected outcome capture =
     (if status = Some TASK_STATUS_CANCELLED then Some (Inl (TaskCancelled task_id))
      else
      (case state of
         None \<Rightarrow> Some (Inl NoWorkflowState)
       | Some st \<Rightarrow>
           (case expected of
              Some e \<Rightarrow>
                (if ws_current_stage st \<noteq> e then Some (Inl (StageMovedOn e (ws_current_stage st)))
                 else compute_transition C d nows st outcome capture)
            | None \<Rightarrow> compute_transition C d nows st outcome capture)))"

definition is_benign_resume_race :: "engine_error \<Rightarrow> bool" where
  "is_benign_resume_race e =
     (case e of
        UnknownOutcome _ _ \<Rightarrow> True
      | TerminalStageHasNoTransitions _ \<Rightarrow> True
      | StageMovedOn _ _ \<Rightarrow> True
      | TaskCancelled _ \<Rightarrow> True
      | _ \<Rightarrow> False)"

text \<open>
  What advance_from_stage does to the task's watcher: \<open>stops_watcher\<close> is whether it aborts the
  detached runners, given the decision; \<open>write\<close> is whether the UPDATE found its row.
\<close>

definition stops_watcher ::
  "bool \<Rightarrow> (engine_error, string \<times> state_update) result \<Rightarrow> bool"
where
  "stops_watcher stop_watcher decision =
     (stop_watcher \<and> (case decision of Inr _ \<Rightarrow> True | Inl e \<Rightarrow> \<not> is_benign_resume_race e))"

section \<open>Starting a task, and watching again\<close>

definition start_payload ::
  "string option \<Rightarrow> string \<Rightarrow> json \<Rightarrow> json"
where
  "start_payload input title closes =
     obj_of [(''task'', obj_of [(''input'', case input of None \<Rightarrow> JNull | Some t \<Rightarrow> JStr t),
                               (''title'', JStr title), (''closes'', closes)]),
             (''arrival'', obj_of [(''from'', JStr []), (''outcome'', JStr [])])]"

text \<open>The row start_task creates for a definition's first stage; \<open>None\<close> is start_stage's panic.\<close>

definition start_row ::
  "chrono \<Rightarrow> workflow_definition \<Rightarrow> time \<times> time \<times> time \<Rightarrow> string option \<Rightarrow> string \<Rightarrow> json \<Rightarrow>
   (engine_error, workflow_state) result option"
where
  "start_row C d nows input title closes =
     map_option (\<lambda>start.
       and_then (set_poll_window C d start (fst nows) (start_payload input title closes)) (\<lambda>payload.
         let payload = set_parallel_block C d start (fst (snd nows)) payload in
         case stage_of d start of
           None \<Rightarrow> Inl (UnknownStage start)
         | Some s \<Rightarrow> Inr (create_state start (stage_kind_name (sd_kind s)) payload (snd (snd nows)))))
       (start_stage d)"

text \<open>rewatch_locked: back from the gate to the watcher that timed out.\<close>

definition rewatch ::
  "chrono \<Rightarrow> workflow_definition \<Rightarrow> time \<Rightarrow> string \<Rightarrow> workflow_state \<Rightarrow> timed_out_watch \<Rightarrow>
   (engine_error, state_update) result"
where
  "rewatch C d now gate state timed_out =
     (case stage_of d (to_from timed_out) of
        None \<Rightarrow> Inl (UnknownStage (to_from timed_out))
      | Some s \<Rightarrow>
          and_then (set_poll_window C d (to_from timed_out) now (set_arrival gate ''retry'' (ws_payload state)))
            (\<lambda>payload.
             Inr \<lparr>su_current_stage = to_from timed_out, su_stage_kind = stage_kind_name (sd_kind s),
                  su_loop_counters = ws_loop_counters state, su_payload = payload,
                  su_enters_stage = True\<rparr>))"

end
