(* ===== verification/Group.thy ===== *)
theory Group
  imports Transition Resume
begin

text \<open>
  Parallel groups (engine/parallel.rs): the branch slots of payload.parallel, the end of a branch
  (apply_branch_end), failed starts (record_start_failures), the restart sweep's settle
  (park_group_branches), a retry's re-entered slots (retry_group_locked), and the readers of the
  block. What the code reads from the database (the task's status, the branch's current session,
  whether a session can be resumed) is an argument of the step.
\<close>

section \<open>Slots\<close>

text \<open>\<open>get_mut\<close> on an object key, and a write through it.\<close>

definition jmodify :: "string \<Rightarrow> (json \<Rightarrow> json) \<Rightarrow> json \<Rightarrow> json" where
  "jmodify k f p = (case jget k p of None \<Rightarrow> p | Some v \<Rightarrow> jset k (f v) p)"

definition branch_slot :: "json \<Rightarrow> string \<Rightarrow> json option" where
  "branch_slot payload branch =
     Option.bind (Option.bind (jget ''parallel'' payload) (jget ''branches'')) (jget branch)"

definition branch_state :: "json \<Rightarrow> string \<Rightarrow> string option" where
  "branch_state payload branch =
     Option.bind (Option.bind (branch_slot payload branch) (jget ''state'')) as_str"

definition end_branch :: "string \<Rightarrow> json \<Rightarrow> string \<Rightarrow> json \<Rightarrow> json" where
  "end_branch branch new_fields now payload =
     jmodify ''parallel'' (jmodify ''branches'' (jmodify branch (\<lambda>slot.
       jset ''ended_at'' (JStr now)
         (jset ''started_at'' (case jget ''started_at'' slot of None \<Rightarrow> JNull | Some v \<Rightarrow> v) new_fields))))
       payload"

definition done_fields :: "string \<Rightarrow> json" where
  "done_fields result = obj_of [(''state'', JStr ''done''), (''result'', JStr result)]"

definition failed_fields :: "string \<Rightarrow> bool \<Rightarrow> json" where
  "failed_fields reason resumable =
     obj_of [(''state'', JStr ''failed''), (''reason'', JStr reason), (''resumable'', JBool resumable)]"

definition fail_branch :: "string \<Rightarrow> string \<Rightarrow> bool \<Rightarrow> string \<Rightarrow> json \<Rightarrow> json" where
  "fail_branch branch reason resumable now payload =
     end_branch branch (failed_fields reason resumable) now payload"

definition any_state :: "string \<Rightarrow> branch imap \<Rightarrow> json \<Rightarrow> bool" where
  "any_state st branches payload = list_ex (\<lambda>name. branch_state payload name = Some st) (ikeys branches)"

definition block_entry :: "json \<Rightarrow> string \<Rightarrow> int option" where
  "block_entry payload grp =
     Option.bind (Option.bind (block_for payload grp) (jget ''entry'')) as_i64"

section \<open>Readers\<close>

definition settle_reason :: "string \<Rightarrow> branch imap \<Rightarrow> json \<Rightarrow> string" where
  "settle_reason grp branches payload =
     (let failed = map (\<lambda>name.
            squote name @ '': '' @
            (case Option.bind (Option.bind (branch_slot payload name) (jget ''reason'')) as_str of
               None \<Rightarrow> [] | Some r \<Rightarrow> r))
          (filter (\<lambda>name. branch_state payload name = Some ''failed'') (ikeys branches))
      in ''parallel stage '' @ squote grp @ '': '' @ show_nat (length failed) @ '' of ''
         @ show_nat (length branches) @ '' branch(es) failed: '' @ join ''; '' failed)"

definition ran_beside :: "workflow_definition \<Rightarrow> string \<Rightarrow> string \<Rightarrow> string" where
  "ran_beside d grp branch =
     (case Option.bind (stage_of d grp) (\<lambda>s. group_branches (sd_kind s)) of
        None \<Rightarrow> []
      | Some branches \<Rightarrow>
          (let others = filter (\<lambda>name. name \<noteq> branch) (ikeys branches)
           in if others = [] then [] else ''; ran beside: '' @ join '', '' others))"

definition agent_role_of :: "workflow_definition \<Rightarrow> string \<Rightarrow> string option" where
  "agent_role_of d name =
     (case stage_of d name of
        Some stage \<Rightarrow> kind_role (sd_kind stage)
      | None \<Rightarrow> Option.bind (branch_of d name) (\<lambda>b. kind_role (sd_kind (bf_def b))))"

text \<open>\<open>sort_unstable\<close> then \<open>dedup\<close> on kind names.\<close>

definition running_branch_kinds ::
  "json \<Rightarrow> workflow_definition \<Rightarrow> string \<Rightarrow> (string \<Rightarrow> bool) \<Rightarrow> string option"
where
  "running_branch_kinds payload d grp is_queued =
     (case Option.bind (Option.bind (block_for payload grp) (jget ''branches'')) as_object of
        None \<Rightarrow> Some ''unknown''
      | Some slots \<Rightarrow>
          (let kinds = map (\<lambda>(name, _). case branch_of d name of None \<Rightarrow> ''unknown''
                                       | Some b \<Rightarrow> stage_kind_name (sd_kind (bf_def b)))
                 (filter (\<lambda>(name, slot). Option.bind (jget ''state'' slot) as_str = Some ''running''
                                         \<and> \<not> is_queued name) slots)
           in if kinds = [] then None else Some (join '', '' (remdups_adj (sort kinds)))))"

section \<open>The end of a branch\<close>

record branch_watch =
  bw_group :: string
  bw_entry :: int

datatype branch_outcome =
    BranchDone string "json option" "string option"
  | BranchFailed string

definition TASK_STATUS_OPEN :: string where "TASK_STATUS_OPEN = ''open''"
definition TASK_STATUS_PAUSING :: string where "TASK_STATUS_PAUSING = ''pausing''"
definition TASK_STATUS_PAUSED :: string where "TASK_STATUS_PAUSED = ''paused''"

definition is_pause_status :: "string \<Rightarrow> bool" where
  "is_pause_status status = (status = TASK_STATUS_PAUSING \<or> status = TASK_STATUS_PAUSED)"

text \<open>What the locked core does: drop the end, or write one update; a settle also marks the task.\<close>

datatype branch_step =
    Dropped string
  | RecordedRunning state_update
  | SettledStuck state_update string
  | LeftGroup string state_update

text \<open>Every reason for not applying the end, in the code's order.\<close>

definition branch_end_dropped ::
  "string option \<Rightarrow> workflow_state option \<Rightarrow> branch_watch \<Rightarrow> string \<Rightarrow> string \<Rightarrow> string option \<Rightarrow>
   (string, workflow_state) result"
where
  "branch_end_dropped status state w branch session_id current =
     (case status of
        None \<Rightarrow> Inl ''the task no longer exists''
      | Some st \<Rightarrow>
     (if st \<noteq> TASK_STATUS_OPEN \<and> \<not> is_pause_status st then Inl (''the task is '' @ st)
      else
     (case state of
        None \<Rightarrow> Inl ''the task has no workflow state''
      | Some row \<Rightarrow>
     (if ws_current_stage row \<noteq> bw_group w then
        Inl (''the task has left '' @ squote (bw_group w) @ '' for '' @ squote (ws_current_stage row))
      else
     (case block_for (ws_payload row) (bw_group w) of
        None \<Rightarrow> Inl (''no branch state for '' @ squote (bw_group w) @ '' in the payload'')
      | Some block \<Rightarrow>
     (if Option.bind (jget ''entry'' block) as_i64 \<noteq> Some (bw_entry w) then
        Inl (''the branch belongs to entry '' @ show_jnum (NegInt (bw_entry w)) @ '' of '' @ squote (bw_group w)
             @ '', which is no longer current'')
      else if branch_state (ws_payload row) branch \<noteq> Some ''running'' then
        Inl (''branch '' @ squote branch @ '' is no longer running'')
      else if current \<noteq> Some session_id then
        Inl (''session '' @ session_id @ '' is no longer branch '' @ squote branch @ [CHR 0x27] @ ''s current run'')
      else Inr row))))))"

text \<open>A result outside the branch's results is a failure.\<close>

definition checked_end :: "string \<Rightarrow> string list \<Rightarrow> branch_outcome \<Rightarrow> branch_outcome" where
  "checked_end branch results e =
     (case e of
        BranchDone result capture note \<Rightarrow>
          (if result \<in> set results then e
           else BranchFailed
                  (''stage '' @ squote branch @ '': result '' @ squote result @ '' is not one of its results [''
                   @ join '', '' results @ '']''
                   @ (case note of None \<Rightarrow> [] | Some n \<Rightarrow> '' ('' @ n @ '')'')))
      | BranchFailed reason \<Rightarrow> e)"

text \<open>
  The payload with the end written. \<open>verdict\<close> is what resumable_session answers: whether the
  session can be resumed, or the error of asking.
\<close>

definition branch_end_payload ::
  "string \<Rightarrow> branch_outcome \<Rightarrow> (string, bool) result \<Rightarrow> string \<Rightarrow> json \<Rightarrow> json"
where
  "branch_end_payload branch e verdict now payload =
     (case e of
        BranchDone result capture note \<Rightarrow>
          (let payload = end_branch branch (done_fields result) now payload;
               payload = (case capture of None \<Rightarrow> payload | Some v \<Rightarrow> merge_stage_capture branch v payload)
           in mark_stage_finished branch payload)
      | BranchFailed reason \<Rightarrow>
          (case verdict of
             Inr resumable \<Rightarrow> fail_branch branch reason resumable now payload
           | Inl err \<Rightarrow>
               fail_branch branch
                 (reason @ '' (could not tell whether its session can be resumed: '' @ err @ '')'') False now payload))"

definition group_update :: "workflow_state \<Rightarrow> json \<Rightarrow> state_update" where
  "group_update row payload =
     \<lparr>su_current_stage = ws_current_stage row, su_stage_kind = ''parallel'',
      su_loop_counters = ws_loop_counters row, su_payload = payload, su_enters_stage = False\<rparr>"

text \<open>What follows from the slots after a write: wait, settle as stuck, or leave the group.\<close>

definition settle_group ::
  "chrono \<Rightarrow> workflow_definition \<Rightarrow> time \<times> time \<times> time \<Rightarrow> string \<Rightarrow> branch imap \<Rightarrow> workflow_state \<Rightarrow> json \<Rightarrow>
   (engine_error, branch_step) result option"
where
  "settle_group C d nows grp branches row payload =
     (if any_state ''running'' branches payload then
        Some (Inr (RecordedRunning (group_update row payload)))
      else if any_state ''failed'' branches payload then
        Some (Inr (SettledStuck (group_update row payload) (settle_reason grp branches payload)))
      else
        map_option (\<lambda>r. and_then r (\<lambda>(next_stage, u). Inr (LeftGroup next_stage u)))
          (compute_transition C d nows (row\<lparr>ws_payload := payload\<rparr>) ''done'' None))"

definition apply_branch_end ::
  "chrono \<Rightarrow> workflow_definition \<Rightarrow> time \<times> time \<times> time \<Rightarrow> time \<Rightarrow> string option \<Rightarrow> workflow_state option \<Rightarrow>
   branch_watch \<Rightarrow> string \<Rightarrow> string \<Rightarrow> string option \<Rightarrow> (string, bool) result \<Rightarrow> branch_outcome \<Rightarrow>
   (engine_error, branch_step) result option"
where
  "apply_branch_end C d nows now status state w branch session_id current verdict e =
     (case branch_end_dropped status state w branch session_id current of
        Inl why \<Rightarrow> Some (Inr (Dropped why))
      | Inr row \<Rightarrow>
          (case branch_of d branch of
             None \<Rightarrow> Some (Inl (UnknownStage branch))
           | Some b \<Rightarrow>
               (case Option.bind (stage_of d (bw_group w)) (\<lambda>s. group_branches (sd_kind s)) of
                  None \<Rightarrow> Some (Inl (UnknownStage (bw_group w)))
                | Some branches \<Rightarrow>
                    (let e = checked_end branch (bf_results b) e;
                         payload = branch_end_payload branch e verdict (ch_stamp C now) (ws_payload row)
                     in settle_group C d nows (bw_group w) branches row payload))))"

section \<open>Failed starts, the sweep and a retry\<close>

text \<open>record_start_failures: the failures in order, then an update or the settle.\<close>

definition start_failures_payload :: "string \<Rightarrow> (string \<times> string) list \<Rightarrow> json \<Rightarrow> json" where
  "start_failures_payload now failures payload =
     fold (\<lambda>(name, reason). fail_branch name reason False now) failures payload"

definition record_start_failures ::
  "string \<Rightarrow> string \<Rightarrow> branch imap \<Rightarrow> (string \<times> string) list \<Rightarrow> workflow_state option \<Rightarrow>
   (engine_error, branch_step) result"
where
  "record_start_failures now grp branches failures state =
     (case state of
        None \<Rightarrow> Inl NoWorkflowState
      | Some row \<Rightarrow>
          (let payload = start_failures_payload now failures (ws_payload row) in
           if any_state ''running'' branches payload then Inr (RecordedRunning (group_update row payload))
           else Inr (SettledStuck (group_update row payload) (settle_reason grp branches payload))))"

text \<open>
  branch_progress: where a branch of the current entry stands. \<open>queued\<close> is whether a queue row
  exists for (task, branch, entry); the lap is read off the sessions table.
\<close>

datatype branch_work = Queued | Live session | Ended session | NeverStarted

definition branch_progress :: "bool \<Rightarrow> sessions \<Rightarrow> session option \<Rightarrow> int \<Rightarrow> branch_work" where
  "branch_progress queued db current entry_no =
     (if queued then Queued
      else (case current of
              None \<Rightarrow> NeverStarted
            | Some session \<Rightarrow>
                (if lap db (se_id session) = Some entry_no then
                   (if se_status session = Active then Live session else Ended session)
                 else NeverStarted)))"

text \<open>
  What the sweep finds out about one running branch: its progress; whether an idle session could
  be recorded as stopped, with the row read back; the resumability verdict for the session as read
  back (\<open>Inl\<close>: asking failed); and what the read-only check found, if anything.
\<close>

record branch_reads =
  br_work :: branch_work
  br_stopped :: "(string, session option) result"
  br_resumable :: "session \<Rightarrow> (string, bool) result"
  br_read_only :: "session \<Rightarrow> string option"

text \<open>The reason an interrupted branch fails with, and whether its session can be resumed.\<close>

definition interrupted_session ::
  "string \<Rightarrow> string \<Rightarrow> branch_reads \<Rightarrow> session \<Rightarrow> (string \<times> bool) option"
where
  "interrupted_session grp name rd session =
     (if se_status session = Active then None
      else
       (let (reason, session, recorded) =
          (if se_status session = Idle \<and> se_end_reason session = None then
             (let reason = ''branch '' @ squote name @ '' of parallel stage '' @ squote grp
                    @ '' was running an agent turn when the daemon stopped; '' @ squote ''choco task retry''
                    @ '' continues it, resuming the agent'' @ [CHR 0x27] @ ''s session when it can'' in
              case br_stopped rd of
                Inr reread \<Rightarrow> (reason, case reread of None \<Rightarrow> session | Some s \<Rightarrow> s, True)
              | Inl err \<Rightarrow>
                  (reason @ ''; the interrupted session could not be recorded ('' @ err
                     @ ''), so retry will start the branch fresh'', session, False))
           else
             (''branch '' @ squote name @ '' of parallel stage '' @ squote grp
                @ '': the daemon stopped before the branch'' @ [CHR 0x27]
                @ ''s end was recorded (its session had ended: '' @ show_status (se_status session)
                @ '', end reason ''
                @ (case se_end_reason session of None \<Rightarrow> ''none'' | Some r \<Rightarrow> show_end_reason r) @ ''); ''
                @ squote ''choco task retry'' @ '' re-runs it, resuming the agent'' @ [CHR 0x27]
                @ ''s session when it can'', session, True));
          (reason, resumable) =
            (if \<not> recorded then (reason, False)
             else (case br_resumable rd session of
                     Inr verdict \<Rightarrow> (reason, verdict)
                   | Inl err \<Rightarrow>
                       (reason @ '' (could not tell whether its session can be resumed: '' @ err @ '')'', False)));
          reason = (case br_read_only rd session of None \<Rightarrow> reason | Some found \<Rightarrow> reason @ ''; '' @ found)
        in Some (reason, resumable)))"

definition interrupted_branch :: "string \<Rightarrow> string \<Rightarrow> branch_reads \<Rightarrow> (string \<times> bool) option" where
  "interrupted_branch grp name rd =
     (case br_work rd of
        Queued \<Rightarrow> None
      | Live session \<Rightarrow> interrupted_session grp name rd session
      | Ended session \<Rightarrow> interrupted_session grp name rd session
      | NeverStarted \<Rightarrow> Some
          (''branch '' @ squote name @ '' of parallel stage '' @ squote grp
             @ '': the daemon stopped before the branch'' @ [CHR 0x27] @ ''s session started; ''
             @ squote ''choco task retry'' @ '' starts it fresh'', False))"

definition unreadable_reason :: "string \<Rightarrow> string \<Rightarrow> string" where
  "unreadable_reason grp name =
     ''branch '' @ squote name @ '' of parallel stage '' @ squote grp
     @ '' had no readable state when the daemon restarted; '' @ squote ''choco task retry'' @ '' starts it fresh''"

definition ensure_slot :: "string \<Rightarrow> json \<Rightarrow> json" where
  "ensure_slot name payload =
     jmodify ''parallel'' (jmodify ''branches'' (\<lambda>slots.
       if \<not> is_object slots then slots
       else if jget name slots = None then jset name (obj_of [(''state'', JStr ''running'')]) slots
       else slots)) payload"

definition park_branch ::
  "string \<Rightarrow> string \<Rightarrow> (string \<Rightarrow> branch_reads) \<Rightarrow> string \<Rightarrow> json \<times> (string \<times> string) list \<Rightarrow>
   json \<times> (string \<times> string) list"
where
  "park_branch now grp reads name acc =
     (case acc of (payload, failed_now) \<Rightarrow>
       (case branch_state payload name of
          Some st \<Rightarrow>
            (if st = ''done'' \<or> st = ''failed'' then (payload, failed_now)
             else if st = ''running'' then
               (case interrupted_branch grp name (reads name) of
                  None \<Rightarrow> (payload, failed_now)
                | Some (reason, resumable) \<Rightarrow>
                    (fail_branch name reason resumable now payload, failed_now @ [(name, reason)]))
             else (fail_branch name (unreadable_reason grp name) False now (ensure_slot name payload),
                   failed_now @ [(name, unreadable_reason grp name)]))
        | None \<Rightarrow>
            (fail_branch name (unreadable_reason grp name) False now (ensure_slot name payload),
             failed_now @ [(name, unreadable_reason grp name)])))"

datatype park_step =
    LeaveAlone
  | ParkStuck string
  | ParkRunning state_update "(string \<times> string) list"
  | ParkSettled state_update string "(string \<times> string) list"

definition park_group_branches ::
  "string \<Rightarrow> string \<Rightarrow> branch imap \<Rightarrow> (string \<Rightarrow> branch_reads) \<Rightarrow> workflow_state \<Rightarrow> park_step"
where
  "park_group_branches now grp branches reads row =
     (case fold (park_branch now grp reads) (ikeys branches) (ws_payload row, []) of
        (payload, failed_now) \<Rightarrow>
          (let running = any_state ''running'' branches payload;
               failed = any_state ''failed'' branches payload in
           if running \<and> failed_now = [] then LeaveAlone
           else if \<not> running \<and> \<not> failed then
             ParkStuck (''parallel stage '' @ squote grp @ '': every branch is done but the task is still at the ''
                        @ ''group; the restart sweep does not move it on'')
           else if running then ParkRunning (group_update row payload) failed_now
           else ParkSettled (group_update row payload) (settle_reason grp branches payload) failed_now))"

definition park_group_locked ::
  "string \<Rightarrow> string \<Rightarrow> branch imap \<Rightarrow> (string \<Rightarrow> branch_reads) \<Rightarrow> workflow_state \<Rightarrow> park_step"
where
  "park_group_locked now grp branches reads row =
     (case (block_entry (ws_payload row) grp,
            Option.bind (Option.bind (block_for (ws_payload row) grp) (jget ''branches'')) as_object) of
        (Some _, Some _) \<Rightarrow> park_group_branches now grp branches reads row
      | _ \<Rightarrow> ParkStuck
               (''parallel stage '' @ squote grp @ '' has no branch state in the workflow payload, so the ''
                @ ''restart sweep could not tell which branches were interrupted''))"

text \<open>The branches a retry re-enters, and the one write that sets their slots running.\<close>

definition rerun_names :: "branch imap \<Rightarrow> json \<Rightarrow> string list" where
  "rerun_names branches payload =
     filter (\<lambda>name. branch_state payload name \<noteq> Some ''done'') (ikeys branches)"

definition rerun_payload :: "string \<Rightarrow> string list \<Rightarrow> json \<Rightarrow> json option" where
  "rerun_payload started_at names payload =
     (case Option.bind (Option.bind (jget ''parallel'' payload) (jget ''branches'')) as_object of
        None \<Rightarrow> None
      | Some _ \<Rightarrow>
          Some (jmodify ''parallel'' (jmodify ''branches'' (\<lambda>slots.
                  fold (\<lambda>name. jset name (running_slot started_at)) names slots)) payload))"

text \<open>
  retry_group_locked up to its first write: the reads decide, a refusal changes nothing. Each
  branch comes with its last session, that session's lap, resumable_session's verdict (\<open>Inl\<close> why
  not, \<open>Inr\<close> what to resume) and whether its base start event is there.
\<close>

datatype retry_mode = Auto | ResumeOnly | Fresh

datatype (plugins only: code) retry_error =
    RetryNoSuchTask
  | NotStuck string
  | RetryPaused string string
  | RetryQueued string u32
  | RetryNoWorkflowState
  | RetryUnknownStage string
  | RunStillActive string
  | BranchStillActive string string
  | RetryGroupStateMissing string
  | NothingToRetry string
  | RetryLoad string
  | RetryEnter engine_error
  | NotResumable string
  | RewatchTakesNoMode string string

record retry_reads =
  rt_last :: "session option"
  rt_lap :: "int option"
  rt_verdict :: "(string, resume_session) result"
  rt_started :: bool

record rerun =
  ru_name :: string
  ru_resume :: "resume_session option"
  ru_fresh_reason :: "string option"
  ru_needs_base_start :: bool

definition branch_resumable :: "retry_mode \<Rightarrow> string \<Rightarrow> int \<Rightarrow> retry_reads \<Rightarrow> (string, resume_session) result" where
  "branch_resumable mode grp entry_no rd =
     (if mode = Fresh then Inl ''a fresh start was asked for''
      else if rt_last rd \<noteq> None \<and> rt_lap rd \<noteq> Some entry_no then
        Inl (''its last session belongs to an earlier entry of parallel stage '' @ squote grp)
      else rt_verdict rd)"

definition rerun_branch ::
  "retry_mode \<Rightarrow> string \<Rightarrow> int \<Rightarrow> (string \<Rightarrow> retry_reads) \<Rightarrow> string \<Rightarrow> (retry_error, rerun) result"
where
  "rerun_branch mode grp entry_no reads name =
     (case branch_resumable mode grp entry_no (reads name) of
        Inr resume \<Rightarrow> Inr \<lparr>ru_name = name, ru_resume = Some resume, ru_fresh_reason = None,
                           ru_needs_base_start = \<not> rt_started (reads name)\<rparr>
      | Inl why \<Rightarrow>
          (if mode = ResumeOnly then
             Inl (NotResumable (''branch '' @ squote name @ '' of parallel stage '' @ squote grp @ '': '' @ why))
           else Inr \<lparr>ru_name = name, ru_resume = None, ru_fresh_reason = Some why,
                     ru_needs_base_start = \<not> rt_started (reads name)\<rparr>))"

definition retry_group ::
  "retry_mode \<Rightarrow> string \<Rightarrow> string \<Rightarrow> branch imap \<Rightarrow> (string \<Rightarrow> retry_reads) \<Rightarrow> workflow_state \<Rightarrow>
   (retry_error, rerun list \<times> state_update) result"
where
  "retry_group mode started_at grp branches reads row =
     (case block_entry (ws_payload row) grp of
        None \<Rightarrow> Inl (RetryGroupStateMissing grp)
      | Some entry_no \<Rightarrow>
          and_then (for_each (\<lambda>name.
              fail_if (map_option se_status (rt_last (reads name)) = Some Active) (BranchStillActive grp name))
              (ikeys branches)) (\<lambda>_.
          and_then (map_res (rerun_branch mode grp entry_no reads) (rerun_names branches (ws_payload row)))
            (\<lambda>reruns.
             if reruns = [] then Inl (NothingToRetry grp)
             else (case rerun_payload started_at (map ru_name reruns) (ws_payload row) of
                     None \<Rightarrow> Inl (RetryGroupStateMissing grp)
                   | Some payload \<Rightarrow>
                       Inr (reruns, \<lparr>su_current_stage = grp, su_stage_kind = ''parallel'',
                                    su_loop_counters = ws_loop_counters row, su_payload = payload,
                                    su_enters_stage = False\<rparr>)))))"

text \<open>What the caller is told about the branches that start over.\<close>

definition retry_fresh_reason :: "rerun list \<Rightarrow> string option" where
  "retry_fresh_reason reruns =
     (let fresh = List.map_filter
            (\<lambda>r. map_option (\<lambda>why. squote (ru_name r) @ '' ('' @ why @ '')'') (ru_fresh_reason r)) reruns
      in if fresh = [] then None
         else Some (show_nat (length fresh) @ '' of '' @ show_nat (length reruns)
                    @ '' re-run branch(es) start fresh: '' @ join ''; '' fresh))"

section \<open>Lemmas\<close>

lemma jget_jmodify:
  "jget j (jmodify k f p) = (if j = k then map_option f (jget k p) else jget j p)"
  by (simp add: jmodify_def jget_set split: option.split)

lemma branch_slot_end_branch:
  "branch_slot (end_branch b new_fields now p) c =
     (if c = b then map_option (\<lambda>slot. jset ''ended_at'' (JStr now)
         (jset ''started_at'' (case jget ''started_at'' slot of None \<Rightarrow> JNull | Some v \<Rightarrow> v) new_fields))
        (branch_slot p b)
      else branch_slot p c)"
  by (cases "jget ''parallel'' p"; cases "jget ''branches'' (the (jget ''parallel'' p))")
     (simp_all add: branch_slot_def end_branch_def jget_jmodify)

lemma branch_state_end_branch:
  "branch_state (end_branch b new_fields now p) c =
     (if c = b then (if branch_slot p b = None then None else Option.bind (jget ''state'' new_fields) as_str)
      else branch_state p c)"
  by (cases "branch_slot p b") (simp_all add: branch_state_def branch_slot_end_branch)

lemma jget_end_branch: "k \<noteq> ''parallel'' \<Longrightarrow> jget k (end_branch b new_fields now p) = jget k p"
  by (simp add: end_branch_def jget_jmodify)

lemma branch_slot_frame: "jget ''parallel'' q = jget ''parallel'' p \<Longrightarrow> branch_slot q c = branch_slot p c"
  by (simp add: branch_slot_def)

lemma branch_state_frame: "jget ''parallel'' q = jget ''parallel'' p \<Longrightarrow> branch_state q c = branch_state p c"
  by (simp add: branch_state_def branch_slot_def)

lemma state_done_fields [simp]: "Option.bind (jget ''state'' (done_fields r)) as_str = Some ''done''"
  by (simp add: done_fields_def jget_obj_of_map)

lemma state_failed_fields [simp]: "Option.bind (jget ''state'' (failed_fields r x)) as_str = Some ''failed''"
  by (simp add: failed_fields_def jget_obj_of_map)

lemma branch_state_fail_branch:
  "branch_state (fail_branch b r x now p) c =
     (if c = b then (if branch_slot p b = None then None else Some ''failed'') else branch_state p c)"
  by (simp add: fail_branch_def branch_state_end_branch)

lemma branch_state_slot: "branch_state p b = Some s \<Longrightarrow> branch_slot p b \<noteq> None"
  by (cases "branch_slot p b") (simp_all add: branch_state_def)

text \<open>What the end of a branch does to the slots: its own becomes done or failed.\<close>

lemma branch_state_after_end:
  assumes "branch_slot p b \<noteq> None"
  shows "branch_state (branch_end_payload b e verdict now p) c =
     (if c = b then Some (case e of BranchDone _ _ _ \<Rightarrow> ''done'' | BranchFailed _ \<Rightarrow> ''failed'')
      else branch_state p c)"
proof (cases e)
  case (BranchDone r cap remark)
  have "branch_state (branch_end_payload b e verdict now p) c =
      branch_state (end_branch b (done_fields r) now p) c"
    by (rule branch_state_frame)
       (cases cap; simp add: BranchDone branch_end_payload_def Let_def FINISHED_STAGES_def
          finished_write.frame capture_write.frame)
  with assms BranchDone show ?thesis by (cases "branch_slot p b") (simp_all add: branch_state_end_branch)
next
  case (BranchFailed r)
  then show ?thesis
    using assms
    by (cases verdict; cases "branch_slot p b") (simp_all add: branch_end_payload_def branch_state_fail_branch)
qed

definition slot_valid :: "string option \<Rightarrow> bool" where
  "slot_valid st = (st \<in> {Some ''running'', Some ''done'', Some ''failed''})"

definition ended_state :: "branch_outcome \<Rightarrow> string" where
  "ended_state e = (case e of BranchDone _ _ _ \<Rightarrow> ''done'' | BranchFailed _ \<Rightarrow> ''failed'')"

definition others :: "branch imap \<Rightarrow> string \<Rightarrow> string list" where
  "others branches branch = filter (\<lambda>name. name \<noteq> branch) (ikeys branches)"

lemma any_state_after_end:
  assumes "branch_slot p b \<noteq> None" and "b \<in> set (ikeys branches)"
  shows "any_state st branches (branch_end_payload b e verdict now p) \<longleftrightarrow>
    ended_state e = st \<or> list_ex (\<lambda>name. branch_state p name = Some st) (others branches b)"
  using assms(2)
  by (auto simp: any_state_def list_ex_iff others_def ended_state_def branch_state_after_end [OF assms(1)])

lemma not_dropped_row:
  "branch_end_dropped status state w branch sid cur = Inr row \<Longrightarrow>
     state = Some row \<and> ws_current_stage row = bw_group w \<and> branch_state (ws_payload row) branch = Some ''running'' \<and>
     block_entry (ws_payload row) (bw_group w) = Some (bw_entry w)"
  by (auto simp: branch_end_dropped_def block_entry_def split: option.splits if_splits)

text \<open>The sweep and a retry write slots of an object.\<close>

definition slots_object :: "json \<Rightarrow> bool" where
  "slots_object p = (Option.bind (Option.bind (jget ''parallel'' p) (jget ''branches'')) as_object \<noteq> None)"

lemma slots_object_cases:
  assumes "slots_object p"
  obtains block m where "jget ''parallel'' p = Some block" "jget ''branches'' block = Some (JObj m)"
  using assms by (auto simp: slots_object_def bind_eq_Some_conv as_object_iff)

lemma jmodify_object: "is_object v \<Longrightarrow> is_object (jmodify k f v)"
  by (simp add: jmodify_def split: option.split)

lemma is_object_iff: "is_object v \<longleftrightarrow> (\<exists>m. v = JObj m)"
  by (cases v) simp_all

lemma slots_object_modify:
  assumes "slots_object p" and "\<And>m. is_object (f (JObj m))"
  shows "slots_object (jmodify ''parallel'' (jmodify ''branches'' f) p)"
  using assms(1)
proof (rule slots_object_cases)
  fix block m
  assume p: "jget ''parallel'' p = Some block" "jget ''branches'' block = Some (JObj m)"
  obtain m' where "f (JObj m) = JObj m'" using assms(2) is_object_iff by blast
  with p show ?thesis by (simp add: slots_object_def jget_jmodify)
qed

lemma slots_object_end_branch: "slots_object p \<Longrightarrow> slots_object (end_branch b nf now p)"
  unfolding end_branch_def by (rule slots_object_modify) (simp_all add: jmodify_object)

lemma slots_object_ensure: "slots_object p \<Longrightarrow> slots_object (ensure_slot n p)"
  unfolding ensure_slot_def by (rule slots_object_modify) simp_all

lemma branch_slot_ensure:
  assumes "slots_object p"
  shows "branch_slot (ensure_slot n p) c =
     (if c = n \<and> branch_slot p n = None then Some (obj_of [(''state'', JStr ''running'')]) else branch_slot p c)"
  using assms
proof (rule slots_object_cases)
  fix block m
  assume p: "jget ''parallel'' p = Some block" "jget ''branches'' block = Some (JObj m)"
  show ?thesis
    by (cases "map_of m n") (auto simp: branch_slot_def ensure_slot_def jget_jmodify jget_set p)
qed

lemma branch_state_fail_ensure:
  "slots_object p \<Longrightarrow> branch_state (fail_branch n r x now (ensure_slot n p)) c =
     (if c = n then Some ''failed'' else branch_state p c)"
proof -
  assume p: "slots_object p"
  have "branch_slot (ensure_slot n p) n \<noteq> None" using branch_slot_ensure [OF p, of n n] by simp
  moreover have "c \<noteq> n \<Longrightarrow> branch_state (ensure_slot n p) c = branch_state p c"
    using branch_slot_ensure [OF p, of n c] by (simp add: branch_state_def)
  ultimately show ?thesis by (auto simp: branch_state_fail_branch)
qed

text \<open>What the sweep makes of a branch.\<close>

definition swept_state :: "string \<Rightarrow> (string \<Rightarrow> branch_reads) \<Rightarrow> json \<Rightarrow> string \<Rightarrow> string" where
  "swept_state grp reads p name =
     (if branch_state p name = Some ''done'' then ''done''
      else if branch_state p name = Some ''running'' \<and> interrupted_branch grp name (reads name) = None
      then ''running'' else ''failed'')"

lemma park_branch_state:
  assumes "slots_object p" and "park_branch now grp reads name (p, failed) = (p', failed')"
  shows "slots_object p' \<and>
    branch_state p' c = (if c = name then Some (swept_state grp reads p name) else branch_state p c) \<and>
    map fst failed' = map fst failed @
      (if Some (swept_state grp reads p name) = branch_state p name then [] else [name])"
proof -
  consider (settled) st where "branch_state p name = Some st" "st = ''done'' \<or> st = ''failed''"
    | (running) "branch_state p name = Some ''running''"
    | (odd) "branch_state p name \<notin> {Some ''done'', Some ''failed'', Some ''running''}"
    by blast
  then show ?thesis
  proof cases
    case settled
    then show ?thesis using assms by (auto simp: park_branch_def swept_state_def)
  next
    case running
    then have slot: "branch_slot p name \<noteq> None" by (rule branch_state_slot)
    show ?thesis
    proof (cases "interrupted_branch grp name (reads name)")
      case None
      with running assms show ?thesis by (auto simp: park_branch_def swept_state_def)
    next
      case (Some w)
      with running assms slot show ?thesis
        by (auto simp: park_branch_def swept_state_def branch_state_fail_branch fail_branch_def
            slots_object_end_branch branch_state_end_branch split: prod.splits)
    qed
  next
    case odd
    with assms have p': "p' = fail_branch name (unreadable_reason grp name) False now (ensure_slot name p)"
      and f: "failed' = failed @ [(name, unreadable_reason grp name)]"
      by (auto simp: park_branch_def split: option.splits)
    have "slots_object p'"
      unfolding p' fail_branch_def by (intro slots_object_end_branch slots_object_ensure assms(1))
    moreover have "swept_state grp reads p name = ''failed''" using odd by (auto simp: swept_state_def)
    ultimately show ?thesis
      using odd f unfolding p' by (auto simp: branch_state_fail_ensure [OF assms(1)])
  qed
qed

lemma park_fold:
  assumes "slots_object p" and "distinct names"
    and "fold (park_branch now grp reads) names (p, failed) = (p', failed')"
  shows "slots_object p' \<and>
    branch_state p' c = (if c \<in> set names then Some (swept_state grp reads p c) else branch_state p c) \<and>
    map fst failed' = map fst failed @
      filter (\<lambda>n. Some (swept_state grp reads p n) \<noteq> branch_state p n) names"
  using assms
proof (induction names arbitrary: p failed)
  case (Cons name names)
  obtain q fq where q: "park_branch now grp reads name (p, failed) = (q, fq)" by fastforce
  note step = park_branch_state [OF Cons.prems(1) q]
  have same: "swept_state grp reads q n = swept_state grp reads p n" "branch_state q n = branch_state p n"
    if "n \<noteq> name" for n
    using step [of n] that by (simp_all add: swept_state_def)
  have "filter (\<lambda>n. Some (swept_state grp reads q n) \<noteq> branch_state q n) names =
      filter (\<lambda>n. Some (swept_state grp reads p n) \<noteq> branch_state p n) names"
  proof (rule filter_cong [OF refl])
    fix x
    assume "x \<in> set names"
    then have "x \<noteq> name" using Cons.prems(2) by auto
    then show "(Some (swept_state grp reads q x) \<noteq> branch_state q x) =
        (Some (swept_state grp reads p x) \<noteq> branch_state p x)" by (simp add: same)
  qed
  with Cons.IH [of q fq] Cons.prems step [of c] q same [of c] show ?case
    by auto
qed simp

lemma branch_state_rerun:
  assumes "rerun_payload t names p = Some p'"
  shows "branch_state p' c = (if c \<in> set names then Some ''running'' else branch_state p c)"
proof -
  obtain block m where p: "jget ''parallel'' p = Some block" "jget ''branches'' block = Some (JObj m)"
    and p': "p' = jmodify ''parallel'' (jmodify ''branches'' (\<lambda>slots.
        fold (\<lambda>name. jset name (running_slot t)) names slots)) p"
    using assms by (auto simp: rerun_payload_def bind_eq_Some_conv as_object_iff split: option.splits)
  have "jget c (fold (\<lambda>name. jset name (running_slot t)) names v) =
      (if c \<in> set names then Some (running_slot t) else jget c v)" for v
    by (induction names arbitrary: v) (auto simp: jget_set)
  then show ?thesis
    by (auto simp: p' branch_state_def branch_slot_def jget_jmodify p running_slot_def jget_obj_of_map)
qed

section \<open>Properties\<close>

text \<open>
  C35. The end of a branch has one of three effects, and which one depends only on how this branch
  ended (a result outside its declared results is a failure) and on the other branches' states:
  while another branch runs the end is recorded and the group goes on waiting; when none runs and
  this or another branch failed, the group settles as stuck, with the branches named; otherwise
  the group is left, by the same transition its done outcome takes.
\<close>

theorem branch_end_decides_group:
  assumes "branch_end_dropped status state w branch session_id current = Inr row"
    and "branch_of d branch = Some b"
    and "Option.bind (stage_of d (bw_group w)) (\<lambda>s. group_branches (sd_kind s)) = Some branches"
    and "branch \<in> set (ikeys branches)"
    and "e' = checked_end branch (bf_results b) e"
    and "p = branch_end_payload branch e' verdict (ch_stamp C now) (ws_payload row)"
  shows "apply_branch_end C d nows now status state w branch session_id current verdict e =
    (if list_ex (\<lambda>o'. branch_state (ws_payload row) o' = Some ''running'') (others branches branch)
     then Some (Inr (RecordedRunning (group_update row p)))
     else if ended_state e' = ''failed''
       \<or> list_ex (\<lambda>o'. branch_state (ws_payload row) o' = Some ''failed'') (others branches branch)
     then Some (Inr (SettledStuck (group_update row p) (settle_reason (bw_group w) branches p)))
     else map_option (\<lambda>r. and_then r (\<lambda>(next_stage, u). Inr (LeftGroup next_stage u)))
            (compute_transition C d nows (row\<lparr>ws_payload := p\<rparr>) ''done'' None))"
proof -
  have slot: "branch_slot (ws_payload row) branch \<noteq> None"
    using not_dropped_row [OF assms(1)] branch_state_slot by blast
  have r: "any_state ''running'' branches p \<longleftrightarrow>
      list_ex (\<lambda>o'. branch_state (ws_payload row) o' = Some ''running'') (others branches branch)"
    unfolding assms(6) any_state_after_end [OF slot assms(4)]
    by (auto simp: ended_state_def split: branch_outcome.splits)
  have f: "any_state ''failed'' branches p \<longleftrightarrow> ended_state e' = ''failed'' \<or>
      list_ex (\<lambda>o'. branch_state (ws_payload row) o' = Some ''failed'') (others branches branch)"
    unfolding assms(6) any_state_after_end [OF slot assms(4)] by simp
  show ?thesis
    using assms(1-3) assms(5,6) [symmetric] r f
    by (simp add: apply_branch_end_def settle_group_def Let_def)
qed


text \<open>
  A retry of a group re-enters exactly the branches that are not done, and it starts nothing
  over a live session: afterwards every branch is running or done, the done ones untouched. With
  --resume every re-entered branch resumes its session (or the whole retry is refused), with a
  fresh start none does, and a session of an earlier entry of the group is never resumed.
\<close>

theorem group_retry_reenters:
  assumes "retry_group mode started_at grp branches reads row = Inr (reruns, u)"
  shows "map ru_name reruns = filter (\<lambda>n. branch_state (ws_payload row) n \<noteq> Some ''done'') (ikeys branches)
    \<and> reruns \<noteq> []
    \<and> list_all (\<lambda>n. branch_state (su_payload u) n =
        Some (if branch_state (ws_payload row) n = Some ''done'' then ''done'' else ''running'')
        \<and> map_option se_status (rt_last (reads n)) \<noteq> Some Active) (ikeys branches)
    \<and> list_all (\<lambda>r. (mode = ResumeOnly \<longrightarrow> ru_resume r \<noteq> None) \<and> (mode = Fresh \<longrightarrow> ru_resume r = None)
        \<and> (ru_resume r \<noteq> None \<longrightarrow> rt_last (reads (ru_name r)) = None \<or>
             rt_lap (reads (ru_name r)) = block_entry (ws_payload row) grp)) reruns"
proof -
  obtain entry_no p where e: "block_entry (ws_payload row) grp = Some entry_no"
    and live: "\<forall>n\<in>set (ikeys branches). map_option se_status (rt_last (reads n)) \<noteq> Some Active"
    and m: "map_res (rerun_branch mode grp entry_no reads) (rerun_names branches (ws_payload row)) = Inr reruns"
    and ne: "reruns \<noteq> []"
    and p: "rerun_payload started_at (map ru_name reruns) (ws_payload row) = Some p" "su_payload u = p"
    using assms by (auto simp: retry_group_def result_simps split: option.splits if_splits)
  have one: "rerun_branch mode grp entry_no reads n = Inr r \<Longrightarrow>
      ru_name r = n \<and> (mode = ResumeOnly \<longrightarrow> ru_resume r \<noteq> None) \<and> (mode = Fresh \<longrightarrow> ru_resume r = None)
      \<and> (ru_resume r \<noteq> None \<longrightarrow> rt_last (reads n) = None \<or> rt_lap (reads n) = Some entry_no)" for n r
    by (auto simp: rerun_branch_def branch_resumable_def split: sum.splits if_splits)
  have all: "list_all2 (\<lambda>n r. rerun_branch mode grp entry_no reads n = Inr r)
      (rerun_names branches (ws_payload row)) reruns"
    using m by (simp add: map_res_ok)
  have names: "map ru_name reruns = rerun_names branches (ws_payload row)"
    using all by (induction rule: list_all2_induct) (auto dest: one)
  have "list_all (\<lambda>r. (mode = ResumeOnly \<longrightarrow> ru_resume r \<noteq> None) \<and> (mode = Fresh \<longrightarrow> ru_resume r = None)
        \<and> (ru_resume r \<noteq> None \<longrightarrow> rt_last (reads (ru_name r)) = None \<or>
             rt_lap (reads (ru_name r)) = Some entry_no)) reruns"
    using all
  proof (induction rule: list_all2_induct)
    case (Cons n ns r rs)
    with one [of n r] show ?case by simp
  qed simp
  with e live ne names p branch_state_rerun [OF p(1)] show ?thesis
    by (auto simp: rerun_names_def list_all_iff)
qed

definition example_panel :: workflow_definition where
  "example_panel =
     \<lparr>wd_name = ''panel'', wd_roles = [],
      wd_stages =
        [(''review'', StageDef
            (Parallel
              [(''tests'', Branch (StageDef (AgentTurn ''r'' None (Some CaptureJson) []) [] None) [''ok'', ''bad'']),
               (''docs'', Branch (StageDef (AgentTurn ''r'' None None []) [] None) [''done''])])
            [(''done'', ''end'')] None),
         (''end'', StageDef Terminal [] None)],
      wd_worktree = True\<rparr>"

definition example_chrono :: chrono where
  "example_chrono =
     \<lparr>ch_stamp = (\<lambda>t. ''stamp''), ch_nanos = (\<lambda>t. replicate (nat t) (CHR ''.'')),
      ch_limit = (\<lambda>d. Inr (int (as_secs d) * 1000000000 + int (subsec_nanos d))),
      ch_add = (\<lambda>t l. if t + l < 0 then None else Some (t + l)),
      ch_read = (\<lambda>s. Some (int (length s))),
      ch_window_error = (\<lambda>v. ''error'')\<rparr>"

definition example_row :: workflow_state where
  "example_row =
     \<lparr>ws_current_stage = ''review'', ws_stage_kind = Some ''parallel'', ws_loop_counters = obj_of [],
      ws_payload = set_parallel_block example_chrono example_panel ''review'' 0 (obj_of []),
      ws_updated_at = 0, ws_stage_entered_at = Some 0\<rparr>"

definition example_watcher :: branch_watch where
  "example_watcher = \<lparr>bw_group = ''review'', bw_entry = 1\<rparr>"

lemma example_not_dropped:
  "branch_end_dropped (Some ''open'') (Some example_row) example_watcher ''tests'' ''s1'' (Some ''s1'') = Inr example_row"
  by code_simp

lemma example_branch: "branch_of example_panel ''tests'' =
    Some \<lparr>bf_group = ''review'', bf_def = StageDef (AgentTurn ''r'' None (Some CaptureJson) []) [] None,
          bf_results = [''ok'', ''bad'']\<rparr>"
  by code_simp

lemma example_branches: "Option.bind (stage_of example_panel ''review'') (\<lambda>s. group_branches (sd_kind s)) =
    Some [(''tests'', Branch (StageDef (AgentTurn ''r'' None (Some CaptureJson) []) [] None) [''ok'', ''bad'']),
          (''docs'', Branch (StageDef (AgentTurn ''r'' None None []) [] None) [''done''])]"
  by code_simp

lemma example_docs_running: "branch_state (ws_payload example_row) ''docs'' = Some ''running''"
  by code_simp

theorem branch_end_decides_group_witness:
  "apply_branch_end example_chrono example_panel (0, 0, 0) 5 (Some ''open'') (Some example_row) example_watcher
     ''tests'' ''s1'' (Some ''s1'') (Inr False) (BranchDone ''ok'' None None) =
   Some (Inr (RecordedRunning (group_update example_row
     (branch_end_payload ''tests'' (BranchDone ''ok'' None None) (Inr False) ''stamp'' (ws_payload example_row)))))"
proof -
  have g: "bw_group example_watcher = ''review''" by (simp add: example_watcher_def)
  have st: "ch_stamp example_chrono 5 = ''stamp''" by (simp add: example_chrono_def)
  show ?thesis
    using branch_end_decides_group [OF example_not_dropped example_branch
        example_branches [folded g] _ refl refl,
        of example_chrono "(0, 0, 0)" 5 "Inr False" "BranchDone ''ok'' None None"]
    by (simp add: st checked_end_def others_def ikeys_def example_docs_running)
qed

definition example_panel_branches :: "branch imap" where
  "example_panel_branches =
     (case Option.bind (stage_of example_panel ''review'') (\<lambda>s. group_branches (sd_kind s)) of
        None \<Rightarrow> [] | Some bs \<Rightarrow> bs)"

definition example_reads :: branch_reads where
  "example_reads = \<lparr>br_work = NeverStarted, br_stopped = Inr None, br_resumable = (\<lambda>_. Inr False),
                    br_read_only = (\<lambda>_. None)\<rparr>"

lemma example_panel_keys: "imap_ok example_panel_branches"
  by (simp add: example_panel_branches_def example_branches imap_ok_def ikeys_def)


definition example_retry_reads :: retry_reads where
  "example_retry_reads = \<lparr>rt_last = None, rt_lap = None, rt_verdict = Inl ''no session'', rt_started = True\<rparr>"

theorem group_retry_reenters_witness:
  "\<exists>reruns u. retry_group Auto ''t'' ''review'' example_panel_branches (\<lambda>_. example_retry_reads) example_row
       = Inr (reruns, u) \<and> map ru_name reruns = [''tests'', ''docs'']"
proof -
  have "is_ok (retry_group Auto ''t'' ''review'' example_panel_branches (\<lambda>_. example_retry_reads) example_row)"
    by code_simp
  then obtain reruns u where r:
    "retry_group Auto ''t'' ''review'' example_panel_branches (\<lambda>_. example_retry_reads) example_row = Inr (reruns, u)"
    by (auto simp: is_ok_iff)
  have "filter (\<lambda>n. branch_state (ws_payload example_row) n \<noteq> Some ''done'') (ikeys example_panel_branches)
      = [''tests'', ''docs'']"
    by code_simp
  with group_retry_reenters [OF r] r show ?thesis by simp
qed

end
