(* ===== verification/Retry.thy ===== *)
theory Retry
  imports Group
begin

text \<open>
  Retrying a task (engine/mod.rs: retry_task_locked): the reads decide between watching again
  after a watcher's timeout, re-entering a parallel group's branches, and re-entering the current
  stage with or without its agent session; every refusal comes before the first write. What the
  code reads from the database is an argument.
\<close>

definition TASK_STATUS_STUCK :: string where "TASK_STATUS_STUCK = ''stuck''"

text \<open>The state write a retry makes, and what it then enters.\<close>

datatype retry_plan =
    Rewatched string state_update
  | GroupRetried "rerun list" state_update
  | Reentered string "resume_session option" "string option" "state_update option"

text \<open>
  A retried watcher gets a fresh window; nothing is written when neither the payload nor the
  stage's kind changes.
\<close>

definition reenter_update ::
  "chrono \<Rightarrow> workflow_definition \<Rightarrow> time \<Rightarrow> stage_def \<Rightarrow> workflow_state \<Rightarrow>
   (engine_error, state_update option) result"
where
  "reenter_update C d now sd row =
     and_then (set_poll_window C d (ws_current_stage row) now (ws_payload row)) (\<lambda>new_payload.
       Inr (if new_payload \<noteq> ws_payload row \<or> ws_stage_kind row \<noteq> Some (stage_kind_name (sd_kind sd)) then
              Some \<lparr>su_current_stage = ws_current_stage row, su_stage_kind = stage_kind_name (sd_kind sd),
                    su_loop_counters = ws_loop_counters row, su_payload = new_payload,
                    su_enters_stage = False\<rparr>
            else None))"

definition rewatch_error :: "engine_error \<Rightarrow> retry_error" where
  "rewatch_error e = (case e of UnknownStage s \<Rightarrow> RetryUnknownStage s | _ \<Rightarrow> RetryEnter e)"

definition retry_open ::
  "chrono \<Rightarrow> workflow_definition \<Rightarrow> time \<Rightarrow> string \<Rightarrow> retry_mode \<Rightarrow> (string \<times> u32) option \<Rightarrow> workflow_state \<Rightarrow>
   (retry_error, retry_plan) result"
where
  "retry_open C d now task_id mode queued row =
     (case queued of
        Some (stage, position) \<Rightarrow> Inl (RetryQueued stage position)
      | None \<Rightarrow>
          (case timed_out_watch d (ws_current_stage row) (ws_payload row) of
             None \<Rightarrow> Inl (NotStuck TASK_STATUS_OPEN)
           | Some t \<Rightarrow>
               if mode \<noteq> Auto then Inl (RewatchTakesNoMode task_id (to_from t))
               else and_then (map_err rewatch_error (rewatch C d now (ws_current_stage row) row t))
                      (\<lambda>u. Inr (Rewatched (to_from t) u))))"

definition retry_stage ::
  "chrono \<Rightarrow> workflow_definition \<Rightarrow> time \<Rightarrow> retry_mode \<Rightarrow> stage_def \<Rightarrow> session option \<Rightarrow>
   (string, resume_session) result \<Rightarrow> workflow_state \<Rightarrow> (retry_error, retry_plan) result"
where
  "retry_stage C d now mode sd last_session verdict row =
     (if map_option se_status last_session = Some Active then Inl (RunStillActive (ws_current_stage row))
      else
       (let resumable = (if mode = Fresh then Inl ''a fresh start was asked for'' else verdict) in
        case (mode, resumable) of
          (ResumeOnly, Inl why) \<Rightarrow> Inl (NotResumable why)
        | (_, Inl why) \<Rightarrow>
            and_then (map_err RetryEnter (reenter_update C d now sd row))
              (\<lambda>u. Inr (Reentered (ws_current_stage row) None (Some why) u))
        | (_, Inr resume) \<Rightarrow>
            and_then (map_err RetryEnter (reenter_update C d now sd row))
              (\<lambda>u. Inr (Reentered (ws_current_stage row) (Some resume) None u))))"

definition retry_task ::
  "chrono \<Rightarrow> (string, workflow_definition) result \<Rightarrow> time \<Rightarrow> string \<Rightarrow> string \<Rightarrow> retry_mode \<Rightarrow> string option \<Rightarrow>
   workflow_state option \<Rightarrow> (string \<times> u32) option \<Rightarrow> session option \<Rightarrow> (string, resume_session) result \<Rightarrow>
   (string \<Rightarrow> retry_reads) \<Rightarrow> (retry_error, retry_plan) result"
where
  "retry_task C loaded now started_at task_id mode status state queued last_session verdict reads =
     (case status of
        None \<Rightarrow> Inl RetryNoSuchTask
      | Some status \<Rightarrow>
          (if is_pause_status status then Inl (RetryPaused task_id status)
           else if status \<noteq> TASK_STATUS_STUCK \<and> status \<noteq> TASK_STATUS_OPEN then Inl (NotStuck status)
           else
             and_then (map_err RetryLoad loaded) (\<lambda>d.
             case state of
               None \<Rightarrow> Inl RetryNoWorkflowState
             | Some row \<Rightarrow>
                 (if status = TASK_STATUS_OPEN then retry_open C d now task_id mode queued row
                  else
                   (case stage_of d (ws_current_stage row) of
                      None \<Rightarrow> Inl (RetryUnknownStage (ws_current_stage row))
                    | Some sd \<Rightarrow>
                        (case group_branches (sd_kind sd) of
                           Some branches \<Rightarrow>
                             and_then (retry_group mode started_at (ws_current_stage row) branches reads row)
                               (\<lambda>(reruns, u). Inr (GroupRetried reruns u))
                         | None \<Rightarrow> retry_stage C d now mode sd last_session verdict row))))))"

section \<open>Poll windows\<close>

text \<open>
  What the code relies on of chrono: a time printed to the nanosecond reads back.
\<close>

definition reads_back :: "chrono \<Rightarrow> time \<Rightarrow> bool" where
  "reads_back C t = (ch_read C (ch_nanos C t) = Some t)"

lemma read_window_written:
  "read_window C (obj_of [(''stage'', JStr stage), (''entered_at'', JStr (ch_nanos C entered)), (''deadline'', deadline)])
   = read_window_fields C (JStr stage) (JStr (ch_nanos C entered)) deadline"
proof -
  obtain m where m: "obj_of [(''stage'', JStr stage), (''entered_at'', JStr (ch_nanos C entered)),
      (''deadline'', deadline)] = JObj m" by (simp add: obj_of_def)
  have "map_of m k = map_of (rev [(''stage'', JStr stage), (''entered_at'', JStr (ch_nanos C entered)),
      (''deadline'', deadline)]) k" for k
    using jget_obj_of_map [of k] unfolding m [symmetric] by (metis jget.simps(1) m)
  then show ?thesis by (simp add: m read_window_def)
qed

lemma set_poll_window_read:
  assumes "set_poll_window C d stage now payload = Inr p" and "watch_of d stage = Some w"
    and "reads_back C now"
    and "\<forall>l at. ch_add C now l = Some at \<longrightarrow> reads_back C at"
  shows "\<exists>dl. poll_window_for C p stage = Inr (Some \<lparr>pw_stage = stage, pw_entered_at = now, pw_deadline = dl\<rparr>)
    \<and> (case w_timeout w of None \<Rightarrow> dl = None
       | Some limit \<Rightarrow> \<exists>l. ch_limit C limit = Inr l \<and> ch_add C now l = dl \<and> dl \<noteq> None)"
proof -
  from assms(1,2) obtain deadline where
    dl: "window_deadline C stage (w_timeout w) now = Inr deadline"
    and p: "p = jset ''poll_window''
        (obj_of [(''stage'', JStr stage), (''entered_at'', JStr (ch_nanos C now)), (''deadline'', deadline)])
        (ensure_object payload)"
    by (auto simp: set_poll_window_def Let_def result_simps)
  note win = read_window_written [of C stage now deadline]
  show ?thesis
  proof (cases "w_timeout w")
    case None
    then have "deadline = JNull" using dl by (simp add: window_deadline_def)
    then show ?thesis
      using None win assms(3)
      by (simp add: p poll_window_for_def read_window_fields_def read_deadline_def reads_back_def)
  next
    case (Some limit)
    then obtain l at where l: "ch_limit C limit = Inr l" "ch_add C now l = Some at"
      "deadline = JStr (ch_nanos C at)"
      using dl by (auto simp: window_deadline_def result_simps split: option.splits)
    then show ?thesis
      using Some win assms(3) assms(4) l(2)
      by (simp add: p poll_window_for_def read_window_fields_def read_deadline_def reads_back_def)
  qed
qed

section \<open>Properties\<close>

text \<open>
  Watching again: from the gate a watcher's timeout led to, a retry takes the task back to
  that watcher, which still is a stage of the workflow with a watch; the loop counters are those
  the task had, the arrival says the gate was left by retry, and the window read back there is a
  fresh one, entered now, with a deadline exactly when the watch has a timeout. The stage the task
  then is in is no longer seen as timed out.
\<close>

theorem rewatch_opens_fresh_window:
  assumes "timed_out_watch d (ws_current_stage row) (ws_payload row) = Some t"
    and "rewatch C d now (ws_current_stage row) row t = Inr u"
    and "reads_back C now" and "\<forall>l at. ch_add C now l = Some at \<longrightarrow> reads_back C at"
  shows "su_current_stage u = to_from t \<and> su_loop_counters u = ws_loop_counters row \<and> su_enters_stage u
    \<and> jget ''arrival'' (su_payload u) =
        Some (obj_of [(''from'', JStr (ws_current_stage row)), (''outcome'', JStr ''retry'')])
    \<and> (\<exists>dl. poll_window_for C (su_payload u) (to_from t) =
             Inr (Some \<lparr>pw_stage = to_from t, pw_entered_at = now, pw_deadline = dl\<rparr>)
           \<and> (dl = None \<longleftrightarrow> to_timeout t = None))
    \<and> timed_out_watch d (su_current_stage u) (su_payload u) = None"
proof -
  from assms(1) obtain w s where w: "stage_of d (to_from t) = Some s" "stage_watch s = Some w"
    "to_timeout t = w_timeout w"
    by (auto simp: timed_out_watch_def bind_eq_Some_conv split: if_splits)
  then have watch: "watch_of d (to_from t) = Some w" by (simp add: watch_of_def)
  from assms(2) w(1) obtain p where
    p: "set_poll_window C d (to_from t) now (set_arrival (ws_current_stage row) ''retry'' (ws_payload row)) = Inr p"
    and u: "u = \<lparr>su_current_stage = to_from t, su_stage_kind = stage_kind_name (sd_kind s),
                 su_loop_counters = ws_loop_counters row, su_payload = p, su_enters_stage = True\<rparr>"
    by (auto simp: rewatch_def result_simps)
  have arrival: "jget ''arrival'' p =
      Some (obj_of [(''from'', JStr (ws_current_stage row)), (''outcome'', JStr ''retry'')])"
    using set_poll_window_frame [OF p, of "''arrival''"] by (simp add: jget_arrival)
  have "timed_out_watch d (to_from t) p = None"
    by (cases "stage_of d (to_from t)") (simp_all add: timed_out_watch_def arrival jget_obj_of_map)
  moreover obtain dl where "poll_window_for C p (to_from t) =
      Inr (Some \<lparr>pw_stage = to_from t, pw_entered_at = now, pw_deadline = dl\<rparr>)"
    "dl = None \<longleftrightarrow> w_timeout w = None"
    using set_poll_window_read [OF p watch assms(3,4)] by (auto split: option.splits)
  ultimately show ?thesis using arrival w(3) by (simp add: u)
qed

text \<open>
  Only a stuck task is retried, or an open one that a watcher's timeout parked at a gate and
  that waits for no agent slot; there is no session to resume or start afresh at such a gate, so
  that retry takes no mode. A stage whose session still runs is never re-entered, and a retry that
  insists on resuming never starts fresh.
\<close>

theorem retry_refuses:
  "case retry_task C loaded now started_at task_id mode status state queued last_session verdict reads of
     Inl e \<Rightarrow> True
   | Inr (Rewatched stage u) \<Rightarrow>
       status = Some ''open'' \<and> queued = None \<and> mode = Auto \<and> su_current_stage u = stage
   | Inr (GroupRetried reruns u) \<Rightarrow> status = Some ''stuck'' \<and> reruns \<noteq> []
   | Inr (Reentered stage resume why u) \<Rightarrow>
       status = Some ''stuck'' \<and> map_option se_status last_session \<noteq> Some Active
       \<and> map_option ws_current_stage state = Some stage
       \<and> (resume = None \<longleftrightarrow> why \<noteq> None)
       \<and> (if mode = ResumeOnly then resume \<noteq> None else True) \<and> (if mode = Fresh then resume = None else True)"
proof (cases "retry_task C loaded now started_at task_id mode status state queued last_session verdict reads")
  case (Inr plan)
  then obtain st where st: "status = Some st" by (cases status) (auto simp: retry_task_def)
  with Inr have task: "st = ''stuck'' \<or> st = ''open''" and "\<not> is_pause_status st"
    by (auto simp: retry_task_def TASK_STATUS_STUCK_def TASK_STATUS_OPEN_def split: if_splits)
  with st Inr obtain d row where row: "state = Some row"
    and r: "(if st = ''open'' then retry_open C d now task_id mode queued row
       else case stage_of d (ws_current_stage row) of
          None \<Rightarrow> Inl (RetryUnknownStage (ws_current_stage row))
        | Some sd \<Rightarrow> (case group_branches (sd_kind sd) of
               Some branches \<Rightarrow> and_then (retry_group mode started_at (ws_current_stage row) branches reads row)
                 (\<lambda>(reruns, u). Inr (GroupRetried reruns u))
             | None \<Rightarrow> retry_stage C d now mode sd last_session verdict row)) = Inr plan"
    by (cases state) (auto simp: retry_task_def result_simps TASK_STATUS_STUCK_def TASK_STATUS_OPEN_def
        simp del: split_paired_Ex)
  note st = st task
  show ?thesis
  proof (cases "st = ''open''")
    case True
    then have "\<exists>u. queued = None \<and> mode = Auto \<and> plan = Rewatched (su_current_stage u) u"
      using r by (auto simp: retry_open_def rewatch_def result_simps split: option.splits if_splits)
    with True st Inr show ?thesis by auto
  next
    case False
    then obtain sd where sd: "(case group_branches (sd_kind sd) of
               Some branches \<Rightarrow> and_then (retry_group mode started_at (ws_current_stage row) branches reads row)
                 (\<lambda>(reruns, u). Inr (GroupRetried reruns u))
             | None \<Rightarrow> retry_stage C d now mode sd last_session verdict row) = Inr plan"
      using r by (cases "stage_of d (ws_current_stage row)") simp_all
    show ?thesis
    proof (cases "group_branches (sd_kind sd)")
      case None
      with sd have "retry_stage C d now mode sd last_session verdict row = Inr plan" by simp
      then have "map_option se_status last_session \<noteq> Some Active \<and>
          (\<exists>resume why u. plan = Reentered (ws_current_stage row) resume why u \<and> (resume = None \<longleftrightarrow> why \<noteq> None)
            \<and> (mode = ResumeOnly \<longrightarrow> resume \<noteq> None) \<and> (mode = Fresh \<longrightarrow> resume = None))"
        by (auto simp: retry_stage_def Let_def result_simps split: retry_mode.splits sum.splits if_splits)
      with False st row Inr show ?thesis by auto
    next
      case (Some branches)
      with sd obtain reruns u where
        g: "retry_group mode started_at (ws_current_stage row) branches reads row = Inr (reruns, u)"
        and plan: "plan = GroupRetried reruns u"
        by (auto simp: result_simps)
      have "reruns \<noteq> []" using g by (auto simp: retry_group_def result_simps split: option.splits if_splits)
      with plan False st Inr show ?thesis by simp
    qed
  qed
qed simp

section \<open>Witnesses\<close>

definition example_watch :: watch where
  "example_watch =
     \<lparr>w_command = Inline ''check'', w_env = [], w_interval = from_secs 60, w_timeout = None, w_backoff = [],
      w_outcomes = []\<rparr>"

definition example_polling :: workflow_definition where
  "example_polling =
     \<lparr>wd_name = ''p'', wd_roles = [],
      wd_stages = [(''ci'', StageDef (Poll None example_watch) [(''done'', ''end''), (''timeout'', ''ask'')] None),
                   (''ask'', StageDef (HumanGate None [] None) [(''resumed'', ''ci'')] None),
                   (''end'', StageDef Terminal [] None)],
      wd_worktree = False\<rparr>"

definition example_parked :: workflow_state where
  "example_parked =
     \<lparr>ws_current_stage = ''ask'', ws_stage_kind = Some ''human_gate'', ws_loop_counters = obj_of [],
      ws_payload = set_arrival ''ci'' ''timeout'' (obj_of []), ws_updated_at = 0, ws_stage_entered_at = Some 0\<rparr>"

definition example_timed_out :: timed_out_watch where
  "example_timed_out = \<lparr>to_from = ''ci'', to_timeout = None, to_resumes = Some ''ci''\<rparr>"

lemma example_timed_out:
  "timed_out_watch example_polling (ws_current_stage example_parked) (ws_payload example_parked) = Some example_timed_out"
  by code_simp

lemma example_rewatches:
  "is_ok (rewatch example_chrono example_polling 5 (ws_current_stage example_parked) example_parked example_timed_out)"
proof -
  have s: "stage_of example_polling ''ci'' =
      Some (StageDef (Poll None example_watch) [(''done'', ''end''), (''timeout'', ''ask'')] None)" by code_simp
  then have "watch_of example_polling ''ci'' = Some example_watch" by (simp add: watch_of_def stage_watch_def)
  then show ?thesis
    by (simp add: rewatch_def example_timed_out_def s set_poll_window_def Let_def window_deadline_def
        example_watch_def)
qed

lemma example_reads_back: "reads_back example_chrono t \<longleftrightarrow> 0 \<le> t"
  by (simp add: reads_back_def example_chrono_def)

theorem rewatch_opens_fresh_window_witness:
  "\<exists>u. rewatch example_chrono example_polling 5 (ws_current_stage example_parked) example_parked example_timed_out
     = Inr u \<and> su_current_stage u = ''ci''
     \<and> poll_window_for example_chrono (su_payload u) ''ci'' =
         Inr (Some \<lparr>pw_stage = ''ci'', pw_entered_at = 5, pw_deadline = None\<rparr>)"
proof -
  obtain u where u: "rewatch example_chrono example_polling 5 (ws_current_stage example_parked) example_parked
      example_timed_out = Inr u"
    using example_rewatches by (auto simp: is_ok_iff)
  have "ch_add example_chrono 5 l = Some at \<Longrightarrow> 0 \<le> at" for l at
    by (auto simp: example_chrono_def split: if_splits)
  then have "\<forall>l at. ch_add example_chrono 5 l = Some at \<longrightarrow> reads_back example_chrono at"
    by (simp add: example_reads_back)
  from rewatch_opens_fresh_window [OF example_timed_out u _ this] u show ?thesis
    by (simp add: example_reads_back example_timed_out_def)
qed

end
