(* ===== verification/Runs.thy ===== *)
theory Runs
  imports Retry
begin

text \<open>
  The life of a task as a relation over the engine's steps: start_task's row, advance_from_stage,
  rewatch, and, in a parallel group, the ends of branches, failed starts, the restart sweep and a
  retry. The invariants proved by induction over runs tie the stored row to the run's history:
  the loop counters count, the payload's facts say what happened.
\<close>

section \<open>Runs\<close>

text \<open>
  What happened to a task, latest first: it went from a stage to another on an outcome, it went
  back to a watcher that had timed out, or a branch of its group finished.
\<close>

datatype hop =
    Hop (hop_from: string) (hop_outcome: string) (hop_to: string)
  | Rewatch string string
  | BranchFinished string

fun ended_hops :: "string \<Rightarrow> branch_outcome \<Rightarrow> hop list" where
  "ended_hops branch (BranchDone _ _ _) = [BranchFinished branch]"
| "ended_hops branch (BranchFailed _) = []"

inductive task_run :: "chrono \<Rightarrow> workflow_definition \<Rightarrow> hop list \<Rightarrow> workflow_state \<Rightarrow> bool"
  for C :: chrono and d :: workflow_definition
where
  started: "start_row C d nows input title closes = Some (Inr row) \<Longrightarrow> task_run C d [] row"
| advanced: "task_run C d hops row \<Longrightarrow>
     compute_transition C d nows row outcome capture = Some (Inr (next_stage, u)) \<Longrightarrow>
     task_run C d (Hop (ws_current_stage row) outcome next_stage # hops) (update_state u now row)"
| rewatched: "task_run C d hops row \<Longrightarrow>
     timed_out_watch d (ws_current_stage row) (ws_payload row) = Some t \<Longrightarrow>
     rewatch C d now (ws_current_stage row) row t = Inr u \<Longrightarrow>
     task_run C d (Rewatch (ws_current_stage row) (to_from t) # hops) (update_state u now' row)"
| branch_ended: "task_run C d hops row \<Longrightarrow>
     branch_of d branch = Some b \<Longrightarrow>
     apply_branch_end C d nows now status (Some row) w branch sid current verdict e = Some (Inr step) \<Longrightarrow>
     step = RecordedRunning u \<or> step = SettledStuck u reason \<Longrightarrow>
     task_run C d (ended_hops branch (checked_end branch (bf_results b) e) @ hops) (update_state u now' row)"
| group_left: "task_run C d hops row \<Longrightarrow>
     branch_of d branch = Some b \<Longrightarrow>
     apply_branch_end C d nows now status (Some row) w branch sid current verdict e =
       Some (Inr (LeftGroup next_stage u)) \<Longrightarrow>
     task_run C d (Hop (ws_current_stage row) ''done'' next_stage
                   # ended_hops branch (checked_end branch (bf_results b) e) @ hops) (update_state u now' row)"
| starts_failed: "task_run C d hops row \<Longrightarrow>
     stage_of d (ws_current_stage row) = Some s \<Longrightarrow> sd_kind s = Parallel branches \<Longrightarrow>
     record_start_failures t (ws_current_stage row) branches failures (Some row) = Inr step \<Longrightarrow>
     step = RecordedRunning u \<or> step = SettledStuck u reason \<Longrightarrow>
     task_run C d hops (update_state u now row)"
| swept: "task_run C d hops row \<Longrightarrow>
     stage_of d (ws_current_stage row) = Some s \<Longrightarrow> sd_kind s = Parallel branches \<Longrightarrow>
     park_group_locked t (ws_current_stage row) branches reads row = step \<Longrightarrow>
     step = ParkRunning u failed \<or> step = ParkSettled u reason failed \<Longrightarrow>
     task_run C d hops (update_state u now row)"
| group_retried: "task_run C d hops row \<Longrightarrow>
     stage_of d (ws_current_stage row) = Some s \<Longrightarrow> sd_kind s = Parallel branches \<Longrightarrow>
     retry_group mode t (ws_current_stage row) branches reads' row = Inr (reruns, u) \<Longrightarrow>
     task_run C d hops (update_state u now row)"
| restamped: "task_run C d hops row \<Longrightarrow>
     stage_of d (ws_current_stage row) = Some s \<Longrightarrow> group_branches (sd_kind s) = None \<Longrightarrow>
     reenter_update C d t' s row = Inr (Some u) \<Longrightarrow>
     task_run C d hops (update_state u now row)"

section \<open>The contract of the loop guard\<close>

text \<open>
  How often in a row the guarded outcome was taken at a stage, read off the history: another
  outcome of the stage, and an arrival at the guard's way out, start the count over.
\<close>

fun consecutive :: "loop_guard \<Rightarrow> string \<Rightarrow> hop list \<Rightarrow> nat" where
  "consecutive g s [] = 0"
| "consecutive g s (Hop source outcome target # hops) =
     (if target = lg_then g then 0
      else if source = s then (if outcome = lg_on g then Suc (consecutive g s hops) else 0)
      else consecutive g s hops)"
| "consecutive g s (_ # hops) = consecutive g s hops"

definition guard_of :: "workflow_definition \<Rightarrow> string \<Rightarrow> loop_guard option" where
  "guard_of d s = Option.bind (stage_of d s) sd_guard"

definition counters_ok :: "workflow_definition \<Rightarrow> hop list \<Rightarrow> json \<Rightarrow> bool" where
  "counters_ok d hops c =
     (is_object c \<and>
      (\<forall>s g. guard_of d s = Some g \<longrightarrow>
         unat (counter_of c s) = consecutive g s hops \<and> consecutive g s hops \<le> unat (lg_max g)))"

section \<open>Inversion of a transition\<close>

lemma compute_transition_ok:
  assumes "compute_transition C d nows row outcome capture = Some (Inr (n, u))"
  obtains sd target c1 s' where
    "stage_of d (ws_current_stage row) = Some sd" "\<not> is_terminal (sd_kind sd)"
    "map_of (sd_on sd) outcome = Some target"
    "apply_guard sd (ws_current_stage row) outcome target (ws_loop_counters row) = Some (n, c1)"
    "clear_guards_escaping_to c1 d n = Some (su_loop_counters u)"
    "stamp_payload C d nows (ws_current_stage row) outcome n capture (ws_payload row) = Inr (su_payload u)"
    "stage_of d n = Some s'" "su_current_stage u = n" "su_stage_kind u = stage_kind_name (sd_kind s')"
    "su_enters_stage u"
proof (cases "stage_of d (ws_current_stage row)")
  case None
  with assms show ?thesis by (simp add: compute_transition_def)
next
  case sd: (Some sd)
  show ?thesis
  proof (cases "is_terminal (sd_kind sd)")
    case True
    with sd assms show ?thesis by (simp add: compute_transition_def)
  next
    case live: False
    show ?thesis
    proof (cases "map_of (sd_on sd) outcome")
      case None
      with sd live assms show ?thesis by (simp add: compute_transition_def)
    next
      case target: (Some target)
      from assms sd live target obtain n' c1 c2 where
        g: "apply_guard sd (ws_current_stage row) outcome target (ws_loop_counters row) = Some (n', c1)"
        and c: "clear_guards_escaping_to c1 d n' = Some c2"
        and r: "and_then (stamp_payload C d nows (ws_current_stage row) outcome n' capture (ws_payload row))
          (\<lambda>payload. case stage_of d n' of None \<Rightarrow> Inl (UnknownStage n')
             | Some s \<Rightarrow> Inr (n', \<lparr>su_current_stage = n', su_stage_kind = stage_kind_name (sd_kind s),
                 su_loop_counters = c2, su_payload = payload, su_enters_stage = True\<rparr>)) = Inr (n, u)"
        by (auto simp: compute_transition_def Let_def bind_eq_Some_conv)
      from r obtain p where
        p: "stamp_payload C d nows (ws_current_stage row) outcome n' capture (ws_payload row) = Inr p"
        and q: "(case stage_of d n' of None \<Rightarrow> Inl (UnknownStage n')
             | Some s \<Rightarrow> Inr (n', \<lparr>su_current_stage = n', su_stage_kind = stage_kind_name (sd_kind s),
                 su_loop_counters = c2, su_payload = p, su_enters_stage = True\<rparr>)) = Inr (n, u)"
        unfolding and_then_ok by blast
      from q obtain s' where "stage_of d n' = Some s'" "n' = n" by (cases "stage_of d n'") simp_all
      with that sd live target g c p q show ?thesis by auto
    qed
  qed
qed

lemma branch_end_step:
  assumes "apply_branch_end C d nows now status (Some row) w branch sid current verdict e = Some (Inr step)"
    and "branch_of d branch = Some b"
    and "\<And>why. step \<noteq> Dropped why"
  obtains branches p where
    "ws_current_stage row = bw_group w" "branch_state (ws_payload row) branch = Some ''running''"
    "Option.bind (stage_of d (bw_group w)) (\<lambda>s. group_branches (sd_kind s)) = Some branches"
    "p = branch_end_payload branch (checked_end branch (bf_results b) e) verdict (ch_stamp C now) (ws_payload row)"
    "settle_group C d nows (bw_group w) branches row p = Some (Inr step)"
proof -
  from assms obtain row' where nd: "branch_end_dropped status (Some row) w branch sid current = Inr row'"
    by (auto simp: apply_branch_end_def split: sum.splits)
  then have row: "row' = row" using not_dropped_row [OF nd] by simp
  obtain branches where br:
    "Option.bind (stage_of d (bw_group w)) (\<lambda>s. group_branches (sd_kind s)) = Some branches"
    using assms(1,2) nd by (cases "Option.bind (stage_of d (bw_group w)) (\<lambda>s. group_branches (sd_kind s))")
      (simp_all add: apply_branch_end_def)
  have "settle_group C d nows (bw_group w) branches row
      (branch_end_payload branch (checked_end branch (bf_results b) e) verdict (ch_stamp C now) (ws_payload row))
    = Some (Inr step)"
    using assms(1,2) nd row br by (simp add: apply_branch_end_def Let_def)
  with that br not_dropped_row [OF nd] row show ?thesis by simp
qed

section \<open>The loop counters count\<close>

lemma apply_guard_object:
  "apply_guard sd s oc t c = Some (n, c') \<Longrightarrow> is_object c \<Longrightarrow> is_object c'"
  by (auto simp: apply_guard_def bump_loop_counter_def reset_loop_counter_def Let_def
      split: option.splits if_splits)

lemma escapes_to_guard:
  assumes "imap_ok (wd_stages d)" and "guard_of d s = Some g"
  shows "escapes_to (wd_stages d) n s \<longleftrightarrow> lg_then g = n"
proof -
  obtain st where st: "stage_of d s = Some st" "sd_guard st = Some g"
    using assms(2) by (auto simp: guard_of_def bind_eq_Some_conv)
  have "(s, st') \<in> set (wd_stages d) \<longleftrightarrow> st' = st" for st'
    using map_of_in_set [OF assms(1), of s st'] st(1) by (auto simp: stage_of_def)
  then show ?thesis using st(2) by (auto simp: escapes_to_def list_ex_iff)
qed

text \<open>One transition: what it does to one guarded stage's count.\<close>

lemma transition_counts:
  assumes ok: "counters_ok d hops c" and keys: "imap_ok (wd_stages d)"
    and sd: "stage_of d cur = Some sd" and g: "guard_of d s = Some g"
    and guard: "apply_guard sd cur oc target c = Some (n, c1)"
    and clear: "clear_guards_escaping_to c1 d n = Some c2"
  shows "unat (counter_of c2 s) = consecutive g s (Hop cur oc n # hops) \<and>
    consecutive g s (Hop cur oc n # hops) \<le> unat (lg_max g)"
proof (cases "n = lg_then g")
  case True
  then show ?thesis
    using clear escapes_to_guard [OF keys g, of n]
    by (auto simp: clear_guards_escaping_to_def counter_of_clear split: if_splits)
next
  case away: False
  have c2: "counter_of c2 s = counter_of c1 s"
    using clear escapes_to_guard [OF keys g, of n] away
    by (auto simp: clear_guards_escaping_to_def counter_of_clear split: if_splits)
  have count: "unat (counter_of c s) = consecutive g s hops" "consecutive g s hops \<le> unat (lg_max g)"
    using ok g by (auto simp: counters_ok_def)
  show ?thesis
  proof (cases "cur = s")
    case False
    then have "counter_of c1 s = counter_of c s"
      using guard
      by (auto simp: apply_guard_def bump_loop_counter_def reset_loop_counter_def Let_def
          counter_of_set counter_of_remove split: option.splits if_splits)
    with False away c2 count show ?thesis by simp
  next
    case True
    then have sg: "sd_guard sd = Some g" using sd g by (simp add: guard_of_def)
    show ?thesis
    proof (cases "lg_on g = oc")
      case False
      then have "counter_of c1 s = 0"
        using guard sg True
        by (auto simp: apply_guard_def reset_loop_counter_def counter_of_remove split: if_splits)
      with False True away c2 show ?thesis by simp
    next
      case on: True
      let ?k = "counter_of c s + 1"
      have c1: "counter_of c1 s = ?k" and n: "n = (if uint ?k > uint (lg_max g) then lg_then g else target)"
        using guard sg True on
        by (auto simp: apply_guard_def bump_loop_counter_def Let_def counter_of_set split: if_splits)
      have "unat (lg_max g) < 2 ^ 32" by (rule order_less_le_trans [OF unsigned_less]) simp
      with count have "unat (counter_of c s) + 1 < 2 ^ 64" by simp
      then have k: "unat ?k = Suc (consecutive g s hops)"
        using count(1) by (simp add: unat_word_ariths)
      have "\<not> uint ?k > uint (lg_max g)" using n away by (auto split: if_splits)
      then have "unat ?k \<le> unat (lg_max g)" by (simp only: uint_nat not_less of_nat_le_iff)
      with k True on away c2 c1 show ?thesis by simp
    qed
  qed
qed

lemma counters_ok_transition:
  assumes "counters_ok d hops (ws_loop_counters row)" and "imap_ok (wd_stages d)"
    and "compute_transition C d nows row oc cap = Some (Inr (n, u))"
  shows "counters_ok d (Hop (ws_current_stage row) oc n # hops) (su_loop_counters u)"
proof -
  from assms(3) obtain sd target c1 where
    sd: "stage_of d (ws_current_stage row) = Some sd"
    and guard: "apply_guard sd (ws_current_stage row) oc target (ws_loop_counters row) = Some (n, c1)"
    and clear: "clear_guards_escaping_to c1 d n = Some (su_loop_counters u)"
    using compute_transition_ok by metis
  have "is_object (su_loop_counters u)"
    using clear clear_loop_object [of c1]
    by (metis clear_guards_escaping_to_def option.distinct(1) option.sel)
  then show ?thesis
    using transition_counts [OF assms(1,2) sd _ guard clear]
    by (simp add: counters_ok_def del: consecutive.simps)
qed

lemma counters_ok_hops: "counters_ok d hops c \<Longrightarrow> counters_ok d (ended_hops b e @ hops) c"
  by (cases e) (simp_all add: counters_ok_def)

lemma counters_ok_same:
  "(\<And>g k. consecutive g k hops' = consecutive g k hops) \<Longrightarrow> counters_ok d hops c \<Longrightarrow> counters_ok d hops' c"
  by (simp add: counters_ok_def)

lemma counters_ok_start: "counters_ok d [] (obj_of [])"
  by (simp add: counters_ok_def counter_of_def)

section \<open>What the payload says\<close>

text \<open>The last move, and the stages and branches that finished, read off the history.\<close>

fun last_move :: "hop list \<Rightarrow> string \<times> string" where
  "last_move [] = ([], [])"
| "last_move (Hop source outcome target # hops) = (source, outcome)"
| "last_move (Rewatch gate watcher # hops) = (gate, ''retry'')"
| "last_move (BranchFinished branch # hops) = last_move hops"

fun finished_in :: "hop list \<Rightarrow> string \<Rightarrow> bool" where
  "finished_in [] k = False"
| "finished_in (Hop source outcome target # hops) k = (k = source \<or> finished_in hops k)"
| "finished_in (BranchFinished branch # hops) k = (k = branch \<or> finished_in hops k)"
| "finished_in (Rewatch gate watcher # hops) k = finished_in hops k"

fun now_at :: "string \<Rightarrow> hop list \<Rightarrow> string" where
  "now_at start [] = start"
| "now_at start (Hop source outcome target # hops) = target"
| "now_at start (Rewatch gate watcher # hops) = watcher"
| "now_at start (BranchFinished branch # hops) = now_at start hops"

definition arrival_value :: "string \<times> string \<Rightarrow> json" where
  "arrival_value m = obj_of [(''from'', JStr (fst m)), (''outcome'', JStr (snd m))]"

text \<open>The parallel block of a stage: present just for a group, with a valid state for every branch.\<close>

definition block_ok :: "string \<Rightarrow> json \<Rightarrow> bool" where
  "block_ok grp p = (\<exists>block m. jget ''parallel'' p = Some block \<and> jget ''stage'' block = Some (JStr grp) \<and>
     jget ''branches'' block = Some (JObj m))"

definition group_ok :: "stage_kind \<Rightarrow> string \<Rightarrow> json \<Rightarrow> bool" where
  "group_ok kind stage p =
     (case group_branches kind of
        None \<Rightarrow> jget ''parallel'' p = None
      | Some bs \<Rightarrow> block_ok stage p \<and> list_all (\<lambda>n. slot_valid (branch_state p n)) (ikeys bs))"

definition window_ok :: "stage_def \<Rightarrow> string \<Rightarrow> json \<Rightarrow> bool" where
  "window_ok sd stage p =
     (case stage_watch sd of
        None \<Rightarrow> jget ''poll_window'' p = None
      | Some w \<Rightarrow> Option.bind (jget ''poll_window'' p) (jget ''stage'') = Some (JStr stage))"

definition row_ok :: "workflow_definition \<Rightarrow> hop list \<Rightarrow> workflow_state \<Rightarrow> bool" where
  "row_ok d hops row =
     (case stage_of d (ws_current_stage row) of
        None \<Rightarrow> False
      | Some sd \<Rightarrow>
          ws_stage_kind row = Some (stage_kind_name (sd_kind sd))
          \<and> start_stage d \<noteq> None \<and> ws_current_stage row = now_at (the (start_stage d)) hops
          \<and> counters_ok d hops (ws_loop_counters row)
          \<and> jget ''arrival'' (ws_payload row) = Some (arrival_value (last_move hops))
          \<and> (\<forall>k. stage_finished (ws_payload row) k \<longleftrightarrow> finished_in hops k)
          \<and> group_ok (sd_kind sd) (ws_current_stage row) (ws_payload row)
          \<and> window_ok sd (ws_current_stage row) (ws_payload row))"

subsection \<open>Entering a stage\<close>

lemma stage_finished_frame:
  "jget FINISHED_STAGES q = jget FINISHED_STAGES p \<Longrightarrow> stage_finished q k \<longleftrightarrow> stage_finished p k"
  by (simp add: stage_finished_items finished_items_def)

lemma group_ok_enter:
  "stage_of d n = Some sd \<Longrightarrow> group_ok (sd_kind sd) n (set_parallel_block C d n t p)"
proof (cases "group_branches (sd_kind sd)")
  case None
  moreover assume "stage_of d n = Some sd"
  ultimately show ?thesis by (simp add: group_ok_def set_parallel_block_def Let_def jget_remove)
next
  case (Some bs)
  assume sd: "stage_of d n = Some sd"
  let ?slots = "obj_of (map (\<lambda>name. (name, running_slot (ch_stamp C t))) (ikeys bs))"
  let ?q = "set_parallel_block C d n t p"
  obtain entry where q: "jget ''parallel'' ?q =
      Some (obj_of [(''stage'', JStr n), (''entry'', entry), (''branches'', ?slots)])"
    using sd Some by (simp add: set_parallel_block_def Let_def)
  obtain m where m: "?slots = JObj m" by (simp add: obj_of_def)
  have "jget k ?slots = Some (running_slot (ch_stamp C t))" if "k \<in> set (ikeys bs)" for k
    using that by (simp add: jget_obj_of_map map_of_map_restrict rev_map comp_def map_of_map_keys)
  then have "branch_state ?q k = Some ''running''" if "k \<in> set (ikeys bs)" for k
    using that by (simp add: branch_state_def branch_slot_def q jget_obj_of_map running_slot_def)
  moreover have "block_ok n ?q" by (simp add: block_ok_def q jget_obj_of_map m)
  ultimately show ?thesis by (simp add: group_ok_def Some list_all_iff slot_valid_def)
qed

lemma window_ok_enter:
  assumes "set_poll_window C d n t p = Inr q" and "stage_of d n = Some sd"
    and "jget ''poll_window'' r = jget ''poll_window'' q"
  shows "window_ok sd n r"
proof (cases "stage_watch sd")
  case None
  then show ?thesis
    using assms by (auto simp: window_ok_def set_poll_window_def Let_def watch_of_def jget_remove)
next
  case (Some w)
  then show ?thesis
    using assms by (auto simp: window_ok_def set_poll_window_def Let_def watch_of_def result_simps jget_obj_of_map)
qed

text \<open>What leaving a stage writes.\<close>

lemma stamp_payload_ok:
  assumes "stamp_payload C d nows cur oc n cap p = Inr q" and "stage_of d n = Some sd"
  shows "jget ''arrival'' q = Some (arrival_value (cur, oc))
    \<and> (stage_finished q k \<longleftrightarrow> k = cur \<or> stage_finished p k)
    \<and> group_ok (sd_kind sd) n q \<and> window_ok sd n q"
proof -
  let ?p1 = "case cap of None \<Rightarrow> p | Some v \<Rightarrow> merge_stage_capture cur v p"
  let ?p4 = "set_left_at cur (ch_stamp C (fst nows)) (mark_stage_finished cur (set_arrival cur oc ?p1))"
  from assms(1) obtain p5 where p5: "set_poll_window C d n (fst (snd nows)) ?p4 = Inr p5"
    and q: "q = set_parallel_block C d n (snd (snd nows)) p5"
    by (auto simp: stamp_payload_def Let_def result_simps)
  have arrival: "jget ''arrival'' q = Some (arrival_value (cur, oc))"
    using set_poll_window_frame [OF p5, of "''arrival''"]
    by (simp add: q parallel_write.frame left_at_write.frame finished_write.frame LEFT_AT_def FINISHED_STAGES_def
        jget_arrival arrival_value_def)
  have "stage_finished q k \<longleftrightarrow> stage_finished (mark_stage_finished cur (set_arrival cur oc ?p1)) k"
    using set_poll_window_frame [OF p5, of FINISHED_STAGES]
    by (intro stage_finished_frame)
       (simp add: q parallel_write.frame left_at_write.frame LEFT_AT_def FINISHED_STAGES_def)
  also have "\<dots> \<longleftrightarrow> k = cur \<or> stage_finished ?p1 k"
    unfolding stage_finished_mark
    by (simp add: stage_finished_frame [OF arrival_write.frame] FINISHED_STAGES_def)
  also have "stage_finished ?p1 k \<longleftrightarrow> stage_finished p k"
    by (cases cap) (simp_all add: stage_finished_frame [OF capture_write.frame] FINISHED_STAGES_def)
  finally have fin: "stage_finished q k \<longleftrightarrow> k = cur \<or> stage_finished p k" .
  have "window_ok sd n q"
    by (rule window_ok_enter [OF p5 assms(2)]) (simp add: q parallel_write.frame)
  with arrival fin group_ok_enter [OF assms(2)] show ?thesis by (simp add: q)
qed

subsection \<open>Writes inside a group\<close>

text \<open>What a write to the slots of the current group leaves alone.\<close>

definition slot_write :: "json \<Rightarrow> json \<Rightarrow> bool" where
  "slot_write p q =
     ((\<forall>k. k \<noteq> ''parallel'' \<longrightarrow> k \<noteq> ''stages'' \<longrightarrow> k \<noteq> FINISHED_STAGES \<longrightarrow> jget k q = jget k p)
      \<and> (\<forall>grp. block_ok grp p \<longrightarrow> block_ok grp q))"

lemma slot_write_refl [simp]: "slot_write p p"
  by (simp add: slot_write_def)

lemma slot_write_trans: "slot_write p q \<Longrightarrow> slot_write q r \<Longrightarrow> slot_write p r"
  by (simp add: slot_write_def)

lemma block_ok_frame: "jget ''parallel'' q = jget ''parallel'' p \<Longrightarrow> block_ok grp q = block_ok grp p"
  by (simp add: block_ok_def)

lemma slot_write_frame:
  "(\<And>k. k \<noteq> ''stages'' \<Longrightarrow> k \<noteq> FINISHED_STAGES \<Longrightarrow> jget k q = jget k p) \<Longrightarrow> slot_write p q"
  using block_ok_frame [of q p] by (simp add: slot_write_def FINISHED_STAGES_def)

lemma slot_write_modify:
  assumes "\<And>m. is_object (f (JObj m))"
  shows "slot_write p (jmodify ''parallel'' (jmodify ''branches'' f) p)"
proof -
  have "block_ok grp (jmodify ''parallel'' (jmodify ''branches'' f) p)" if ok: "block_ok grp p" for grp
  proof -
    obtain block m where p: "jget ''parallel'' p = Some block" "jget ''stage'' block = Some (JStr grp)"
      "jget ''branches'' block = Some (JObj m)" using ok by (auto simp: block_ok_def)
    obtain m' where "f (JObj m) = JObj m'" using assms is_object_iff by blast
    with p show ?thesis by (simp add: block_ok_def jget_jmodify)
  qed
  then show ?thesis by (simp add: slot_write_def jget_jmodify)
qed

lemma slot_write_fail: "slot_write p (fail_branch b r x now p)"
  unfolding fail_branch_def end_branch_def by (rule slot_write_modify) (simp add: jmodify_object)

lemma slot_write_end: "slot_write p (end_branch b nf now p)"
  unfolding end_branch_def by (rule slot_write_modify) (simp add: jmodify_object)

lemma slot_write_branch_end: "slot_write p (branch_end_payload b e verdict now p)"
proof (cases e)
  case (BranchDone r cap remark)
  let ?q = "end_branch b (done_fields r) now p"
  have "slot_write ?q (branch_end_payload b e verdict now p)"
    by (rule slot_write_frame)
       (cases cap; simp add: BranchDone branch_end_payload_def Let_def finished_write.frame capture_write.frame)
  with slot_write_end show ?thesis by (rule slot_write_trans)
next
  case (BranchFailed r)
  then show ?thesis by (cases verdict) (simp_all add: branch_end_payload_def slot_write_fail)
qed

lemma slot_write_starts: "slot_write p (start_failures_payload now failures p)"
  unfolding start_failures_payload_def
proof (induction failures arbitrary: p)
  case (Cons f failures)
  obtain name reason where f: "f = (name, reason)" by (cases f)
  show ?case
    using slot_write_trans [OF slot_write_fail Cons.IH] by (simp add: f)
qed simp

lemma park_branch_result:
  "park_branch now grp reads name (p, failed) = (q, failed') \<Longrightarrow>
     q = p \<or> (\<exists>r x. q = fail_branch name r x now p)
     \<or> q = fail_branch name (unreadable_reason grp name) False now (ensure_slot name p)"
  by (auto simp: park_branch_def split: option.splits if_splits)

lemma slot_write_park:
  "park_branch now grp reads name (p, failed) = (q, failed') \<Longrightarrow> slot_write p q"
proof -
  assume q: "park_branch now grp reads name (p, failed) = (q, failed')"
  have ensure: "slot_write p (fail_branch name r x now (ensure_slot name p))" for r x
    by (rule slot_write_trans [OF _ slot_write_fail])
       (unfold ensure_slot_def, rule slot_write_modify, simp)
  with park_branch_result [OF q] slot_write_fail show ?thesis by auto
qed

lemma slot_write_park_fold:
  "fold (park_branch now grp reads) names (p, failed) = (q, failed') \<Longrightarrow> slot_write p q"
proof (induction names arbitrary: p failed)
  case (Cons name names)
  obtain r fr where r: "park_branch now grp reads name (p, failed) = (r, fr)" by fastforce
  with Cons show ?case using slot_write_trans [OF slot_write_park [OF r]] by simp
qed simp

lemma slot_write_rerun: "rerun_payload t names p = Some q \<Longrightarrow> slot_write p q"
proof -
  assume "rerun_payload t names p = Some q"
  then have q: "q = jmodify ''parallel'' (jmodify ''branches'' (\<lambda>slots.
      fold (\<lambda>name. jset name (running_slot t)) names slots)) p"
    by (auto simp: rerun_payload_def split: option.splits)
  have "is_object v \<Longrightarrow> is_object (fold (\<lambda>name. jset name (running_slot t)) names v)" for v
    by (induction names arbitrary: v) simp_all
  then show ?thesis unfolding q by (intro slot_write_modify) simp
qed

text \<open>Which stages count as finished, and the states a write leaves.\<close>

lemma finished_fail: "stage_finished (fail_branch b r x now p) k = stage_finished p k"
  by (rule stage_finished_frame) (simp add: fail_branch_def jget_end_branch FINISHED_STAGES_def)

lemma finished_branch_end:
  "stage_finished (branch_end_payload b e verdict now p) k \<longleftrightarrow>
     (k = b \<and> ended_state e = ''done'') \<or> stage_finished p k"
proof (cases e)
  case (BranchDone r cap remark)
  have "stage_finished (case cap of None \<Rightarrow> q | Some v \<Rightarrow> merge_stage_capture b v q) k = stage_finished q k" for q
    by (cases cap) (simp_all add: stage_finished_frame [OF capture_write.frame] FINISHED_STAGES_def)
  moreover have "stage_finished (end_branch b nf now p) k = stage_finished p k" for nf
    by (rule stage_finished_frame) (simp add: jget_end_branch FINISHED_STAGES_def)
  ultimately show ?thesis
    by (simp add: BranchDone branch_end_payload_def Let_def stage_finished_mark ended_state_def)
next
  case (BranchFailed r)
  then show ?thesis
    by (cases verdict) (simp_all add: branch_end_payload_def finished_fail ended_state_def)
qed

lemma finished_starts: "stage_finished (start_failures_payload now failures p) k = stage_finished p k"
  unfolding start_failures_payload_def
proof (induction failures arbitrary: p)
  case (Cons f failures)
  obtain name reason where f: "f = (name, reason)" by (cases f)
  show ?case by (simp add: f Cons.IH finished_fail)
qed simp

lemma jget_fail: "k \<noteq> ''parallel'' \<Longrightarrow> jget k (fail_branch b r x now p) = jget k p"
  by (simp add: fail_branch_def jget_end_branch)

lemma jget_park: "k \<noteq> ''parallel'' \<Longrightarrow> park_branch now grp reads name (p, failed) = (q, failed') \<Longrightarrow> jget k q = jget k p"
proof -
  assume k: "k \<noteq> ''parallel''" and q: "park_branch now grp reads name (p, failed) = (q, failed')"
  have "jget k (ensure_slot name p) = jget k p" using k by (simp add: ensure_slot_def jget_jmodify)
  with park_branch_result [OF q] k show ?thesis by (auto simp: jget_fail)
qed

lemma jget_park_fold:
  "k \<noteq> ''parallel'' \<Longrightarrow> fold (park_branch now grp reads) names (p, failed) = (q, failed') \<Longrightarrow> jget k q = jget k p"
proof (induction names arbitrary: p failed)
  case (Cons name names)
  obtain r fr where r: "park_branch now grp reads name (p, failed) = (r, fr)" by fastforce
  with Cons jget_park [OF Cons.prems(1) r] show ?case by simp
qed simp

lemma jget_rerun: "k \<noteq> ''parallel'' \<Longrightarrow> rerun_payload t names p = Some q \<Longrightarrow> jget k q = jget k p"
  by (auto simp: rerun_payload_def jget_jmodify split: option.splits)

lemma slots_valid_starts:
  "slot_valid (branch_state p n) \<Longrightarrow> slot_valid (branch_state (start_failures_payload now failures p) n)"
  unfolding start_failures_payload_def
proof (induction failures arbitrary: p)
  case (Cons f failures)
  obtain name reason where f: "f = (name, reason)" by (cases f)
  have "slot_valid (branch_state (fail_branch name reason False now p) n)"
    using Cons.prems branch_state_slot [of p n]
    by (auto simp: branch_state_fail_branch slot_valid_def)
  with Cons.IH show ?case by (simp add: f)
qed simp

subsection \<open>Every run\<close>

lemma ended_hops_simps:
  "consecutive g k (ended_hops b e @ hops) = consecutive g k hops"
  "last_move (ended_hops b e @ hops) = last_move hops"
  "now_at start (ended_hops b e @ hops) = now_at start hops"
  "finished_in (ended_hops b e @ hops) k \<longleftrightarrow> (k = b \<and> ended_state e = ''done'') \<or> finished_in hops k"
  by (cases e; auto simp: ended_state_def)+

lemma row_okD:
  assumes "row_ok d hops row"
  obtains sd start where "stage_of d (ws_current_stage row) = Some sd"
    "ws_stage_kind row = Some (stage_kind_name (sd_kind sd))"
    "start_stage d = Some start" "ws_current_stage row = now_at start hops"
    "counters_ok d hops (ws_loop_counters row)"
    "jget ''arrival'' (ws_payload row) = Some (arrival_value (last_move hops))"
    "\<And>k. stage_finished (ws_payload row) k \<longleftrightarrow> finished_in hops k"
    "group_ok (sd_kind sd) (ws_current_stage row) (ws_payload row)"
    "window_ok sd (ws_current_stage row) (ws_payload row)"
  using assms by (auto simp: row_ok_def split: option.splits)

lemma row_ok_move:
  assumes "row_ok d hops row" and "imap_ok (wd_stages d)"
    and "compute_transition C d nows (row\<lparr>ws_payload := p\<rparr>) oc cap = Some (Inr (n, u))"
    and "\<And>k. stage_finished p k \<longleftrightarrow> finished_in hops' k"
    and "\<And>g k. consecutive g k hops' = consecutive g k hops"
  shows "row_ok d (Hop (ws_current_stage row) oc n # hops') (update_state u now row)"
  using assms(1)
proof (cases rule: row_okD)
  case (1 sd start)
  have "counters_ok d hops' (ws_loop_counters (row\<lparr>ws_payload := p\<rparr>))"
    using counters_ok_same [OF assms(5) 1(5)] by simp
  from counters_ok_transition [OF this assms(2,3)]
  have c: "counters_ok d (Hop (ws_current_stage row) oc n # hops') (su_loop_counters u)" by simp
  from assms(3) show ?thesis
  proof (cases rule: compute_transition_ok)
    case (1 sd target c1 s')
    then show ?thesis
      using c stamp_payload_ok [OF 1(6,7)] assms(4) \<open>start_stage d = Some start\<close>
      by (simp add: row_ok_def update_state_def del: consecutive.simps)
  qed
qed

lemma row_ok_stay:
  assumes "row_ok d hops row" and "stage_of d (ws_current_stage row) = Some sd"
    and "su_current_stage u = ws_current_stage row" and "su_stage_kind u = stage_kind_name (sd_kind sd)"
    and "su_loop_counters u = ws_loop_counters row"
    and "jget ''arrival'' (su_payload u) = jget ''arrival'' (ws_payload row)"
    and "\<And>k. stage_finished (su_payload u) k \<longleftrightarrow> finished_in (mid @ hops) k"
    and "group_ok (sd_kind sd) (ws_current_stage row) (su_payload u)"
    and "window_ok sd (ws_current_stage row) (su_payload u)"
    and "mid = [] \<or> (\<exists>b e. mid = ended_hops b e)"
  shows "row_ok d (mid @ hops) (update_state u now row)"
  using assms(1)
proof (cases rule: row_okD)
  case (1 sd' start)
  have "counters_ok d (mid @ hops) (ws_loop_counters row)"
    using 1(5) assms(10) by (auto intro: counters_ok_hops)
  with 1 assms(2-9) assms(10) show ?thesis
    by (auto simp: row_ok_def update_state_def ended_hops_simps)
qed

text \<open>The writes inside a group, in one form.\<close>

lemma row_ok_group_write:
  assumes "row_ok d hops row" and "stage_of d (ws_current_stage row) = Some sd" and "sd_kind sd = Parallel bs"
    and "u = group_update row q" and "slot_write (ws_payload row) q"
    and "\<And>k. stage_finished q k \<longleftrightarrow> finished_in (mid @ hops) k"
    and "\<And>n. n \<in> set (ikeys bs) \<Longrightarrow> slot_valid (branch_state q n)"
    and "mid = [] \<or> (\<exists>b e. mid = ended_hops b e)"
  shows "row_ok d (mid @ hops) (update_state u now row)"
proof -
  have same: "jget ''arrival'' q = jget ''arrival'' (ws_payload row)"
    "jget ''poll_window'' q = jget ''poll_window'' (ws_payload row)"
    using assms(5) by (simp_all add: slot_write_def FINISHED_STAGES_def)
  from assms(1) show ?thesis
  proof (cases rule: row_okD)
    case (1 sd' start)
    with assms(2) have sd': "sd' = sd" by simp
    have "group_ok (sd_kind sd) (ws_current_stage row) q"
      using 1(8) sd' assms(3,5,7) by (simp add: group_ok_def slot_write_def list_all_iff)
    moreover have "window_ok sd (ws_current_stage row) q"
      using 1(9) sd' same(2) by (simp add: window_ok_def split: option.splits)
    ultimately show ?thesis
      using assms same(1)
      by (intro row_ok_stay [OF assms(1,2) _ _ _ _ _ _ _ assms(8)])
         (simp_all add: group_update_def)
  qed
qed

lemma row_ok_valid:
  "row_ok d hops row \<Longrightarrow> stage_of d (ws_current_stage row) = Some sd \<Longrightarrow> sd_kind sd = Parallel bs \<Longrightarrow>
     n \<in> set (ikeys bs) \<Longrightarrow> slot_valid (branch_state (ws_payload row) n)"
  by (auto simp: row_ok_def group_ok_def list_all_iff)

lemma row_ok_finished: "row_ok d hops row \<Longrightarrow> stage_finished (ws_payload row) k \<longleftrightarrow> finished_in hops k"
  by (auto simp: row_ok_def split: option.splits)

lemma valid_after_end:
  assumes "branch_state p b = Some ''running''" and "slot_valid (branch_state p n)"
  shows "slot_valid (branch_state (branch_end_payload b e verdict now p) n)"
  using assms branch_state_slot [OF assms(1)]
  by (cases e) (auto simp: branch_state_after_end slot_valid_def)

lemma group_branches_iff: "group_branches k = Some bs \<longleftrightarrow> k = Parallel bs"
  by (cases k) auto

lemma row_ok_start:
  assumes "start_row C d nows input title closes = Some (Inr row)"
  shows "row_ok d [] row"
proof -
  from assms obtain start where start: "start_stage d = Some start"
    by (auto simp: start_row_def)
  obtain p0 sd where p0: "set_poll_window C d start (fst nows) (start_payload input title closes) = Inr p0"
    and sd: "stage_of d start = Some sd"
    and row: "row = create_state start (stage_kind_name (sd_kind sd))
      (set_parallel_block C d start (fst (snd nows)) p0) (snd (snd nows))"
    using assms by (auto simp: start_row_def start Let_def result_simps split: option.splits)
  let ?q = "set_parallel_block C d start (fst (snd nows)) p0"
  have arrival: "jget ''arrival'' ?q = Some (arrival_value ([], []))"
    using set_poll_window_frame [OF p0, of "''arrival''"]
    by (simp add: parallel_write.frame start_payload_def jget_obj_of_map arrival_value_def)
  have "jget FINISHED_STAGES ?q = None"
    using set_poll_window_frame [OF p0, of FINISHED_STAGES]
    by (simp add: parallel_write.frame start_payload_def jget_obj_of_map FINISHED_STAGES_def)
  then have "\<not> stage_finished ?q k" for k by (simp add: stage_finished_items finished_items_def)
  moreover have "window_ok sd start ?q"
    by (rule window_ok_enter [OF p0 sd]) (simp add: parallel_write.frame)
  ultimately show ?thesis
    using arrival sd start group_ok_enter [OF sd] counters_ok_start
    by (simp add: row create_state_def row_ok_def)
qed

lemma row_ok_rewatch:
  assumes "row_ok d hops row"
    and "timed_out_watch d (ws_current_stage row) (ws_payload row) = Some t"
    and "rewatch C d now (ws_current_stage row) row t = Inr u"
  shows "row_ok d (Rewatch (ws_current_stage row) (to_from t) # hops) (update_state u now' row)"
  using assms(1)
proof (cases rule: row_okD)
  case (1 gate start)
  from assms(2) 1(1) obtain s w where s: "stage_of d (to_from t) = Some s" "stage_watch s = Some w"
    and gate: "is_human_gate (sd_kind gate)"
    by (auto simp: timed_out_watch_def bind_eq_Some_conv split: if_splits)
  from assms(3) s obtain p where
    p: "set_poll_window C d (to_from t) now (set_arrival (ws_current_stage row) ''retry'' (ws_payload row)) = Inr p"
    and u: "u = \<lparr>su_current_stage = to_from t, su_stage_kind = stage_kind_name (sd_kind s),
                 su_loop_counters = ws_loop_counters row, su_payload = p, su_enters_stage = True\<rparr>"
    by (auto simp: rewatch_def result_simps)
  note frame = set_poll_window_frame [OF p]
  have "jget ''parallel'' (ws_payload row) = None"
    using 1(8) gate by (cases "sd_kind gate") (simp_all add: group_ok_def)
  then have "group_ok (sd_kind s) (to_from t) p"
    using frame [of "''parallel''"] s(2)
    by (cases "sd_kind s") (simp_all add: group_ok_def stage_watch_def arrival_write.frame)
  moreover have "stage_finished p k \<longleftrightarrow> finished_in hops k" for k
  proof -
    have "stage_finished p k \<longleftrightarrow> stage_finished (ws_payload row) k"
      using frame [of FINISHED_STAGES]
      by (intro stage_finished_frame) (simp add: arrival_write.frame FINISHED_STAGES_def)
    with 1(7) show ?thesis by simp
  qed
  moreover have "jget ''arrival'' p = Some (arrival_value (ws_current_stage row, ''retry''))"
    using frame [of "''arrival''"] by (simp add: jget_arrival arrival_value_def)
  moreover have "counters_ok d (Rewatch (ws_current_stage row) (to_from t) # hops) (ws_loop_counters row)"
    by (rule counters_ok_same [OF _ 1(5)]) simp
  ultimately show ?thesis
    using s(1) 1(3) window_ok_enter [OF p s(1) refl]
    by (simp add: row_ok_def u update_state_def)
qed

lemma block_ok_slots: "block_ok grp p \<Longrightarrow> slots_object p"
  by (auto simp: block_ok_def slots_object_def)

lemma slots_valid_park:
  assumes "slots_object p" and "fold (park_branch now grp reads) names (p, failed) = (q, failed')"
    and "slot_valid (branch_state p n)"
  shows "slot_valid (branch_state q n)"
  using assms
proof (induction names arbitrary: p failed)
  case (Cons name names)
  obtain r fr where r: "park_branch now grp reads name (p, failed) = (r, fr)" by fastforce
  note step = park_branch_state [OF Cons.prems(1) r, of n]
  have v: "slot_valid (branch_state r n)"
    using step Cons.prems(3) by (auto simp: slot_valid_def swept_state_def)
  show ?case
    by (rule Cons.IH [OF conjunct1 [OF step] _ v]) (use Cons.prems(2) r in simp)
qed simp

theorem run_row_ok:
  assumes "imap_ok (wd_stages d)" and "task_run C d hops row"
  shows "row_ok d hops row"
  using assms(2)
proof (induction rule: task_run.induct)
  case (started nows input title closes row)
  then show ?case by (rule row_ok_start)
next
  case (advanced hops row nows outcome capture next_stage u now)
  have "compute_transition C d nows (row\<lparr>ws_payload := ws_payload row\<rparr>) outcome capture = Some (Inr (next_stage, u))"
    using advanced.hyps(2) by simp
  then show ?case
    by (rule row_ok_move [OF advanced.IH assms(1)]) (simp_all add: row_ok_finished [OF advanced.IH])
next
  case (rewatched hops row t now u now')
  then show ?case by (intro row_ok_rewatch)
next
  case (branch_ended hops row branch b nows now status w sid current verdict e step u reason now')
  let ?e = "checked_end branch (bf_results b) e"
  have "\<And>why. step \<noteq> Dropped why" using branch_ended.hyps(4) by auto
  from branch_end_step [OF branch_ended.hyps(3,2) this] obtain bs p where
    r: "ws_current_stage row = bw_group w" "branch_state (ws_payload row) branch = Some ''running''"
    and bs: "Option.bind (stage_of d (bw_group w)) (\<lambda>s. group_branches (sd_kind s)) = Some bs"
    and p: "p = branch_end_payload branch ?e verdict (ch_stamp C now) (ws_payload row)"
    and st: "settle_group C d nows (bw_group w) bs row p = Some (Inr step)" .
  obtain sd where sd: "stage_of d (ws_current_stage row) = Some sd" "sd_kind sd = Parallel bs"
    using bs r(1) by (auto simp: bind_eq_Some_conv group_branches_iff)
  have u: "u = group_update row p"
    using st branch_ended.hyps(4) by (auto simp: settle_group_def and_then_ok split: if_splits prod.splits)
  show ?case
  proof (rule row_ok_group_write [OF branch_ended.IH sd u])
    show "slot_write (ws_payload row) p" by (simp add: p slot_write_branch_end)
    show "stage_finished p k \<longleftrightarrow> finished_in (ended_hops branch ?e @ hops) k" for k
      by (simp add: p finished_branch_end ended_hops_simps row_ok_finished [OF branch_ended.IH])
    show "slot_valid (branch_state p n)" if "n \<in> set (ikeys bs)" for n
      unfolding p by (rule valid_after_end [OF r(2) row_ok_valid [OF branch_ended.IH sd that]])
  qed blast
next
  case (group_left hops row branch b nows now status w sid current verdict e next_stage u now')
  let ?e = "checked_end branch (bf_results b) e"
  from branch_end_step [OF group_left.hyps(3,2)] obtain bs p where
    p: "p = branch_end_payload branch ?e verdict (ch_stamp C now) (ws_payload row)"
    and st: "settle_group C d nows (bw_group w) bs row p = Some (Inr (LeftGroup next_stage u))" by blast
  have ct: "compute_transition C d nows (row\<lparr>ws_payload := p\<rparr>) ''done'' None = Some (Inr (next_stage, u))"
    using st by (auto simp: settle_group_def and_then_ok split: if_splits prod.splits)
  show ?case
    by (rule row_ok_move [OF group_left.IH assms(1) ct])
       (simp_all add: p finished_branch_end ended_hops_simps row_ok_finished [OF group_left.IH])
next
  case (starts_failed hops row s branches t failures step u reason now)
  let ?p = "start_failures_payload t failures (ws_payload row)"
  have u: "u = group_update row ?p"
    using starts_failed.hyps(4,5) by (auto simp: record_start_failures_def Let_def split: if_splits)
  have "row_ok d ([] @ hops) (update_state u now row)"
  proof (rule row_ok_group_write [OF starts_failed.IH starts_failed.hyps(2,3) u])
    show "slot_valid (branch_state ?p n)" if "n \<in> set (ikeys branches)" for n
      by (rule slots_valid_starts [OF row_ok_valid [OF starts_failed.IH starts_failed.hyps(2,3) that]])
  qed (simp_all add: slot_write_starts finished_starts row_ok_finished [OF starts_failed.IH])
  then show ?case by simp
next
  case (swept hops row s branches t reads step u failed reason now)
  have "\<exists>q f. fold (park_branch t (ws_current_stage row) reads) (ikeys branches) (ws_payload row, []) = (q, f)
      \<and> u = group_update row q"
    using swept.hyps(4,5)
    by (auto simp: park_group_locked_def park_group_branches_def Let_def split: option.splits prod.splits if_splits)
  then obtain q f where
    q: "fold (park_branch t (ws_current_stage row) reads) (ikeys branches) (ws_payload row, []) = (q, f)"
    and u: "u = group_update row q" by blast
  have "row_ok d ([] @ hops) (update_state u now row)"
  proof (rule row_ok_group_write [OF swept.IH swept.hyps(2,3) u slot_write_park_fold [OF q]])
    show "stage_finished q k \<longleftrightarrow> finished_in ([] @ hops) k" for k
      using stage_finished_frame [OF jget_park_fold [OF _ q]] row_ok_finished [OF swept.IH]
      by (simp add: FINISHED_STAGES_def)
    show "slot_valid (branch_state q n)" if n: "n \<in> set (ikeys branches)" for n
      by (rule slots_valid_park [OF _ q row_ok_valid [OF swept.IH swept.hyps(2,3) n]])
         (use swept.IH swept.hyps(2,3) in \<open>auto simp: row_ok_def group_ok_def intro: block_ok_slots\<close>)
  qed simp
  then show ?case by simp
next
  case (group_retried hops row s branches mode t reads' reruns u now)
  obtain q where q: "rerun_payload t (map ru_name reruns) (ws_payload row) = Some q"
    and u: "u = group_update row q"
    using group_retried.hyps(4)
    by (auto simp: retry_group_def group_update_def result_simps split: option.splits if_splits)
  have "row_ok d ([] @ hops) (update_state u now row)"
  proof (rule row_ok_group_write [OF group_retried.IH group_retried.hyps(2,3) u slot_write_rerun [OF q]])
    show "stage_finished q k \<longleftrightarrow> finished_in ([] @ hops) k" for k
      using stage_finished_frame [OF jget_rerun [OF _ q]] row_ok_finished [OF group_retried.IH]
      by (simp add: FINISHED_STAGES_def)
    show "slot_valid (branch_state q n)" if n: "n \<in> set (ikeys branches)" for n
      using row_ok_valid [OF group_retried.IH group_retried.hyps(2,3) n]
      by (simp add: branch_state_rerun [OF q] slot_valid_def)
  qed simp
  then show ?case by simp
next
  case (restamped hops row s t' u now)
  from restamped.hyps(4) obtain q where
    q: "set_poll_window C d (ws_current_stage row) t' (ws_payload row) = Inr q"
    and u: "u = \<lparr>su_current_stage = ws_current_stage row, su_stage_kind = stage_kind_name (sd_kind s),
                 su_loop_counters = ws_loop_counters row, su_payload = q, su_enters_stage = False\<rparr>"
    by (auto simp: reenter_update_def result_simps split: if_splits)
  note frame = set_poll_window_frame [OF q]
  have "group_ok (sd_kind s) (ws_current_stage row) q"
    using restamped.IH restamped.hyps(2,3) frame [of "''parallel''"]
    by (simp add: row_ok_def group_ok_def)
  moreover have "stage_finished q k \<longleftrightarrow> finished_in ([] @ hops) k" for k
    using stage_finished_frame [of q "ws_payload row"] frame [of FINISHED_STAGES] row_ok_finished [OF restamped.IH]
    by (simp add: FINISHED_STAGES_def)
  ultimately have "row_ok d ([] @ hops) (update_state u now row)"
    using frame [of "''arrival''"] window_ok_enter [OF q restamped.hyps(2) refl]
    by (intro row_ok_stay [OF restamped.IH restamped.hyps(2)]) (simp_all add: u)
  then show ?case by simp
qed

section \<open>Accepted workflows\<close>

lemma set_poll_window_error:
  assumes "set_poll_window C d n t p = Inl e"
  shows "\<exists>reason. e = PollWindow n reason \<and> watch_of d n \<noteq> None"
proof (cases "watch_of d n")
  case None
  with assms show ?thesis by (simp add: set_poll_window_def Let_def)
next
  case (Some w)
  with assms have "window_deadline C n (w_timeout w) t = Inl e"
    by (cases "window_deadline C n (w_timeout w) t") (simp_all add: set_poll_window_def Let_def)
  then have "\<exists>reason. e = PollWindow n reason"
    by (cases "w_timeout w"; cases "ch_limit C (the (w_timeout w))")
       (auto simp: window_deadline_def split: option.splits)
  with Some show ?thesis by simp
qed

lemma stamp_payload_error:
  assumes "stamp_payload C d nows cur oc n cap p = Inl e"
  shows "\<exists>reason. e = PollWindow n reason \<and> watch_of d n \<noteq> None"
proof -
  let ?q = "set_left_at cur (ch_stamp C (fst nows)) (mark_stage_finished cur (set_arrival cur oc
          (case cap of None \<Rightarrow> p | Some v \<Rightarrow> merge_stage_capture cur v p)))"
  have "set_poll_window C d n (fst (snd nows)) ?q = Inl e"
    using assms by (cases "set_poll_window C d n (fst (snd nows)) ?q") (simp_all add: stamp_payload_def Let_def)
  then show ?thesis by (rule set_poll_window_error)
qed

lemma apply_guard_cases:
  assumes "is_object c"
  shows "\<exists>n c'. apply_guard sd cur oc target c = Some (n, c') \<and> is_object c' \<and>
    (n = target \<or> (\<exists>g. sd_guard sd = Some g \<and> n = lg_then g))"
  using assms
  by (cases "sd_guard sd") (auto simp: apply_guard_def bump_loop_counter_def reset_loop_counter_def Let_def)

lemma accepted_edge:
  assumes "definition_ok X d" and "stage_of d cur = Some sd" and "map_of (sd_on sd) oc = Some target"
    and "n = target \<or> (\<exists>g. sd_guard sd = Some g \<and> n = lg_then g)"
  shows "\<exists>s. stage_of d n = Some s"
proof -
  have "(cur, sd) \<in> set (wd_stages d)" using assms(2) by (auto simp: stage_of_def dest: map_of_SomeD)
  then have "edges_ok d sd" using assms(1) by (auto simp: definition_ok_def stage_ok_def list_all_iff)
  moreover have "(oc, target) \<in> set (sd_on sd)" using assms(3) by (rule map_of_SomeD)
  ultimately have "has_key (wd_stages d) n"
    using assms(4) by (auto simp: edges_ok_def on_targets_def list_all_iff split: option.splits)
  then show ?thesis by (auto simp: has_key_iff stage_of_def)
qed

section \<open>Properties\<close>

text \<open>
  C5. The loop counters count: in every run of a task, the counter of a guarded stage is the number
  of times in a row its guarded outcome was taken, counted since the stage last took another
  outcome and since the task last reached the stage the guard leads out to; it never passes the
  guard's maximum.
\<close>

theorem loop_counters_count:
  assumes "imap_ok (wd_stages d)" and "task_run C d hops row" and "guard_of d s = Some g"
  shows "unat (counter_of (ws_loop_counters row) s) = consecutive g s hops
    \<and> consecutive g s hops \<le> unat (lg_max g)"
  using run_row_ok [OF assms(1,2)] assms(3)
  by (auto simp: row_ok_def counters_ok_def split: option.splits)

text \<open>
  C6. The loop guard trips exactly when it should: in every run, the guarded outcome of a stage
  goes where the workflow sends it while it was taken fewer than the maximum times in a row, and
  to the guard's way out at the next time after that; every other outcome is never diverted.
\<close>

theorem guard_trips_exactly:
  assumes "imap_ok (wd_stages d)" and "task_run C d hops row"
    and "stage_of d (ws_current_stage row) = Some sd"
    and "map_of (sd_on sd) outcome = Some target"
    and "compute_transition C d nows row outcome capture = Some (Inr (n, u))"
  shows "n = (case sd_guard sd of
        None \<Rightarrow> target
      | Some g \<Rightarrow>
          if outcome = lg_on g \<and> consecutive g (ws_current_stage row) hops \<ge> unat (lg_max g)
          then lg_then g else target)"
  using assms(5)
proof (cases rule: compute_transition_ok)
  case (1 sd' target' c1 s')
  with assms(3,4) have guard: "apply_guard sd (ws_current_stage row) outcome target (ws_loop_counters row) = Some (n, c1)"
    by simp
  show ?thesis
  proof (cases "sd_guard sd")
    case None
    with guard show ?thesis by (simp add: apply_guard_def)
  next
    case (Some g)
    then have g: "guard_of d (ws_current_stage row) = Some g" using assms(3) by (simp add: guard_of_def)
    let ?c = "counter_of (ws_loop_counters row) (ws_current_stage row)"
    note count = loop_counters_count [OF assms(1,2) g]
    show ?thesis
    proof (cases "lg_on g = outcome")
      case False
      with Some guard show ?thesis by (auto simp: apply_guard_def)
    next
      case True
      have "unat (lg_max g) < 2 ^ 32" by (rule order_less_le_trans [OF unsigned_less]) simp
      with count have "unat ?c + 1 < 2 ^ 64" by simp
      then have k: "unat (?c + 1) = Suc (consecutive g (ws_current_stage row) hops)"
        using count by (simp add: unat_word_ariths)
      have "n = (if uint (?c + 1) > uint (lg_max g) then lg_then g else target)"
        using guard Some True by (auto simp: apply_guard_def bump_loop_counter_def Let_def split: if_splits)
      moreover have "uint (?c + 1) > uint (lg_max g) \<longleftrightarrow> unat (?c + 1) > unat (lg_max g)"
        by (simp only: uint_nat of_nat_less_iff)
      ultimately show ?thesis using Some True k by simp
    qed
  qed
qed

text \<open>
  C4. The stored row tells the task's history, whatever happened to it: the current stage is the
  one the last move led to and is a stage of the workflow, of the kind the row says; the arrival
  is that last move; a stage or branch counts as finished exactly when it was left or ended; the
  payload has branch states exactly while a parallel group is current, one of running, done or
  failed for every branch; and a poll window exactly while the stage watches, named for it.
\<close>

theorem row_tells_history:
  assumes "imap_ok (wd_stages d)" and "task_run C d hops row"
  shows "case stage_of d (ws_current_stage row) of
      None \<Rightarrow> False
    | Some sd \<Rightarrow>
        map_option (\<lambda>start. now_at start hops) (start_stage d) = Some (ws_current_stage row)
        \<and> ws_stage_kind row = Some (stage_kind_name (sd_kind sd))
        \<and> jget ''arrival'' (ws_payload row) = Some (arrival_value (last_move hops))
        \<and> stage_finished (ws_payload row) k = finished_in hops k
        \<and> (case group_branches (sd_kind sd) of
             None \<Rightarrow> jget ''parallel'' (ws_payload row) = None
           | Some bs \<Rightarrow>
               current_group_branches (ws_payload row) (ws_current_stage row) (ws_stage_kind row) \<noteq> None
               \<and> list_all (\<lambda>n. slot_valid (branch_state (ws_payload row) n)) (ikeys bs))
        \<and> (case stage_watch sd of
             None \<Rightarrow> jget ''poll_window'' (ws_payload row) = None
           | Some w \<Rightarrow> Option.bind (jget ''poll_window'' (ws_payload row)) (jget ''stage'')
                       = Some (JStr (ws_current_stage row)))"
proof -
  from run_row_ok [OF assms] show ?thesis
  proof (cases rule: row_okD)
    case (1 sd start)
    have "current_group_branches (ws_payload row) (ws_current_stage row) (ws_stage_kind row) \<noteq> None"
      if "group_branches (sd_kind sd) = Some bs" for bs
    proof -
      have "sd_kind sd = Parallel bs" using that by (simp add: group_branches_iff)
      moreover have "block_ok (ws_current_stage row) (ws_payload row)" using 1(8) that by (simp add: group_ok_def)
      ultimately show ?thesis
        using 1(2) jget_Some_object by (fastforce simp: block_ok_def current_group_branches_def)
    qed
    with 1 show ?thesis
      by (auto simp: group_ok_def window_ok_def split: option.splits)
  qed
qed

text \<open>
  C3. A workflow the loader accepts runs: in every run of a task under a validated definition, an
  outcome never panics the engine and never leads to a stage that does not exist. The only
  refusals are a terminal stage, an outcome the stage has no transition for, and a poll window
  chrono cannot count to.
\<close>

theorem accepted_workflow_runs:
  assumes "validate X d = Some (Inr ())" and "imap_ok (wd_stages d)" and "task_run C d hops row"
  shows "case compute_transition C d nows row outcome capture of
      None \<Rightarrow> False
    | Some (Inr (n, u)) \<Rightarrow> stage_of d n \<noteq> None \<and> su_current_stage u = n
    | Some (Inl e) \<Rightarrow>
        (case e of
           TerminalStageHasNoTransitions s \<Rightarrow> s = ws_current_stage row
         | UnknownOutcome s oc \<Rightarrow> s = ws_current_stage row \<and> oc = outcome
         | PollWindow s reason \<Rightarrow> watch_of d s \<noteq> None
         | _ \<Rightarrow> False)"
proof -
  have ok: "definition_ok X d" using assms(1) by (simp add: validate_decides)
  from run_row_ok [OF assms(2,3)] obtain sd where sd: "stage_of d (ws_current_stage row) = Some sd"
    and obj: "is_object (ws_loop_counters row)"
    by (cases rule: row_okD) (auto simp: counters_ok_def)
  show ?thesis
  proof (cases "is_terminal (sd_kind sd)")
    case True
    with sd show ?thesis by (simp add: compute_transition_def)
  next
    case live: False
    show ?thesis
    proof (cases "map_of (sd_on sd) outcome")
      case None
      with sd live show ?thesis by (simp add: compute_transition_def)
    next
      case target: (Some target)
      from apply_guard_cases [OF obj] obtain n c1 where
        g: "apply_guard sd (ws_current_stage row) outcome target (ws_loop_counters row) = Some (n, c1)"
        and c1: "is_object c1" and n: "n = target \<or> (\<exists>g. sd_guard sd = Some g \<and> n = lg_then g)"
        by blast
      from accepted_edge [OF ok sd target n] obtain s where s: "stage_of d n = Some s" by blast
      let ?p = "stamp_payload C d nows (ws_current_stage row) outcome n capture (ws_payload row)"
      have ct: "compute_transition C d nows row outcome capture = Some (and_then ?p (\<lambda>payload.
          Inr (n, \<lparr>su_current_stage = n, su_stage_kind = stage_kind_name (sd_kind s),
                   su_loop_counters = clear_loop (wd_stages d) n c1, su_payload = payload,
                   su_enters_stage = True\<rparr>)))"
        using sd live target g c1 s by (simp add: compute_transition_def clear_guards_escaping_to_def)
      show ?thesis
      proof (cases ?p)
        case (Inl e)
        with stamp_payload_error [OF Inl] ct show ?thesis by auto
      next
        case (Inr q)
        with ct s show ?thesis by simp
      qed
    qed
  qed
qed


section \<open>Witnesses\<close>

text \<open>A loop of two stages: code, and a check that sends the task back at most twice in a row.\<close>

definition example_loop :: workflow_definition where
  "example_loop =
     \<lparr>wd_name = ''loop'',
      wd_roles = [(''r'', \<lparr>rd_cli = None, rd_model = None, rd_system_prompt_file = None,
                          rd_isolation = InheritOperatorConfig, rd_disallowed_tools = [], rd_read_only = False,
                          rd_claude_settings = []\<rparr>)],
      wd_stages =
        [(''code'', StageDef (AgentTurn ''r'' None None []) [(''done'', ''check'')] None),
         (''check'', StageDef (AgentTurn ''r'' None None []) [(''ok'', ''end''), (''bad'', ''code'')]
            (Some \<lparr>lg_on = ''bad'', lg_max = 2, lg_then = ''ask''\<rparr>)),
         (''ask'', StageDef (HumanGate None [] None) [(''resumed'', ''code'')] None),
         (''end'', StageDef Terminal [] None)],
      wd_worktree = False\<rparr>"

definition example_step :: "string \<Rightarrow> workflow_state \<Rightarrow> (string \<times> state_update) option" where
  "example_step outcome row =
     (case compute_transition example_chrono example_loop (0, 0, 0) row outcome None of
        Some (Inr r) \<Rightarrow> Some r | _ \<Rightarrow> None)"

definition example_next :: "string \<Rightarrow> workflow_state \<Rightarrow> workflow_state" where
  "example_next outcome row = (case example_step outcome row of None \<Rightarrow> row | Some (n, u) \<Rightarrow> update_state u 0 row)"

definition example_first :: workflow_state where
  "example_first =
     (case start_row example_chrono example_loop (0, 0, 0) None ''t'' (JArr []) of
        Some (Inr row) \<Rightarrow> row | _ \<Rightarrow> example_row)"

abbreviation example_second :: workflow_state where
  "example_second \<equiv> example_next ''done'' example_first"

abbreviation example_third :: workflow_state where
  "example_third \<equiv> example_next ''bad'' example_second"

lemma example_starts: "start_row example_chrono example_loop (0, 0, 0) None ''t'' (JArr []) = Some (Inr example_first)"
proof -
  have "case start_row example_chrono example_loop (0, 0, 0) None ''t'' (JArr []) of Some (Inr row) \<Rightarrow> True | _ \<Rightarrow> False"
    by code_simp
  then show ?thesis by (auto simp: example_first_def split: option.splits sum.splits)
qed

lemma example_steps:
  "map_option fst (example_step ''done'' example_first) = Some ''check''"
  "map_option fst (example_step ''bad'' example_second) = Some ''code''"
  "ws_current_stage example_first = ''code''" "ws_current_stage example_second = ''check''"
  "ws_current_stage example_third = ''code''"
  by code_simp+

lemma example_keys: "imap_ok (wd_stages example_loop)"
  by code_simp

lemma example_transition:
  assumes "map_option fst (example_step outcome row) = Some n"
  obtains u where "compute_transition example_chrono example_loop (0, 0, 0) row outcome None = Some (Inr (n, u))"
    "example_next outcome row = update_state u 0 row"
  using assms by (auto simp: example_step_def example_next_def split: option.splits sum.splits prod.splits)

lemma example_run:
  "task_run example_chrono example_loop [] example_first"
  "task_run example_chrono example_loop [Hop ''code'' ''done'' ''check''] example_second"
  "task_run example_chrono example_loop [Hop ''check'' ''bad'' ''code'', Hop ''code'' ''done'' ''check''] example_third"
proof -
  show 1: "task_run example_chrono example_loop [] example_first"
    by (rule task_run.started [OF example_starts])
  show 2: "task_run example_chrono example_loop [Hop ''code'' ''done'' ''check''] example_second"
    using task_run.advanced [OF 1] example_transition [OF example_steps(1)] example_steps(3) by metis
  show "task_run example_chrono example_loop [Hop ''check'' ''bad'' ''code'', Hop ''code'' ''done'' ''check''] example_third"
    using task_run.advanced [OF 2] example_transition [OF example_steps(2)] example_steps(4) by metis
qed

definition example_guard :: loop_guard where
  "example_guard = \<lparr>lg_on = ''bad'', lg_max = 2, lg_then = ''ask''\<rparr>"

lemma example_guarded: "guard_of example_loop ''check'' = Some example_guard"
  by (simp add: guard_of_def stage_of_def example_loop_def example_guard_def)

theorem loop_counters_count_witness:
  "unat (counter_of (ws_loop_counters example_third) ''check'') = 1"
  using loop_counters_count [OF example_keys example_run(3) example_guarded]
  by (simp add: example_guard_def)

theorem guard_trips_exactly_witness:
  "\<exists>u. compute_transition example_chrono example_loop (0, 0, 0) example_second ''bad'' None = Some (Inr (''code'', u))
     \<and> consecutive example_guard ''check'' [Hop ''code'' ''done'' ''check''] < unat (lg_max example_guard)"
proof -
  obtain u where u: "compute_transition example_chrono example_loop (0, 0, 0) example_second ''bad'' None
      = Some (Inr (''code'', u))"
    using example_transition [OF example_steps(2)] by blast
  have sd: "stage_of example_loop (ws_current_stage example_second) = Some
      (StageDef (AgentTurn ''r'' None None []) [(''ok'', ''end''), (''bad'', ''code'')] (Some example_guard))"
    by (simp add: example_steps stage_of_def example_loop_def example_guard_def)
  have "''code'' = (if unat (lg_max example_guard) \<le> 0 then ''ask'' else ''code'')"
    using guard_trips_exactly [OF example_keys example_run(2) sd _ u, of "''code''"]
    by (simp add: example_guard_def example_steps)
  with u show ?thesis by (simp add: example_guard_def split: if_splits)
qed

theorem row_tells_history_witness:
  "jget ''arrival'' (ws_payload example_third) = Some (arrival_value (''check'', ''bad''))
   \<and> stage_finished (ws_payload example_third) ''check''"
  using row_tells_history [OF example_keys example_run(3), of "''check''"]
  by (simp split: option.splits)

theorem accepted_workflow_runs_witness:
  "validate example_externals example_loop = Some (Inr ()) \<and>
   compute_transition example_chrono example_loop (0, 0, 0) example_third ''nonsense'' None \<noteq> None"
proof -
  have v: "validate example_externals example_loop = Some (Inr ())" by code_simp
  from accepted_workflow_runs [OF this example_keys example_run(3),
      where nows = "(0, 0, 0)" and outcome = "''nonsense''" and capture = None] v
  show ?thesis by (auto split: option.splits)
qed


end
