(* ===== verification/Gates.thy ===== *)
theory Gates
  imports Runs
begin

text \<open>
  Answering a human gate (engine/gate.rs): reading the verdict of a reply off its marker lines,
  refusing a reply that is only other gates' markers, and what reply_to_gate then advances on and
  captures. The JSON parser is the parameter of derive_capture.
\<close>

section \<open>Marker lines\<close>

record reply_verdict =
  rv_outcome :: string
  rv_review :: string

datatype reply_marker_error = NoMarker | Conflict "string list"

definition reply_blank :: "char \<Rightarrow> bool" where
  "reply_blank c = (c = CHR 0x20 \<or> c = CHR 0x09 \<or> c = CHR 0x0D)"

definition strip_reply_line :: "string \<Rightarrow> string" where
  "strip_reply_line line = rev (dropWhile reply_blank (rev line))"

fun only_markers_loop :: "string list \<Rightarrow> string list \<Rightarrow> string list \<Rightarrow> string list option" where
  "only_markers_loop marker_lines [] found = (if found = [] then None else Some found)"
| "only_markers_loop marker_lines (line # lines) found =
     (let stripped = strip_reply_line line in
      if stripped = [] then only_markers_loop marker_lines lines found
      else if stripped \<notin> set marker_lines then None
      else only_markers_loop marker_lines lines (if stripped \<in> set found then found else found @ [stripped]))"

definition only_marker_lines :: "string \<Rightarrow> string list \<Rightarrow> string list option" where
  "only_marker_lines reply marker_lines = only_markers_loop marker_lines (split_on (CHR 0x0A) reply) []"

text \<open>The loop of reply_verdict: the markers found, in order, and the lines kept.\<close>

fun verdict_loop ::
  "reply_marker list \<Rightarrow> string list \<Rightarrow> reply_marker list \<Rightarrow> string list \<Rightarrow> reply_marker list \<times> string list"
where
  "verdict_loop markers [] found kept = (found, kept)"
| "verdict_loop markers (line # lines) found kept =
     (case find (\<lambda>m. rm_line m = strip_reply_line line) markers of
        Some marker \<Rightarrow>
          verdict_loop markers lines
            (if list_ex (\<lambda>f. rm_line f = rm_line marker) found then found else found @ [marker]) kept
      | None \<Rightarrow> verdict_loop markers lines found (kept @ [line]))"

fun distinct_outcomes :: "reply_marker list \<Rightarrow> string list \<Rightarrow> string list" where
  "distinct_outcomes [] acc = acc"
| "distinct_outcomes (m # ms) acc =
     distinct_outcomes ms (if rm_then m \<in> set acc then acc else acc @ [rm_then m])"

definition blank_line :: "string \<Rightarrow> bool" where
  "blank_line line = (strip_reply_line line = [])"

text \<open>\<open>kept[start..end].join("\n")\<close>: without the blank lines at either end.\<close>

definition review_of :: "string list \<Rightarrow> string" where
  "review_of kept = join [CHR 0x0A] (rev (dropWhile blank_line (rev (dropWhile blank_line kept))))"

definition reply_verdict :: "string \<Rightarrow> reply_marker list \<Rightarrow> (reply_marker_error, reply_verdict) result" where
  "reply_verdict reply markers =
     (case verdict_loop markers (split_on (CHR 0x0A) reply) [] [] of
        (found, kept) \<Rightarrow>
          (case distinct_outcomes found [] of
             [] \<Rightarrow> Inl NoMarker
           | [one] \<Rightarrow> Inr \<lparr>rv_outcome = one, rv_review = review_of kept\<rparr>
           | _ \<Rightarrow> Inl (Conflict (map rm_line
                        (filter (\<lambda>m. list_ex (\<lambda>f. rm_line f = rm_line m) found) markers)))))"

section \<open>Replying\<close>

text \<open>The refusals of reply_to_gate, among the errors of sending a message.\<close>

datatype reply_error =
    UnsupportedStageKind string
  | ReplyNeedsMarker string "string list"
  | ReplyHasConflictingMarkers string "string list"
  | ReplyIsOnlyMarkers string string "string list" "string option" bool

fun gate_markers :: "stage_kind \<Rightarrow> reply_marker list" where
  "gate_markers (HumanGate _ markers _) = markers"
| "gate_markers _ = []"

definition all_marker_lines :: "workflow_definition \<Rightarrow> string list" where
  "all_marker_lines d =
     fold (\<lambda>line acc. if line \<in> set acc then acc else acc @ [line])
       (concat (map (\<lambda>(_, s). map rm_line (gate_markers (sd_kind s))) (wd_stages d))) []"

text \<open>
  reply_to_gate up to the transition: the outcome, the capture and the note. The outer \<open>None\<close> is
  the panic of indexing a stage that does not exist.
\<close>

definition reply_to_gate ::
  "json_parser \<Rightarrow> string \<Rightarrow> workflow_definition \<Rightarrow> string \<Rightarrow> string \<Rightarrow> json \<Rightarrow>
   (reply_error, string \<times> json option \<times> string option) result option"
where
  "reply_to_gate P task_id d gate reply payload =
     map_option (\<lambda>sd.
       case sd_kind sd of
         HumanGate capture markers _ \<Rightarrow>
           (if markers = [] then
              (case only_marker_lines reply (all_marker_lines d) of
                 Some found \<Rightarrow>
                   Inl (ReplyIsOnlyMarkers task_id gate found (map_of (sd_on sd) ''resumed'')
                          (timed_out_watch d gate payload \<noteq> None))
               | None \<Rightarrow> Inr (''resumed'', derive_capture P capture reply (''the human'' @ [CHR 0x27] @ ''s message'')))
            else
              (case reply_verdict reply markers of
                 Inr verdict \<Rightarrow>
                   Inr (rv_outcome verdict,
                        derive_capture P capture (rv_review verdict) (''the human'' @ [CHR 0x27] @ ''s message''))
               | Inl NoMarker \<Rightarrow> Inl (ReplyNeedsMarker gate (map rm_line markers))
               | Inl (Conflict found) \<Rightarrow> Inl (ReplyHasConflictingMarkers gate found)))
       | _ \<Rightarrow> Inl (UnsupportedStageKind gate))
     (stage_of d gate)"

section \<open>Lemmas\<close>

text \<open>The markers a reply carries, in the order the gate declares them.\<close>

definition carried :: "string \<Rightarrow> reply_marker list \<Rightarrow> reply_marker list" where
  "carried reply markers =
     filter (\<lambda>m. rm_line m \<in> set (map strip_reply_line (split_on (CHR 0x0A) reply))) markers"

lemma find_line_None: "find (\<lambda>m. rm_line m = l) markers = None \<longleftrightarrow> l \<notin> rm_line ` set markers"
  by (auto simp: find_None_iff)

lemma find_line_Some:
  "find (\<lambda>m. rm_line m = l) markers = Some m \<Longrightarrow> m \<in> set markers \<and> rm_line m = l"
  by (auto simp: find_Some_iff)

lemma same_line: "distinct (map rm_line ms) \<Longrightarrow> a \<in> set ms \<Longrightarrow> b \<in> set ms \<Longrightarrow> rm_line a = rm_line b \<Longrightarrow> a = b"
  by (auto simp: distinct_map inj_on_def)

lemma verdict_loop_kept:
  "snd (verdict_loop markers lines found kept) =
     kept @ filter (\<lambda>l. strip_reply_line l \<notin> rm_line ` set markers) lines"
proof (induction lines arbitrary: found kept)
  case (Cons l lines)
  show ?case
  proof (cases "find (\<lambda>m. rm_line m = strip_reply_line l) markers")
    case None
    then show ?thesis using Cons find_line_None [of "strip_reply_line l" markers] by simp
  next
    case (Some m)
    then have "strip_reply_line l \<in> rm_line ` set markers"
      using find_line_Some [OF Some] by (metis imageI)
    then show ?thesis using Cons Some by simp
  qed
qed simp

lemma verdict_loop_found:
  assumes "distinct (map rm_line markers)" and "set found \<subseteq> set markers"
  shows "set (fst (verdict_loop markers lines found kept)) =
     set found \<union> {m \<in> set markers. rm_line m \<in> set (map strip_reply_line lines)}"
  using assms(2)
proof (induction lines arbitrary: found kept)
  case (Cons l lines)
  show ?case
  proof (cases "find (\<lambda>m. rm_line m = strip_reply_line l) markers")
    case None
    then have "\<And>n. n \<in> set markers \<Longrightarrow> rm_line n \<noteq> strip_reply_line l"
      by (auto simp: find_None_iff)
    then have none: "{n \<in> set markers. rm_line n = strip_reply_line l} = {}" by blast
    from Cons.IH [OF Cons.prems] have
      "set (fst (verdict_loop markers (l # lines) found kept)) =
         set found \<union> {n \<in> set markers. rm_line n \<in> set (map strip_reply_line lines)}"
      by (simp add: None)
    with none show ?thesis by auto
  next
    case (Some m)
    note m = find_line_Some [OF Some]
    have hit: "{n \<in> set markers. rm_line n = strip_reply_line l} = {m}"
      using m same_line [OF assms(1)] by auto
    let ?found = "if list_ex (\<lambda>f. rm_line f = rm_line m) found then found else found @ [m]"
    have f: "set ?found = set found \<union> {m}"
    proof (cases "list_ex (\<lambda>f. rm_line f = rm_line m) found")
      case True
      then obtain n where "n \<in> set found" "rm_line n = rm_line m" by (auto simp: list_ex_iff)
      then have "m \<in> set found" using same_line [OF assms(1)] m Cons.prems by blast
      with True show ?thesis by auto
    qed simp
    then have "set ?found \<subseteq> set markers" using m Cons.prems by auto
    from Cons.IH [OF this] have
      "set (fst (verdict_loop markers (l # lines) found kept)) =
         set found \<union> {m} \<union> {n \<in> set markers. rm_line n \<in> set (map strip_reply_line lines)}"
      by (simp add: Some f del: set_append)
    with hit show ?thesis by auto
  qed
qed simp

lemma distinct_outcomes_set: "set (distinct_outcomes ms acc) = set acc \<union> rm_then ` set ms"
  by (induction ms acc rule: distinct_outcomes.induct) auto

lemma distinct_outcomes_distinct: "distinct acc \<Longrightarrow> distinct (distinct_outcomes ms acc)"
  by (induction ms acc rule: distinct_outcomes.induct) auto

lemma distinct_one:
  assumes "distinct xs" and "set xs = {x}"
  shows "xs = [x]"
proof (cases xs)
  case (Cons y ys)
  with assms(2) have y: "y = x" by auto
  with assms Cons have "set ys \<subseteq> {x}" "x \<notin> set ys" by auto
  then have "ys = []" by (cases ys) simp_all
  with Cons y show ?thesis by simp
qed (use assms in simp)

lemma two_members:
  assumes "x \<in> set xs" and "y \<in> set xs" and "x \<noteq> y"
  obtains a b rest where "xs = a # b # rest"
proof (cases xs)
  case Nil
  with assms show ?thesis by simp
next
  case (Cons a ys)
  with assms show ?thesis using that by (cases ys) auto
qed

lemma reply_verdict_carried:
  assumes "distinct (map rm_line markers)"
  shows "reply_verdict reply markers =
    (case carried reply markers of
       [] \<Rightarrow> Inl NoMarker
     | m # ms \<Rightarrow>
         if list_all (\<lambda>n. rm_then n = rm_then m) ms then
           Inr \<lparr>rv_outcome = rm_then m,
                rv_review = review_of (filter (\<lambda>l. strip_reply_line l \<notin> rm_line ` set markers)
                  (split_on (CHR 0x0A) reply))\<rparr>
         else Inl (Conflict (map rm_line (m # ms))))"
proof -
  let ?lines = "split_on (CHR 0x0A) reply"
  obtain found kept where v: "verdict_loop markers ?lines [] [] = (found, kept)" by fastforce
  have found: "set found = set (carried reply markers)"
    using verdict_loop_found [OF assms, of "[]" ?lines "[]"] v by (auto simp: carried_def)
  have kept: "kept = filter (\<lambda>l. strip_reply_line l \<notin> rm_line ` set markers) ?lines"
    using verdict_loop_kept [of markers ?lines "[]" "[]"] v by simp
  have outs: "set (distinct_outcomes found []) = rm_then ` set (carried reply markers)"
    "distinct (distinct_outcomes found [])"
    by (simp_all add: distinct_outcomes_set distinct_outcomes_distinct found)
  have conflict: "filter (\<lambda>m. list_ex (\<lambda>f. rm_line f = rm_line m) found) markers = carried reply markers"
    unfolding carried_def
  proof (rule filter_cong [OF refl])
    fix m assume m: "m \<in> set markers"
    show "list_ex (\<lambda>f. rm_line f = rm_line m) found \<longleftrightarrow>
        rm_line m \<in> set (map strip_reply_line ?lines)"
      using m same_line [OF assms] by (auto simp: list_ex_iff found carried_def)
  qed
  show ?thesis
  proof (cases "carried reply markers")
    case Nil
    with outs(1) have "distinct_outcomes found [] = []" by simp
    with Nil v show ?thesis by (simp add: reply_verdict_def)
  next
    case (Cons m ms)
    show ?thesis
    proof (cases "list_all (\<lambda>n. rm_then n = rm_then m) ms")
      case True
      then have "set (distinct_outcomes found []) = {rm_then m}"
        using outs(1) Cons by (auto simp: list_all_iff)
      then have "distinct_outcomes found [] = [rm_then m]" by (rule distinct_one [OF outs(2)])
      with Cons True v kept show ?thesis by (simp add: reply_verdict_def)
    next
      case False
      then obtain n where n: "n \<in> set ms" "rm_then n \<noteq> rm_then m" by (auto simp: list_all_iff)
      have "rm_then n \<in> set (distinct_outcomes found [])" "rm_then m \<in> set (distinct_outcomes found [])"
        using outs(1) Cons n(1) by auto
      from two_members [OF this n(2)] obtain a b rest where "distinct_outcomes found [] = a # b # rest" .
      with Cons False v conflict show ?thesis by (simp add: reply_verdict_def)
    qed
  qed
qed

text \<open>The review is made of lines of the reply.\<close>

lemma split_on_single: "d \<notin> set l \<Longrightarrow> split_on d l = [l]"
  by (induction l) auto

lemma split_on_append: "d \<notin> set l \<Longrightarrow> split_on d (l @ d # s) = l # split_on d s"
  by (induction l) auto

lemma split_on_join_lines:
  "\<forall>l\<in>set ls. d \<notin> set l \<Longrightarrow> ls \<noteq> [] \<Longrightarrow> split_on d (join [d] ls) = ls"
proof (induction ls)
  case (Cons l ls)
  then show ?case by (cases ls) (simp_all add: split_on_single split_on_append)
qed simp

lemma set_dropWhile_subset: "set (dropWhile P xs) \<subseteq> set xs"
  by (induction xs) auto

lemma review_lines:
  assumes "\<forall>l\<in>set kept. CHR 0x0A \<notin> set l"
  shows "set (split_on (CHR 0x0A) (review_of kept)) \<subseteq> insert [] (set kept)"
proof -
  let ?ls = "rev (dropWhile blank_line (rev (dropWhile blank_line kept)))"
  have sub: "set ?ls \<subseteq> set kept"
    using set_dropWhile_subset [of blank_line "rev (dropWhile blank_line kept)"]
      set_dropWhile_subset [of blank_line kept] by simp
  show ?thesis
  proof (cases "?ls = []")
    case True
    then show ?thesis unfolding review_of_def True by simp
  next
    case False
    then have "split_on (CHR 0x0A) (review_of kept) = ?ls"
      unfolding review_of_def using sub assms by (intro split_on_join_lines) auto
    with sub show ?thesis by auto
  qed
qed

section \<open>Properties\<close>

text \<open>
  A reply at a gate with markers is read off its marker lines alone: it is refused when no
  line is one, refused with the lines named when they stand for different outcomes, and otherwise
  takes the one outcome they stand for, however often they are repeated; the review kept for the
  next stage has no marker line left in it.
\<close>

theorem verdict_reads_markers:
  assumes "markers_ok sd markers"
  shows "case carried reply markers of
      [] \<Rightarrow> reply_verdict reply markers = Inl NoMarker
    | m # ms \<Rightarrow>
        if list_all (\<lambda>n. rm_then n = rm_then m) ms then
          (case reply_verdict reply markers of
             Inl e \<Rightarrow> False
           | Inr v \<Rightarrow> rv_outcome v = rm_then m
               \<and> list_all (\<lambda>l. strip_reply_line l \<notin> rm_line ` set markers) (split_on (CHR 0x0A) (rv_review v)))
        else reply_verdict reply markers = Inl (Conflict (map rm_line (m # ms)))"
proof -
  have dist: "distinct (map rm_line markers)" and ne: "[] \<notin> rm_line ` set markers"
    using assms by (auto simp: markers_ok_def marker_ok_def list_all_iff Let_def)
  let ?kept = "filter (\<lambda>l. strip_reply_line l \<notin> rm_line ` set markers) (split_on (CHR 0x0A) reply)"
  have "\<forall>l\<in>set ?kept. CHR 0x0A \<notin> set l" by (auto dest: split_on_no_sep)
  from review_lines [OF this] ne
  have "list_all (\<lambda>l. strip_reply_line l \<notin> rm_line ` set markers) (split_on (CHR 0x0A) (review_of ?kept))"
    by (auto simp: list_all_iff strip_reply_line_def)
  then show ?thesis
    by (simp add: reply_verdict_carried [OF dist] split: list.split)
qed

text \<open>
  C33. A verdict always leads somewhere: at a gate with markers of a validated workflow, a reply
  that is accepted takes an outcome the gate has a transition for, so the transition it asks for
  is refused neither as unknown nor as terminal.
\<close>

theorem accepted_reply_advances:
  assumes "validate X d = Some (Inr ())" and "stage_of d gate = Some sd"
    and "sd_kind sd = HumanGate capture (m # ms) w"
    and "reply_to_gate P task_id d gate reply payload = Some (Inr (outcome, captured, remark))"
  shows "(\<exists>marker\<in>set (m # ms). rm_then marker = outcome \<and>
        rm_line marker \<in> set (map strip_reply_line (split_on (CHR 0x0A) reply)))
    \<and> (\<exists>target. map_of (sd_on sd) outcome = Some target \<and> has_key (wd_stages d) target)"
proof -
  have ok: "definition_ok X d" using assms(1) by (simp add: validate_decides)
  have st: "(gate, sd) \<in> set (wd_stages d)" using assms(2) by (auto simp: stage_of_def dest: map_of_SomeD)
  with ok have "kind_ok X d sd" by (auto simp: definition_ok_def stage_ok_def list_all_iff)
  with assms(3) have ms: "markers_ok sd (m # ms)" by (simp add: kind_ok_def)
  then have dist: "distinct (map rm_line (m # ms))" by (simp add: markers_ok_def)
  obtain v where v: "reply_verdict reply (m # ms) = Inr v" "rv_outcome v = outcome"
    using assms(2-4) by (auto simp: reply_to_gate_def split: sum.splits reply_marker_error.splits)
  then obtain c cs where "carried reply (m # ms) = c # cs" "rm_then c = outcome"
    using reply_verdict_carried [OF dist, of reply] by (auto split: list.splits if_splits)
  then have c: "c \<in> set (carried reply (m # ms))" "rm_then c = outcome" by auto
  then have mk: "c \<in> set (m # ms)" "rm_line c \<in> set (map strip_reply_line (split_on (CHR 0x0A) reply))"
    unfolding carried_def set_filter by blast+
  with ms c(2) have "has_key (sd_on sd) outcome"
    unfolding markers_ok_def list_all_iff marker_ok_def Let_def by blast
  then obtain target where t: "map_of (sd_on sd) outcome = Some target" by (auto simp: has_key_iff)
  have "\<exists>s. stage_of d target = Some s" using accepted_edge [OF ok assms(2) t] by blast
  then have "has_key (wd_stages d) target" by (auto simp: has_key_iff stage_of_def)
  with t mk c(2) show ?thesis by blast
qed

section \<open>Witnesses\<close>

text \<open>A plan that a person approves or sends back by a marker line.\<close>

definition example_markers :: "reply_marker list" where
  "example_markers = [\<lparr>rm_line = ''VERDICT: APPROVE'', rm_then = ''approved''\<rparr>,
                      \<lparr>rm_line = ''VERDICT: REQUEST_CHANGES'', rm_then = ''changes''\<rparr>]"

abbreviation example_gate_stage :: stage_def where
  "example_gate_stage \<equiv>
     StageDef (HumanGate None example_markers None) [(''approved'', ''end''), (''changes'', ''plan'')] None"

definition example_gate :: workflow_definition where
  "example_gate =
     \<lparr>wd_name = ''gated'',
      wd_roles = [(''r'', \<lparr>rd_cli = None, rd_model = None, rd_system_prompt_file = None,
                          rd_isolation = InheritOperatorConfig, rd_disallowed_tools = [], rd_read_only = False,
                          rd_claude_settings = []\<rparr>)],
      wd_stages =
        [(''plan'', StageDef (AgentTurn ''r'' None None []) [(''done'', ''review'')] None),
         (''review'', example_gate_stage),
         (''end'', StageDef Terminal [] None)],
      wd_worktree = False\<rparr>"

definition example_reply :: string where
  "example_reply = ''Looks good'' @ [CHR 0x0A] @ ''VERDICT: APPROVE  '' @ [CHR 0x0A]"

lemma example_markers_ok: "markers_ok example_gate_stage example_markers"
  by code_simp

theorem verdict_reads_markers_witness:
  "(case reply_verdict example_reply example_markers of
      Inl e \<Rightarrow> False
    | Inr v \<Rightarrow> rv_outcome v = ''approved'')
   \<and> carried example_reply example_markers = [\<lparr>rm_line = ''VERDICT: APPROVE'', rm_then = ''approved''\<rparr>]"
proof -
  have c: "carried example_reply example_markers = [\<lparr>rm_line = ''VERDICT: APPROVE'', rm_then = ''approved''\<rparr>]"
    by code_simp
  then show ?thesis
    using verdict_reads_markers [OF example_markers_ok, of example_reply] by (auto split: sum.splits)
qed

theorem accepted_reply_advances_witness:
  "\<exists>captured remark target.
     reply_to_gate (\<lambda>s. Inl s) ''t'' example_gate ''review'' example_reply (JObj []) =
       Some (Inr (''approved'', captured, remark))
     \<and> map_of (sd_on example_gate_stage) ''approved'' = Some target \<and> has_key (wd_stages example_gate) target"
proof -
  have v: "validate example_externals example_gate = Some (Inr ())" by code_simp
  have st: "stage_of example_gate ''review'' = Some example_gate_stage" by code_simp
  obtain m ms where ms: "sd_kind example_gate_stage = HumanGate None (m # ms) None"
    by (simp add: example_markers_def)
  have out: "map_option (map_sum (\<lambda>_. ()) fst)
      (reply_to_gate (\<lambda>s. Inl s) ''t'' example_gate ''review'' example_reply (JObj [])) = Some (Inr ''approved'')"
    by code_simp
  obtain captured remark where r:
    "reply_to_gate (\<lambda>s. Inl s) ''t'' example_gate ''review'' example_reply (JObj []) =
       Some (Inr (''approved'', captured, remark))"
  proof (cases "reply_to_gate (\<lambda>s. Inl s) ''t'' example_gate ''review'' example_reply (JObj [])")
    case (Some x)
    with that out show ?thesis by (cases x) auto
  qed (use out in simp)
  from accepted_reply_advances [OF v st ms r] r show ?thesis by blast
qed

end
