(* ===== verification/TurnQueue.thy ===== *)
theory TurnQueue
  imports Retry
begin

text \<open>
  The queue of agent turns waiting for a slot (chocofactoryd/src/db/turn_queue.rs, the table of
  migration 0016, create_from_queue of db/sessions.rs, caps of db/projects.rs). The database is a
  record of the tables the queue's SQL joins; a statement that a constraint refuses is \<open>None\<close> and
  changes nothing. The locale \<open>waiting_line\<close> is what the turn gate relies on.
\<close>

section \<open>The tables\<close>

record queued =
  q_id :: int
  q_task_id :: string
  q_stage :: string
  q_group_stage :: "string option"
  q_group_entry :: "int option"
  q_resume_session_id :: "string option"
  q_queued_at :: time

text \<open>The columns of tasks and projects that the queue reads.\<close>

record queue_task =
  qt_title :: string
  qt_project_id :: string
  qt_status :: string

record queue_project =
  qp_name :: string
  qp_max_agents :: "int option"

text \<open>\<open>qd_sequence\<close> is AUTOINCREMENT's largest id ever used; \<open>qd_sessions\<close> the ids of the sessions.\<close>

record queue_db =
  qd_queue :: "queued list"
  qd_sequence :: int
  qd_tasks :: "queue_task imap"
  qd_projects :: "queue_project imap"
  qd_sessions :: "string list"

text \<open>A row as \<open>list\<close> reads it, joined with its task and project.\<close>

record queue_row =
  qr_id :: int
  qr_task_id :: string
  qr_title :: string
  qr_project_id :: string
  qr_project_cap :: "int option"
  qr_task_status :: string
  qr_stage :: string
  qr_group_stage :: "string option"
  qr_group_entry :: "int option"
  qr_resume_session_id :: "string option"
  qr_queued_at :: time
  qr_admissible :: bool

record new_queue_row =
  nq_task_id :: string
  nq_stage :: string
  nq_group_stage :: "string option"
  nq_group_entry :: "int option"
  nq_resume_session_id :: "string option"

section \<open>Statements\<close>

text \<open>The SQL half of the admissible predicate.\<close>

definition admissible_sql :: "queue_task \<Rightarrow> bool" where
  "admissible_sql t = (qt_status t = ''open'')"

definition join_row :: "queue_db \<Rightarrow> queued \<Rightarrow> queue_row option" where
  "join_row db q =
     Option.bind (map_of (qd_tasks db) (q_task_id q)) (\<lambda>t.
     map_option (\<lambda>p.
         \<lparr>qr_id = q_id q, qr_task_id = q_task_id q, qr_title = qt_title t,
          qr_project_id = qt_project_id t, qr_project_cap = qp_max_agents p,
          qr_task_status = qt_status t, qr_stage = q_stage q, qr_group_stage = q_group_stage q,
          qr_group_entry = q_group_entry q, qr_resume_session_id = q_resume_session_id q,
          qr_queued_at = q_queued_at q, qr_admissible = admissible_sql t\<rparr>)
       (map_of (qd_projects db) (qt_project_id t)))"

text \<open>\<open>list\<close>: the join, in queue order.\<close>

definition queue_list :: "queue_db \<Rightarrow> queue_row list" where
  "queue_list db = sort_key qr_id (List.map_filter (join_row db) (qd_queue db))"

text \<open>What the foreign keys and UNIQUE(task_id, stage) refuse.\<close>

definition queue_refuses :: "queue_db \<Rightarrow> string \<Rightarrow> string \<Rightarrow> string option \<Rightarrow> bool" where
  "queue_refuses db task_id stage resume =
     (map_of (qd_tasks db) task_id = None
      \<or> list_ex (\<lambda>q. q_task_id q = task_id \<and> q_stage q = stage) (qd_queue db)
      \<or> (case resume of None \<Rightarrow> False | Some s \<Rightarrow> s \<notin> set (qd_sessions db)))"

definition MAX_ROWID :: int where
  "MAX_ROWID = 2 ^ 63 - 1"

text \<open>\<open>insert\<close>: AUTOINCREMENT gives the id after the largest ever used, and fails at the last one.\<close>

definition queue_insert :: "time \<Rightarrow> new_queue_row \<Rightarrow> queue_db \<Rightarrow> (int \<times> queue_db) option" where
  "queue_insert now r db =
     (if queue_refuses db (nq_task_id r) (nq_stage r) (nq_resume_session_id r)
         \<or> qd_sequence db \<ge> MAX_ROWID then None
      else
        (let i = qd_sequence db + 1 in
         Some (i, db\<lparr>qd_queue := qd_queue db @
                        [\<lparr>q_id = i, q_task_id = nq_task_id r, q_stage = nq_stage r,
                          q_group_stage = nq_group_stage r, q_group_entry = nq_group_entry r,
                          q_resume_session_id = nq_resume_session_id r, q_queued_at = now\<rparr>],
                     qd_sequence := i\<rparr>)))"

text \<open>\<open>restore\<close>: a row back under its own id.\<close>

definition queue_restore :: "queue_row \<Rightarrow> queue_db \<Rightarrow> queue_db option" where
  "queue_restore row db =
     (if queue_refuses db (qr_task_id row) (qr_stage row) (qr_resume_session_id row)
         \<or> list_ex (\<lambda>q. q_id q = qr_id row) (qd_queue db) then None
      else Some (db\<lparr>qd_queue := qd_queue db @
                       [\<lparr>q_id = qr_id row, q_task_id = qr_task_id row, q_stage = qr_stage row,
                         q_group_stage = qr_group_stage row, q_group_entry = qr_group_entry row,
                         q_resume_session_id = qr_resume_session_id row, q_queued_at = qr_queued_at row\<rparr>],
                    qd_sequence := max (qd_sequence db) (qr_id row)\<rparr>))"

text \<open>A DELETE: the rows that do not meet the condition stay.\<close>

definition queue_filter :: "(queued \<Rightarrow> bool) \<Rightarrow> queue_db \<Rightarrow> queue_db" where
  "queue_filter keep db = db\<lparr>qd_queue := filter keep (qd_queue db)\<rparr>"

definition queue_delete :: "int \<Rightarrow> queue_db \<Rightarrow> bool \<times> queue_db" where
  "queue_delete i db = (list_ex (\<lambda>q. q_id q = i) (qd_queue db), queue_filter (\<lambda>q. q_id q \<noteq> i) db)"

definition delete_if_task_status :: "int \<Rightarrow> string \<Rightarrow> queue_db \<Rightarrow> bool \<times> queue_db" where
  "delete_if_task_status i status db =
     (let hit = (\<lambda>q. q_id q = i \<and>
           (case map_of (qd_tasks db) (q_task_id q) of None \<Rightarrow> False | Some t \<Rightarrow> qt_status t = status))
      in (list_ex hit (qd_queue db), queue_filter (\<lambda>q. \<not> hit q) db))"

definition delete_for_task :: "string \<Rightarrow> queue_db \<Rightarrow> (string \<times> string option) list \<times> queue_db" where
  "delete_for_task task_id db =
     (map (\<lambda>q. (q_stage q, q_group_stage q)) (filter (\<lambda>q. q_task_id q = task_id) (qd_queue db)),
      queue_filter (\<lambda>q. q_task_id q \<noteq> task_id) db)"

text \<open>\<open>exists\<close>: an entry of \<open>None\<close> asks for any; a row without an entry matches no other.\<close>

definition queue_exists :: "string \<Rightarrow> string \<Rightarrow> int option \<Rightarrow> queue_db \<Rightarrow> bool" where
  "queue_exists task_id stage entry db =
     list_ex (\<lambda>q. q_task_id q = task_id \<and> q_stage q = stage \<and> (entry = None \<or> q_group_entry q = entry))
       (qd_queue db)"

definition withdrawn_payload :: "string \<Rightarrow> string option \<Rightarrow> string \<Rightarrow> json" where
  "withdrawn_payload stage grp reason =
     obj_of [(''stage'', JStr stage), (''group'', case grp of None \<Rightarrow> JNull | Some g \<Rightarrow> JStr g),
             (''reason'', JStr reason)]"

datatype create_from_queue_error = Vanished | QueueDb

text \<open>
  create_from_queue: one transaction over the queue and the sessions table; an error leaves both as
  they were.
\<close>

definition create_from_queue ::
  "int \<Rightarrow> string \<Rightarrow> time \<Rightarrow> nat \<Rightarrow> new_session \<Rightarrow> resumed_from option \<Rightarrow> queue_db \<times> sessions \<Rightarrow>
   (create_from_queue_error, queue_db \<times> sessions) result"
where
  "create_from_queue row_id id' now entries new source dbs =
     (case queue_delete row_id (fst dbs) of (deleted, db) \<Rightarrow>
        if \<not> deleted then Inl Vanished
        else (case create_inner id' now entries new source (snd dbs) of
                None \<Rightarrow> Inl QueueDb
              | Some sessions \<Rightarrow> Inr (db, sessions)))"

text \<open>The caps of the projects that have one of their own.\<close>

type_synonym caps = "(string \<times> u32) list"

definition project_caps :: "queue_db \<Rightarrow> caps" where
  "project_caps db =
     List.map_filter (\<lambda>(i, p). case qp_max_agents p of
         None \<Rightarrow> None
       | Some n \<Rightarrow> (if 0 < n \<and> n < 2 ^ 32 then Some (i, word_of_int n) else None))
       (qd_projects db)"

section \<open>What the queue promises\<close>

text \<open>
  A line of waiting rows: they come in the order of their keys, a new row joins at the end under a
  key larger than every other, and deleting takes out just the row of a key.
\<close>

locale waiting_line =
  fixes rows :: "'q \<Rightarrow> 'r list"
    and ins :: "'n \<Rightarrow> 'q \<Rightarrow> ('k::linorder \<times> 'q) option"
    and del :: "'k \<Rightarrow> 'q \<Rightarrow> 'q"
    and key :: "'r \<Rightarrow> 'k"
    and ok :: "'q \<Rightarrow> bool"
  assumes rows_ordered: "ok q \<Longrightarrow> sorted_wrt (<) (map key (rows q))"
    and rows_ins: "ok q \<Longrightarrow> ins n q = Some (k, q') \<Longrightarrow> \<exists>r. rows q' = rows q @ [r] \<and> key r = k"
    and rows_del: "ok q \<Longrightarrow> rows (del k q) = filter (\<lambda>r. key r \<noteq> k) (rows q)"
    and ok_ins: "ok q \<Longrightarrow> ins n q = Some (k, q') \<Longrightarrow> ok q'"
    and ok_del: "ok q \<Longrightarrow> ok (del k q)"
begin

lemma joins_last:
  assumes "ok q" and "ins n q = Some (k, q')" and "r \<in> set (rows q)"
  shows "key r < k"
proof -
  obtain x where "rows q' = rows q @ [x]" "key x = k" using rows_ins [OF assms(1,2)] by blast
  with rows_ordered [OF ok_ins [OF assms(1,2)]] assms(3) show ?thesis by (auto simp: sorted_wrt_append)
qed

text \<open>The first row that meets a condition has the least key of those that do.\<close>

lemma first_is_least:
  assumes "ok q" and "filter P (rows q) = r # rs" and "x \<in> set (rows q)" and "P x"
  shows "key r \<le> key x"
proof -
  have "sorted_wrt (\<lambda>a b. key a < key b) (filter P (rows q))"
    using rows_ordered [OF assms(1)] by (intro sorted_wrt_filter) (simp add: sorted_wrt_map)
  moreover have "x \<in> set (r # rs)" using assms(2-4) by (metis (mono_tags, lifting) mem_Collect_eq set_filter)
  ultimately show ?thesis using assms(2) by auto
qed

lemma joining_keeps_first:
  assumes "ok q" and "ins n q = Some (k, q')" and "filter P (rows q) = r # rs"
  shows "\<exists>rs'. filter P (rows q') = r # rs'"
  using rows_ins [OF assms(1,2)] assms(3) by auto

lemma leaving_undoes_joining:
  assumes "ok q" and "ins n q = Some (k, q')"
  shows "rows (del k q') = rows q"
proof -
  obtain x where x: "rows q' = rows q @ [x]" "key x = k" using rows_ins [OF assms] by blast
  have "filter (\<lambda>r. key r \<noteq> k) (rows q) = rows q"
    using joins_last [OF assms] by (intro filter_True) fastforce
  with x rows_del [OF ok_ins [OF assms], of k] show ?thesis by simp
qed

end

section \<open>The table keeps the promise\<close>

definition queue_ok :: "queue_db \<Rightarrow> bool" where
  "queue_ok db =
     (distinct (map q_id (qd_queue db)) \<and> list_all (\<lambda>q. q_id q \<le> qd_sequence db) (qd_queue db)
      \<and> distinct (map (\<lambda>q. (q_task_id q, q_stage q)) (qd_queue db))
      \<and> list_all (\<lambda>q. map_of (qd_tasks db) (q_task_id q) \<noteq> None) (qd_queue db)
      \<and> list_all (\<lambda>(i, t). map_of (qd_projects db) (qt_project_id t) \<noteq> None) (qd_tasks db)
      \<and> imap_ok (qd_projects db))"

lemma join_row_key: "join_row db q = Some r \<Longrightarrow> qr_id r = q_id q \<and> qr_task_id r = q_task_id q
    \<and> qr_stage r = q_stage q \<and> qr_group_stage r = q_group_stage q"
  by (auto simp: join_row_def split: bind_splits)

lemma queue_ok_task:
  assumes "queue_ok db" and "map_of (qd_tasks db) i = Some t"
  shows "\<exists>p. map_of (qd_projects db) (qt_project_id t) = Some p"
  using assms by (auto simp: queue_ok_def list_all_iff dest: map_of_SomeD)

lemma join_row_total:
  assumes "queue_ok db" and "map_of (qd_tasks db) (q_task_id q) = Some t"
  shows "\<exists>r. join_row db q = Some r \<and> qr_project_id r = qt_project_id t \<and> qr_task_status r = qt_status t"
  using queue_ok_task [OF assms] assms(2) by (auto simp: join_row_def)

lemma map_filter_keys:
  assumes "\<forall>x\<in>set xs. \<exists>y. f x = Some y" and "\<And>x y. f x = Some y \<Longrightarrow> k y = g x"
  shows "map k (List.map_filter f xs) = map g xs"
  using assms(1)
proof (induction xs)
  case (Cons x xs)
  then obtain y where "f x = Some y" by auto
  with Cons assms(2) show ?case by (simp add: map_filter_simps)
qed (simp add: map_filter_simps)

text \<open>In a consistent table every row is read.\<close>

lemma queue_joined:
  assumes "queue_ok db"
  shows "map qr_id (List.map_filter (join_row db) (qd_queue db)) = map q_id (qd_queue db)"
proof -
  have "\<forall>q\<in>set (qd_queue db). \<exists>r. join_row db q = Some r"
    using assms join_row_total [OF assms] by (fastforce simp: queue_ok_def list_all_iff)
  then show ?thesis by (rule map_filter_keys) (simp add: join_row_key)
qed

lemma insort_key_snoc: "f a \<le> f x \<Longrightarrow> insort_key f a (ys @ [x]) = insort_key f a ys @ [x]"
  by (induction ys) auto

lemma sort_key_snoc: "\<forall>y\<in>set xs. f y \<le> f x \<Longrightarrow> sort_key f (xs @ [x]) = sort_key f xs @ [x]"
  by (induction xs) (simp_all add: insort_key_snoc)

lemma map_filter_snoc: "f x = Some y \<Longrightarrow> List.map_filter f (xs @ [x]) = List.map_filter f xs @ [y]"
  by (simp add: List.map_filter_def)

lemma map_filter_filter:
  assumes "\<And>x y. f x = Some y \<Longrightarrow> P x = Q y"
  shows "List.map_filter f (filter P xs) = filter Q (List.map_filter f xs)"
proof (induction xs)
  case (Cons x xs)
  then show ?case using assms [of x] by (cases "f x") (simp_all add: map_filter_simps)
qed (simp add: map_filter_simps)

lemma queue_list_filter:
  assumes "\<And>q r. join_row db q = Some r \<Longrightarrow> keep q = keep' r"
  shows "queue_list (queue_filter keep db) = filter keep' (queue_list db)"
proof -
  have "join_row (queue_filter keep db) = join_row db"
    by (rule ext) (simp add: join_row_def queue_filter_def)
  then show ?thesis
    using map_filter_filter [of "join_row db" keep keep', OF assms]
    by (simp add: queue_list_def filter_sort) (simp add: queue_filter_def)
qed

lemma queue_ok_filter: "queue_ok db \<Longrightarrow> queue_ok (queue_filter keep db)"
  by (auto simp: queue_ok_def queue_filter_def list_all_iff distinct_map_filter)

lemma queue_ok_append:
  assumes "queue_ok db" and "\<not> queue_refuses db (q_task_id q) (q_stage q) resume"
    and "\<forall>x\<in>set (qd_queue db). q_id x \<noteq> q_id q" and "q_id q \<le> s" and "qd_sequence db \<le> s"
  shows "queue_ok (db\<lparr>qd_queue := qd_queue db @ [q], qd_sequence := s\<rparr>)"
proof -
  have "q_id q \<notin> q_id ` set (qd_queue db)" using assms(3) by auto
  moreover have "(q_task_id q, q_stage q) \<notin> (\<lambda>q. (q_task_id q, q_stage q)) ` set (qd_queue db)"
    using assms(2) by (auto simp: queue_refuses_def list_ex_iff)
  moreover have "list_all (\<lambda>x. q_id x \<le> s) (qd_queue db)"
    using assms(1,5) by (fastforce simp: queue_ok_def list_all_iff)
  ultimately show ?thesis
    using assms(1,2,4) by (simp add: queue_ok_def queue_refuses_def)
qed

lemma queue_ok_insert:
  assumes "queue_ok db" and "queue_insert now n db = Some (i, db')"
  shows "queue_ok db'"
proof -
  have "\<forall>x\<in>set (qd_queue db). q_id x \<noteq> qd_sequence db + 1"
    using assms(1) by (fastforce simp: queue_ok_def list_all_iff)
  with assms show ?thesis
    by (auto simp: queue_insert_def Let_def split: if_splits intro!: queue_ok_append)
qed

lemma queue_ok_restore:
  assumes "queue_ok db" and "queue_restore row db = Some db'"
  shows "queue_ok db'"
  using assms
  by (auto simp: queue_restore_def list_ex_iff split: if_splits intro!: queue_ok_append)

lemma queue_list_ordered:
  assumes "queue_ok db"
  shows "sorted_wrt (<) (map qr_id (queue_list db))"
proof -
  let ?xs = "List.map_filter (join_row db) (qd_queue db)"
  have "distinct (map qr_id ?xs)" using assms queue_joined [OF assms] by (simp only: queue_ok_def)
  then have "distinct (map qr_id (sort_key qr_id ?xs))"
    by (metis distinct_map distinct_sort set_sort)
  then show ?thesis unfolding queue_list_def strict_sorted_iff by simp
qed

lemma queue_list_insert:
  assumes "queue_ok db" and "queue_insert now n db = Some (i, db')"
  shows "\<exists>r. queue_list db' = queue_list db @ [r] \<and> qr_id r = i \<and> qr_task_id r = nq_task_id n
    \<and> qr_stage r = nq_stage n \<and> qr_group_stage r = nq_group_stage n
    \<and> (\<exists>t. map_of (qd_tasks db) (nq_task_id n) = Some t \<and> qr_project_id r = qt_project_id t
          \<and> qr_task_status r = qt_status t)"
proof -
  obtain q t where q: "qd_queue db' = qd_queue db @ [q]" "q_id q = qd_sequence db + 1"
      "q_task_id q = nq_task_id n" "q_stage q = nq_stage n" "q_group_stage q = nq_group_stage n"
      "i = qd_sequence db + 1" "qd_tasks db' = qd_tasks db" "qd_projects db' = qd_projects db"
    and t: "map_of (qd_tasks db) (nq_task_id n) = Some t"
    using assms(2) by (fastforce simp: queue_insert_def queue_refuses_def Let_def split: if_splits)
  have same: "join_row db' = join_row db" by (rule ext) (simp add: join_row_def q)
  obtain r where r: "join_row db q = Some r" "qr_project_id r = qt_project_id t" "qr_task_status r = qt_status t"
    using join_row_total [OF assms(1), of q t] t q(3) by auto
  have "\<forall>x\<in>set (List.map_filter (join_row db) (qd_queue db)). qr_id x \<le> qr_id r"
  proof
    fix x assume "x \<in> set (List.map_filter (join_row db) (qd_queue db))"
    then have "qr_id x \<in> set (map q_id (qd_queue db))"
      unfolding queue_joined [OF assms(1), symmetric] by simp
    then have "qr_id x \<le> qd_sequence db" using assms(1) by (auto simp: queue_ok_def list_all_iff)
    with join_row_key [OF r(1)] q(2) show "qr_id x \<le> qr_id r" by simp
  qed
  from sort_key_snoc [OF this] have "queue_list db' = queue_list db @ [r]"
    by (simp add: queue_list_def q same map_filter_snoc [where f = "join_row db", OF r(1)])
  with join_row_key [OF r(1)] r q t show ?thesis by auto
qed

interpretation line: waiting_line queue_list "queue_insert now" "\<lambda>i db. snd (queue_delete i db)" qr_id queue_ok
  for now
proof
  fix q n k q' assume ok: "queue_ok q"
  show "sorted_wrt (<) (map qr_id (queue_list q))" using ok by (rule queue_list_ordered)
  show "queue_list (snd (queue_delete k q)) = filter (\<lambda>r. qr_id r \<noteq> k) (queue_list q)"
    unfolding queue_delete_def snd_conv by (rule queue_list_filter) (simp add: join_row_key)
  show "queue_ok (snd (queue_delete k q))" using ok by (simp add: queue_delete_def queue_ok_filter)
  assume ins: "queue_insert now n q = Some (k, q')"
  show "\<exists>r. queue_list q' = queue_list q @ [r] \<and> qr_id r = k" using queue_list_insert [OF ok ins] by blast
  show "queue_ok q'" using ok ins by (rule queue_ok_insert)
qed

end
