(* ===== verification/Turns.thy ===== *)
theory Turns
  imports TurnQueue
begin

text \<open>
  The turn gate (chocofactoryd/src/engine/turns.rs): how many agent turns run at once, which turn
  waits and which starts. A pool is the server's or one project's; a permit is a running turn. A
  step is a function of the gate and the queue's database, atomic because the code holds the slot
  lock around it (a permit's release, outside the lock, is a step of its own). config.yaml is an
  argument: its max_agents, or the error of reading it. Failures of the database are left out.
\<close>

section \<open>Fates and pools\<close>

definition is_admissible :: "string \<Rightarrow> bool" where
  "is_admissible status = (status = TASK_STATUS_OPEN)"

datatype row_fate = Admissible | Withdraw | Keep

definition TASK_STATUS_CLOSED :: string where "TASK_STATUS_CLOSED = ''closed''"

definition classify_row_fate :: "string option \<Rightarrow> row_fate option" where
  "classify_row_fate status =
     (case status of
        None \<Rightarrow> Some Withdraw
      | Some st \<Rightarrow>
          if is_admissible st then Some Admissible
          else if st = TASK_STATUS_PAUSING \<or> st = TASK_STATUS_PAUSED then Some Keep
          else if st = TASK_STATUS_STUCK \<or> st = TASK_STATUS_CLOSED \<or> st = TASK_STATUS_CANCELLED
            then Some Withdraw
          else None)"

definition queue_row_fate :: "string option \<Rightarrow> row_fate" where
  "queue_row_fate status = (case classify_row_fate status of Some fate \<Rightarrow> fate | None \<Rightarrow> Keep)"

datatype pool_key = Server | Project string

fun pool_wire :: "pool_key \<Rightarrow> string" where
  "pool_wire Server = ''server''"
| "pool_wire (Project i) = ''project:'' @ i"

definition pool_of :: "string \<Rightarrow> caps \<Rightarrow> pool_key" where
  "pool_of project_id caps = (if map_of caps project_id \<noteq> None then Project project_id else Server)"

fun limit_of :: "pool_key \<Rightarrow> caps \<Rightarrow> u32 option \<Rightarrow> u32 option" where
  "limit_of Server caps server = server"
| "limit_of (Project i) caps server = map_of caps i"

record placed =
  pl_row :: queue_row
  pl_pool :: pool_key
  pl_position :: nat

fun place_loop :: "caps \<Rightarrow> (pool_key \<Rightarrow> nat) \<Rightarrow> queue_row list \<Rightarrow> placed list" where
  "place_loop caps counts [] = []"
| "place_loop caps counts (row # rows) =
     (if \<not> is_admissible (qr_task_status row) then place_loop caps counts rows
      else (let pool = pool_of (qr_project_id row) caps; count = counts pool + 1
            in \<lparr>pl_row = row, pl_pool = pool, pl_position = count\<rparr>
               # place_loop caps (counts(pool := count)) rows))"

definition place :: "queue_row list \<Rightarrow> caps \<Rightarrow> placed list" where
  "place rows caps = place_loop caps (\<lambda>_. 0) rows"

section \<open>Permits\<close>

record permit_info =
  pi_task_id :: string
  pi_project_id :: string
  pi_stage :: string
  pi_settling :: bool

text \<open>The running turns by their permit's id, the next id, and what the dispatcher looks at.\<close>

record turn_gate =
  tg_running :: "(u64 \<times> permit_info) list"
  tg_next_permit :: u64
  tg_stopping :: bool
  tg_queue_error :: "string option"
  tg_restoring :: "string list"

definition gate_new :: turn_gate where
  "gate_new = \<lparr>tg_running = [], tg_next_permit = 0, tg_stopping = False, tg_queue_error = None,
               tg_restoring = []\<rparr>"

definition permits :: "turn_gate \<Rightarrow> permit_info list" where
  "permits g = map snd (tg_running g)"

definition remove_permit :: "u64 \<Rightarrow> turn_gate \<Rightarrow> turn_gate" where
  "remove_permit i g = g\<lparr>tg_running := filter (\<lambda>(k, _). k \<noteq> i) (tg_running g)\<rparr>"

text \<open>\<open>running.insert(id, info)\<close> under the next id, which wraps.\<close>

definition add_permit :: "permit_info \<Rightarrow> turn_gate \<Rightarrow> u64 \<times> turn_gate" where
  "add_permit info g =
     (let i = tg_next_permit g; g = remove_permit i g
      in (i, g\<lparr>tg_running := (i, info) # tg_running g, tg_next_permit := i + 1\<rparr>))"

definition issue :: "string \<Rightarrow> string \<Rightarrow> string \<Rightarrow> turn_gate \<Rightarrow> u64 \<times> turn_gate" where
  "issue task_id project_id stage g =
     add_permit \<lparr>pi_task_id = task_id, pi_project_id = project_id, pi_stage = stage,
                 pi_settling = False\<rparr> g"

definition settling_entry :: "string \<Rightarrow> string \<Rightarrow> turn_gate \<Rightarrow> u64 \<times> turn_gate" where
  "settling_entry task_id stage g =
     add_permit \<lparr>pi_task_id = task_id, pi_project_id = [], pi_stage = stage, pi_settling = True\<rparr> g"

text \<open>\<open>TurnPermit::free_slot\<close>; dropping the permit, or the guard free_slot returned, removes it.\<close>

definition free_slot :: "u64 \<Rightarrow> turn_gate \<Rightarrow> turn_gate" where
  "free_slot i g =
     g\<lparr>tg_running := map (\<lambda>(k, info). (k, if k = i then info\<lparr>pi_settling := True\<rparr> else info))
                       (tg_running g)\<rparr>"

definition running_for_task :: "string \<Rightarrow> turn_gate \<Rightarrow> nat" where
  "running_for_task task_id g =
     length (filter (\<lambda>info. pi_task_id info = task_id \<and> \<not> pi_settling info) (permits g))"

definition busy_for_task :: "string \<Rightarrow> turn_gate \<Rightarrow> nat" where
  "busy_for_task task_id g = length (filter (\<lambda>info. pi_task_id info = task_id) (permits g))"

definition busy_for_stage :: "string \<Rightarrow> string \<Rightarrow> turn_gate \<Rightarrow> bool" where
  "busy_for_stage task_id stage g =
     list_ex (\<lambda>info. pi_task_id info = task_id \<and> pi_stage info = stage) (permits g)"

definition running_in :: "pool_key \<Rightarrow> caps \<Rightarrow> turn_gate \<Rightarrow> nat" where
  "running_in pool caps g =
     length (filter (\<lambda>info. \<not> pi_settling info \<and> pool_of (pi_project_id info) caps = pool) (permits g))"

definition gate_stop :: "turn_gate \<Rightarrow> turn_gate" where
  "gate_stop g = g\<lparr>tg_stopping := True\<rparr>"

text \<open>Registering a failed admission, and \<open>RestoringGuard\<close>'s drop (\<open>swap_remove\<close>).\<close>

definition hold_restoring :: "string \<Rightarrow> turn_gate \<Rightarrow> turn_gate" where
  "hold_restoring project_id g = g\<lparr>tg_restoring := tg_restoring g @ [project_id]\<rparr>"

fun index_of :: "string \<Rightarrow> string list \<Rightarrow> nat option" where
  "index_of x [] = None"
| "index_of x (y # ys) = (if y = x then Some 0 else map_option Suc (index_of x ys))"

definition swap_remove :: "nat \<Rightarrow> string list \<Rightarrow> string list" where
  "swap_remove i xs = butlast (xs[i := List.last xs])"

definition drop_restoring :: "string \<Rightarrow> turn_gate \<Rightarrow> turn_gate" where
  "drop_restoring project_id g =
     (case index_of project_id (tg_restoring g) of
        None \<Rightarrow> g | Some i \<Rightarrow> g\<lparr>tg_restoring := swap_remove i (tg_restoring g)\<rparr>)"

section \<open>Claiming\<close>

record turn_spec =
  sp_stage :: string
  sp_group :: "(string \<times> int) option"
  sp_resume_session_id :: "string option"

datatype claim = Start u64 | Queued nat json

datatype claim_error = ClaimNoSuchTask | ClaimGlobalConfig string | ClaimDb

definition opt_json :: "('a \<Rightarrow> json) \<Rightarrow> 'a option \<Rightarrow> json" where
  "opt_json f v = (case v of None \<Rightarrow> JNull | Some x \<Rightarrow> f x)"

text \<open>The turns ahead of a new one in a pool: the waiting ones and the ones that may come back.\<close>

definition ahead_in :: "pool_key \<Rightarrow> caps \<Rightarrow> turn_gate \<Rightarrow> queue_db \<Rightarrow> nat" where
  "ahead_in pool caps g db =
     length (filter (\<lambda>p. pl_pool p = pool) (place (queue_list db) caps))
     + length (filter (\<lambda>project. pool_of project caps = pool) (tg_restoring g))"

definition claim ::
  "(string, u32 option) result \<Rightarrow> time \<Rightarrow> string \<Rightarrow> turn_spec \<Rightarrow> turn_gate \<Rightarrow> queue_db \<Rightarrow>
   (claim_error, claim \<times> turn_gate \<times> queue_db) result"
where
  "claim config now task_id spec g db =
     and_then (ok_or ClaimNoSuchTask (map_of (qd_tasks db) task_id)) (\<lambda>task.
     and_then (map_err ClaimGlobalConfig config) (\<lambda>max_agents.
     (let caps = project_caps db;
          pool = pool_of (qt_project_id task) caps;
          limit = limit_of pool caps max_agents;
          ahead = ahead_in pool caps g db;
          running = running_in pool caps g;
          starts = (\<not> tg_stopping g \<and>
                    (case limit of None \<Rightarrow> True | Some l \<Rightarrow> ahead = 0 \<and> running < unat l))
      in if starts then
           (case issue task_id (qt_project_id task) (sp_stage spec) g of
              (permit, g) \<Rightarrow> Inr (Start permit, g, db))
         else
           and_then (ok_or ClaimDb (queue_insert now
               \<lparr>nq_task_id = task_id, nq_stage = sp_stage spec,
                nq_group_stage = map_option fst (sp_group spec),
                nq_group_entry = map_option snd (sp_group spec),
                nq_resume_session_id = sp_resume_session_id spec\<rparr> db)) (\<lambda>(_, db).
             (let position = ahead + 1 in
              Inr (Queued position (obj_of
                [(''stage'', JStr (sp_stage spec)), (''group'', opt_json (JStr \<circ> fst) (sp_group spec)),
                 (''entry'', opt_json (json_i64 \<circ> snd) (sp_group spec)), (''pool'', JStr (pool_wire pool)),
                 (''limit'', opt_json (\<lambda>l. json_u64 (ucast l)) limit),
                 (''running'', json_u64 (of_nat running)), (''position'', json_u64 (of_nat position))]),
                g, db))))))"

section \<open>Picking\<close>

record withdrawn =
  wi_task_id :: string
  wi_stage :: string
  wi_group :: "string option"
  wi_reason :: string

record picked =
  pk_withdrawn :: "withdrawn list"
  pk_row :: "queue_row option"
  pk_permit :: "u64 option"

abbreviation nothing_picked :: picked where
  "nothing_picked \<equiv> \<lparr>pk_withdrawn = [], pk_row = None, pk_permit = None\<rparr>"

text \<open>The pass over the rows that can never start; the condition on the status is in the DELETE.\<close>

fun withdraw_loop :: "queue_row list \<Rightarrow> queue_db \<Rightarrow> withdrawn list \<times> queue_db" where
  "withdraw_loop [] db = ([], db)"
| "withdraw_loop (row # rows) db =
     (if queue_row_fate (Some (qr_task_status row)) \<noteq> Withdraw then withdraw_loop rows db
      else (case delete_if_task_status (qr_id row) (qr_task_status row) db of (deleted, db) \<Rightarrow>
        (case withdraw_loop rows db of (ws, db) \<Rightarrow>
           (if deleted then \<lparr>wi_task_id = qr_task_id row, wi_stage = qr_stage row,
                            wi_group = qr_group_stage row,
                            wi_reason = ''the task is '' @ qr_task_status row\<rparr> # ws
            else ws, db))))"

definition has_room :: "caps \<Rightarrow> u32 option \<Rightarrow> turn_gate \<Rightarrow> pool_key \<Rightarrow> bool" where
  "has_room caps server g pool =
     (case limit_of pool caps server of None \<Rightarrow> True | Some l \<Rightarrow> running_in pool caps g < unat l)"

text \<open>\<open>min_by_key\<close>: the first of the least.\<close>

fun min_by_id :: "placed list \<Rightarrow> placed option" where
  "min_by_id [] = None"
| "min_by_id (p # ps) =
     (case min_by_id ps of
        None \<Rightarrow> Some p
      | Some q \<Rightarrow> if qr_id (pl_row p) \<le> qr_id (pl_row q) then Some p else Some q)"

definition candidate :: "queue_row list \<Rightarrow> caps \<Rightarrow> u32 option \<Rightarrow> turn_gate \<Rightarrow> placed option" where
  "candidate rows caps server g =
     min_by_id (filter (\<lambda>p. has_room caps server g (pl_pool p))
       (filter (\<lambda>p. pl_position p = 1) (place rows caps)))"

definition pick ::
  "(string, u32 option) result \<Rightarrow> int option \<Rightarrow> bool \<Rightarrow> turn_gate \<Rightarrow> queue_db \<Rightarrow>
   (string, picked) result \<times> turn_gate \<times> queue_db"
where
  "pick config issue_for withdraw g db =
     (if tg_stopping g then (Inr nothing_picked, g, db)
      else let rows = queue_list db in
      if rows = [] then (Inr nothing_picked, g\<lparr>tg_queue_error := None\<rparr>, db)
      else
        (case config of
           Inl err \<Rightarrow> (Inl err, g\<lparr>tg_queue_error := Some err\<rparr>, db)
         | Inr max_agents \<Rightarrow>
             (let g = g\<lparr>tg_queue_error := None\<rparr> in
              case (if withdraw then withdraw_loop rows db else ([], db)) of (ws, db) \<Rightarrow>
              (let caps = project_caps db in
               case candidate rows caps max_agents g of
                 None \<Rightarrow> (Inr (nothing_picked\<lparr>pk_withdrawn := ws\<rparr>), g, db)
               | Some c \<Rightarrow>
                   (case issue_for of
                      None \<Rightarrow> (Inr (nothing_picked\<lparr>pk_withdrawn := ws, pk_row := Some (pl_row c)\<rparr>), g, db)
                    | Some expected \<Rightarrow>
                        (if qr_id (pl_row c) = expected then
                           (case issue (qr_task_id (pl_row c)) (qr_project_id (pl_row c))
                                   (qr_stage (pl_row c)) g of
                              (permit, g) \<Rightarrow>
                                (Inr \<lparr>pk_withdrawn = ws, pk_row = Some (pl_row c), pk_permit = Some permit\<rparr>,
                                 g, db))
                         else (Inr (nothing_picked\<lparr>pk_withdrawn := ws\<rparr>), g, db)))))))"

section \<open>Places\<close>

text \<open>The rows that wait in a pool, in queue order.\<close>

definition waiting :: "queue_row list \<Rightarrow> caps \<Rightarrow> pool_key \<Rightarrow> queue_row list" where
  "waiting rows caps pool =
     filter (\<lambda>r. is_admissible (qr_task_status r) \<and> pool_of (qr_project_id r) caps = pool) rows"

lemma place_loop_pool:
  "map (\<lambda>p. (pl_row p, pl_position p)) (filter (\<lambda>p. pl_pool p = pool) (place_loop caps counts rows)) =
     zip (waiting rows caps pool)
       [Suc (counts pool) ..< Suc (counts pool + length (waiting rows caps pool))]"
proof (induction rows arbitrary: counts)
  case (Cons row rows)
  then show ?case
    by (simp add: waiting_def Let_def upt_conv_Cons del: upt_Suc)
qed (simp add: waiting_def)

lemma place_pool:
  "map (\<lambda>p. (pl_row p, pl_position p)) (filter (\<lambda>p. pl_pool p = pool) (place rows caps)) =
     zip (waiting rows caps pool) [1 ..< Suc (length (waiting rows caps pool))]"
  using place_loop_pool [of pool caps "\<lambda>_. 0" rows] by (simp add: place_def del: upt_Suc)

lemma placed_pool:
  "p \<in> set (place_loop caps counts rows) \<Longrightarrow> pl_pool p = pool_of (qr_project_id (pl_row p)) caps"
  by (induction caps counts rows rule: place_loop.induct) (auto simp: Let_def split: if_splits)

lemma place_append:
  "place_loop caps counts (xs @ ys) = place_loop caps counts xs @
     place_loop caps (\<lambda>pool. counts pool + length (waiting xs caps pool)) ys"
proof (induction xs arbitrary: counts)
  case (Cons x xs)
  let ?k = "pool_of (qr_project_id x) caps"
  show ?case
  proof (cases "is_admissible (qr_task_status x)")
    case True
    then have eq: "(\<lambda>pool. (counts(?k := counts ?k + 1)) pool + length (waiting xs caps pool)) =
        (\<lambda>pool. counts pool + length (waiting (x # xs) caps pool))"
      by (auto simp: waiting_def fun_eq_iff)
    from Cons [of "counts(?k := counts ?k + 1)"] True show ?thesis
      unfolding eq by (simp add: Let_def fun_upd_def)
  next
    case False
    then have "waiting (x # xs) caps = waiting xs caps" by (simp add: waiting_def fun_eq_iff)
    with Cons [of counts] False show ?thesis by simp
  qed
qed (simp add: waiting_def)

lemma place_positions:
  "map pl_position (filter (\<lambda>p. pl_pool p = pool) (place rows caps)) =
     [1 ..< Suc (length (waiting rows caps pool))]"
proof -
  have "map pl_position (filter (\<lambda>p. pl_pool p = pool) (place rows caps)) =
      map snd (map (\<lambda>p. (pl_row p, pl_position p)) (filter (\<lambda>p. pl_pool p = pool) (place rows caps)))"
    by simp
  also have "\<dots> = [1 ..< Suc (length (waiting rows caps pool))]"
    unfolding place_pool by (simp del: upt_Suc)
  finally show ?thesis .
qed

lemma ahead_in_waiting:
  "ahead_in pool caps g db = length (waiting (queue_list db) caps pool)
     + length (filter (\<lambda>project. pool_of project caps = pool) (tg_restoring g))"
  using arg_cong [OF place_pool [of pool "queue_list db" caps], of length]
  by (simp add: ahead_in_def del: upt_Suc)

lemma zip_one:
  assumes "(r, 1) \<in> set (zip rows [1 ..< Suc (length rows)])"
  shows "\<exists>rs. rows = r # rs"
proof -
  obtain i where i: "i < length rows" "rows ! i = r" "[1 ..< Suc (length rows)] ! i = 1"
    using assms by (auto simp: set_zip simp del: upt_Suc)
  then have "i = 0" by (simp add: nth_upt del: upt_Suc)
  with i show ?thesis by (cases rows) auto
qed

lemma placed_first:
  assumes "p \<in> set (place rows caps)" and "pl_position p = 1"
  shows "\<exists>rs. waiting rows caps (pl_pool p) = pl_row p # rs"
proof -
  have "(pl_row p, pl_position p) \<in>
      set (map (\<lambda>p. (pl_row p, pl_position p)) (filter (\<lambda>q. pl_pool q = pl_pool p) (place rows caps)))"
    using assms(1) by force
  then show ?thesis unfolding place_pool assms(2) by (rule zip_one)
qed

lemma first_placed:
  assumes "waiting rows caps pool = r # rs"
  shows "\<exists>p\<in>set (place rows caps). pl_position p = 1 \<and> pl_pool p = pool \<and> pl_row p = r"
proof -
  have "(r, 1) \<in> set (zip (waiting rows caps pool) [1 ..< Suc (length (waiting rows caps pool))])"
    unfolding assms by (simp add: upt_conv_Cons del: upt_Suc)
  then show ?thesis unfolding place_pool [symmetric] by auto
qed

section \<open>The candidate\<close>

lemma min_by_id_Some:
  "min_by_id ps = Some p \<Longrightarrow> p \<in> set ps \<and> (\<forall>q\<in>set ps. qr_id (pl_row p) \<le> qr_id (pl_row q))"
proof (induction ps arbitrary: p)
  case (Cons q ps)
  show ?case
  proof (cases "min_by_id ps")
    case None
    then have "ps = []" by (cases ps) (auto split: option.splits if_splits)
    with Cons.prems show ?thesis by simp
  next
    case (Some m)
    with Cons.IH [OF Some] Cons.prems show ?thesis by (fastforce split: if_splits)
  qed
qed simp

lemma min_by_id_None: "min_by_id ps = None \<longleftrightarrow> ps = []"
  by (cases ps) (auto split: option.splits)

lemma candidate_Some:
  assumes "candidate rows caps server g = Some c"
  shows "pl_pool c = pool_of (qr_project_id (pl_row c)) caps \<and> has_room caps server g (pl_pool c)
    \<and> (\<exists>rs. waiting rows caps (pl_pool c) = pl_row c # rs)
    \<and> (\<forall>pool r rs. waiting rows caps pool = r # rs \<longrightarrow> has_room caps server g pool \<longrightarrow>
         qr_id (pl_row c) \<le> qr_id r)"
proof -
  have c: "c \<in> set (place rows caps)" "pl_position c = 1" "has_room caps server g (pl_pool c)"
    and least: "\<And>p. p \<in> set (place rows caps) \<Longrightarrow> pl_position p = 1 \<Longrightarrow>
      has_room caps server g (pl_pool p) \<Longrightarrow> qr_id (pl_row c) \<le> qr_id (pl_row p)"
    using min_by_id_Some [OF assms [unfolded candidate_def]] by auto
  have "\<forall>pool r rs. waiting rows caps pool = r # rs \<longrightarrow> has_room caps server g pool \<longrightarrow>
         qr_id (pl_row c) \<le> qr_id r"
    using first_placed least by metis
  with c placed_first [OF c(1,2)] placed_pool [of c caps "\<lambda>_. 0" rows] show ?thesis
    by (simp add: place_def)
qed

lemma candidate_None:
  "candidate rows caps server g = None \<longleftrightarrow>
     (\<forall>pool. has_room caps server g pool \<longrightarrow> waiting rows caps pool = [])"
proof
  assume none: "candidate rows caps server g = None"
  show "\<forall>pool. has_room caps server g pool \<longrightarrow> waiting rows caps pool = []"
  proof (intro allI impI)
    fix pool assume room: "has_room caps server g pool"
    show "waiting rows caps pool = []"
    proof (cases "waiting rows caps pool")
      case (Cons r rs)
      from first_placed [OF this] none room show ?thesis
        by (auto simp: candidate_def min_by_id_None filter_empty_conv)
    qed
  qed
next
  assume "\<forall>pool. has_room caps server g pool \<longrightarrow> waiting rows caps pool = []"
  then show "candidate rows caps server g = None"
    using candidate_Some [of rows caps server g] by (cases "candidate rows caps server g") fastforce+
qed

text \<open>It depends on the admissible rows alone.\<close>

lemma place_admissible:
  "place_loop caps counts (filter (\<lambda>r. is_admissible (qr_task_status r)) rows) = place_loop caps counts rows"
  by (induction rows arbitrary: counts) (auto simp: Let_def)

lemma candidate_admissible:
  assumes "filter (\<lambda>r. is_admissible (qr_task_status r)) rows = filter (\<lambda>r. is_admissible (qr_task_status r)) rows'"
  shows "candidate rows caps server g = candidate rows' caps server g"
proof -
  have "place rows caps = place rows' caps"
    using place_admissible [of caps "\<lambda>_. 0" rows] place_admissible [of caps "\<lambda>_. 0" rows'] assms
    by (simp add: place_def)
  then show ?thesis by (simp add: candidate_def)
qed

section \<open>Permits and pools\<close>

lemma length_filter_map_le:
  assumes "\<And>x. P (f x) \<Longrightarrow> Q (h x)"
  shows "length (filter P (map f (filter R xs))) \<le> length (filter Q (map h xs))"
proof (induction xs)
  case (Cons x xs)
  then show ?case using assms [of x] by (cases "P (f x)"; cases "Q (h x)"; cases "R x") auto
qed simp

lemma permits_remove: "permits (remove_permit i g) = map snd (filter (\<lambda>(k, _). k \<noteq> i) (tg_running g))"
  by (simp add: permits_def remove_permit_def)

lemma permits_free: "permits (free_slot i g) =
    map snd (map (\<lambda>(k, info). (k, if k = i then info\<lparr>pi_settling := True\<rparr> else info)) (tg_running g))"
  by (simp add: permits_def free_slot_def)

lemma running_in_remove: "running_in pool caps (remove_permit i g) \<le> running_in pool caps g"
  unfolding running_in_def permits_remove permits_def [of g] by (rule length_filter_map_le)

lemma freed_list:
  "length (filter (\<lambda>info. \<not> pi_settling info \<and> pool_of (pi_project_id info) caps = pool)
      (map snd (map (\<lambda>(k, info). (k, if k = i then info\<lparr>pi_settling := True\<rparr> else info)) xs)))
   \<le> length (filter (\<lambda>info. \<not> pi_settling info \<and> pool_of (pi_project_id info) caps = pool) (map snd xs))"
proof (induction xs)
  case (Cons x xs)
  then show ?case by (cases x; cases "fst x = i") auto
qed simp

lemma running_in_free: "running_in pool caps (free_slot i g) \<le> running_in pool caps g"
  unfolding running_in_def permits_free permits_def [of g] by (rule freed_list)

lemma running_in_add:
  "running_in pool caps (snd (add_permit info g)) \<le> running_in pool caps g
     + (if \<not> pi_settling info \<and> pool_of (pi_project_id info) caps = pool then 1 else 0)"
  using running_in_remove [of pool caps "tg_next_permit g" g]
  by (simp add: add_permit_def Let_def running_in_def permits_def)

lemma running_in_settling: "running_in pool caps (snd (settling_entry t stage g)) \<le> running_in pool caps g"
  unfolding settling_entry_def by (rule order.trans [OF running_in_add]) simp

lemma running_in_simps [simp]:
  "running_in pool caps (g\<lparr>tg_queue_error := e\<rparr>) = running_in pool caps g"
  "running_in pool caps (gate_stop g) = running_in pool caps g"
  "running_in pool caps (hold_restoring p g) = running_in pool caps g"
  "running_in pool caps (drop_restoring p g) = running_in pool caps g"
  "running_in pool caps gate_new = 0"
  by (simp_all add: running_in_def permits_def gate_stop_def hold_restoring_def drop_restoring_def
      gate_new_def split: option.split)

lemma has_room_error [simp]: "has_room caps server (g\<lparr>tg_queue_error := e\<rparr>) = has_room caps server g"
  by (simp add: has_room_def fun_eq_iff split: option.split)

lemma candidate_error [simp]:
  "candidate rows caps server (g\<lparr>tg_queue_error := e\<rparr>) = candidate rows caps server g"
  by (simp add: candidate_def)

section \<open>What a claim and a pick decide\<close>

lemma claim_start:
  assumes "claim config now task_id spec g db = Inr (Start i, g', db')"
  obtains task server where "map_of (qd_tasks db) task_id = Some task" "config = Inr server"
    "\<not> tg_stopping g" "db' = db"
    "g' = snd (issue task_id (qt_project_id task) (sp_stage spec) g)"
    "limit_of (pool_of (qt_project_id task) (project_caps db)) (project_caps db) server \<noteq> None \<Longrightarrow>
       ahead_in (pool_of (qt_project_id task) (project_caps db)) (project_caps db) g db = 0
       \<and> has_room (project_caps db) server g (pool_of (qt_project_id task) (project_caps db))"
proof -
  obtain task server where t: "map_of (qd_tasks db) task_id = Some task" "config = Inr server"
    using assms by (auto simp: claim_def result_simps)
  let ?caps = "project_caps db" and ?pool = "pool_of (qt_project_id task) (project_caps db)"
  have "\<not> tg_stopping g \<and> db' = db \<and> g' = snd (issue task_id (qt_project_id task) (sp_stage spec) g)
      \<and> (case limit_of ?pool ?caps server of None \<Rightarrow> True
          | Some l \<Rightarrow> ahead_in ?pool ?caps g db = 0 \<and> running_in ?pool ?caps g < unat l)"
    using assms by (auto simp: claim_def Let_def result_simps t split: if_splits prod.splits)
  then show thesis using that [OF t] by (auto simp: has_room_def split: option.splits)
qed

lemma claim_queued:
  assumes "claim config now task_id spec g db = Inr (Queued n payload, g', db')"
  obtains task server i where "map_of (qd_tasks db) task_id = Some task" "config = Inr server" "g' = g"
    "n = ahead_in (pool_of (qt_project_id task) (project_caps db)) (project_caps db) g db + 1"
    "queue_insert now \<lparr>nq_task_id = task_id, nq_stage = sp_stage spec,
        nq_group_stage = map_option fst (sp_group spec), nq_group_entry = map_option snd (sp_group spec),
        nq_resume_session_id = sp_resume_session_id spec\<rparr> db = Some (i, db')"
proof -
  obtain task server where t: "map_of (qd_tasks db) task_id = Some task" "config = Inr server"
    using assms by (auto simp: claim_def result_simps)
  let ?caps = "project_caps db" and ?pool = "pool_of (qt_project_id task) (project_caps db)"
  have "g' = g \<and> n = ahead_in ?pool ?caps g db + 1 \<and> (\<exists>i. queue_insert now
      \<lparr>nq_task_id = task_id, nq_stage = sp_stage spec,
        nq_group_stage = map_option fst (sp_group spec), nq_group_entry = map_option snd (sp_group spec),
        nq_resume_session_id = sp_resume_session_id spec\<rparr> db = Some (i, db'))"
    using assms by (auto simp: claim_def Let_def result_simps t split: if_splits prod.splits)
  then show thesis using that [OF t] by blast
qed

text \<open>The row that a DELETE with its status as condition hits.\<close>

definition judged_row :: "int \<Rightarrow> string \<Rightarrow> queue_db \<Rightarrow> queued \<Rightarrow> bool" where
  "judged_row i status db q =
     (q_id q = i \<and> (case map_of (qd_tasks db) (q_task_id q) of None \<Rightarrow> False | Some t \<Rightarrow> qt_status t = status))"

lemma delete_if_task_status_eq:
  "delete_if_task_status i status db =
     (list_ex (judged_row i status db) (qd_queue db), queue_filter (\<lambda>q. \<not> judged_row i status db q) db)"
  by (simp add: delete_if_task_status_def judged_row_def [abs_def] Let_def)

lemma queue_filter_tables [simp]:
  "project_caps (queue_filter keep db) = project_caps db"
  "qd_tasks (queue_filter keep db) = qd_tasks db"
  "qd_projects (queue_filter keep db) = qd_projects db"
  "join_row (queue_filter keep db) = join_row db"
  by (simp_all add: queue_filter_def project_caps_def join_row_def fun_eq_iff)

lemma withdraw_loop_snd:
  "snd (withdraw_loop (row # rows) db) =
     (if queue_row_fate (Some (qr_task_status row)) \<noteq> Withdraw then snd (withdraw_loop rows db)
      else snd (withdraw_loop rows (queue_filter (\<lambda>q. \<not> judged_row (qr_id row) (qr_task_status row) db q) db)))"
  by (simp add: delete_if_task_status_eq split: prod.split)

lemma withdraw_loop_caps: "project_caps (snd (withdraw_loop rows db)) = project_caps db"
proof (induction rows arbitrary: db)
  case (Cons row rows)
  then show ?case unfolding withdraw_loop_snd by simp
qed simp

text \<open>A pick that comes to look for a candidate.\<close>

definition picked_from ::
  "queue_row list \<Rightarrow> caps \<Rightarrow> u32 option \<Rightarrow> int option \<Rightarrow> withdrawn list \<Rightarrow> turn_gate \<Rightarrow> picked \<times> turn_gate"
where
  "picked_from rows caps server issue_for ws g =
     (case candidate rows caps server g of
        None \<Rightarrow> (nothing_picked\<lparr>pk_withdrawn := ws\<rparr>, g)
      | Some c \<Rightarrow>
          (case issue_for of
             None \<Rightarrow> (nothing_picked\<lparr>pk_withdrawn := ws, pk_row := Some (pl_row c)\<rparr>, g)
           | Some expected \<Rightarrow>
               (if qr_id (pl_row c) = expected then
                  (case issue (qr_task_id (pl_row c)) (qr_project_id (pl_row c)) (qr_stage (pl_row c)) g of
                     (permit, g) \<Rightarrow>
                       (\<lparr>pk_withdrawn = ws, pk_row = Some (pl_row c), pk_permit = Some permit\<rparr>, g))
                else (nothing_picked\<lparr>pk_withdrawn := ws\<rparr>, g))))"

lemma pick_eq:
  "pick config issue_for w g db =
     (if tg_stopping g then (Inr nothing_picked, g, db)
      else if queue_list db = [] then (Inr nothing_picked, g\<lparr>tg_queue_error := None\<rparr>, db)
      else (case config of
              Inl err \<Rightarrow> (Inl err, g\<lparr>tg_queue_error := Some err\<rparr>, db)
            | Inr server \<Rightarrow>
                (case (if w then withdraw_loop (queue_list db) db else ([], db)) of (ws, db') \<Rightarrow>
                   (case picked_from (queue_list db) (project_caps db) server issue_for ws
                           (g\<lparr>tg_queue_error := None\<rparr>) of
                      (p, g') \<Rightarrow> (Inr p, g', db')))))"
proof (cases "tg_stopping g \<or> queue_list db = []")
  case True
  then show ?thesis by (cases "tg_stopping g") (simp_all add: pick_def)
next
  case False
  show ?thesis
  proof (cases config)
    case (Inl e)
    with False show ?thesis by (simp add: pick_def)
  next
    case (Inr server)
    obtain ws db' where W: "(if w then withdraw_loop (queue_list db) db else ([], db)) = (ws, db')"
      by fastforce
    then have caps: "project_caps db' = project_caps db"
      using withdraw_loop_caps [of "queue_list db" db] by (auto split: if_splits)
    have "pick config issue_for w g db =
        (case picked_from (queue_list db) (project_caps db) server issue_for ws (g\<lparr>tg_queue_error := None\<rparr>) of
           (p, g') \<Rightarrow> (Inr p, g', db'))"
    proof (cases "candidate (queue_list db) (project_caps db) server (g\<lparr>tg_queue_error := None\<rparr>)")
      case None
      with False show ?thesis by (simp add: pick_def picked_from_def Inr W caps Let_def)
    next
      case (Some c)
      obtain k h where issued: "issue (qr_task_id (pl_row c)) (qr_project_id (pl_row c)) (qr_stage (pl_row c))
          (g\<lparr>tg_queue_error := None\<rparr>) = (k, h)" by fastforce
      from False Some show ?thesis
        by (cases issue_for) (simp_all add: pick_def picked_from_def Inr W caps Let_def issued)
    qed
    with False Inr W show ?thesis by simp
  qed
qed

lemma picked_from_permit:
  assumes "picked_from rows caps server issue_for ws g = (p, g')" and "pk_permit p = Some k"
  obtains c where "candidate rows caps server g = Some c" "pk_row p = Some (pl_row c)"
    "issue_for = Some (qr_id (pl_row c))"
    "g' = snd (issue (qr_task_id (pl_row c)) (qr_project_id (pl_row c)) (qr_stage (pl_row c)) g)"
proof (cases "candidate rows caps server g")
  case None
  with assms show thesis by (auto simp: picked_from_def)
next
  case (Some c)
  show thesis
  proof (cases issue_for)
    case None
    with Some assms show thesis by (auto simp: picked_from_def)
  next
    case (Some e)
    have e: "qr_id (pl_row c) = e"
      using assms Some \<open>candidate rows caps server g = Some c\<close>
      by (cases "qr_id (pl_row c) = e") (auto simp: picked_from_def)
    show thesis
      by (rule that [OF \<open>candidate rows caps server g = Some c\<close>])
         (use assms Some e \<open>candidate rows caps server g = Some c\<close> in
           \<open>auto simp: picked_from_def split: prod.splits\<close>)
  qed
qed

lemma picked_from_no_permit:
  "picked_from rows caps server issue_for ws g = (p, g') \<Longrightarrow> pk_permit p = None \<Longrightarrow> g' = g"
  by (auto simp: picked_from_def split: option.splits if_splits prod.splits)

lemma pick_permit:
  assumes "pick config issue_for w g db = (Inr p, g', db')" and "pk_permit p = Some k"
  obtains c server where "config = Inr server" "\<not> tg_stopping g" "pk_row p = Some (pl_row c)"
    "candidate (queue_list db) (project_caps db) server g = Some c"
    "issue_for = Some (qr_id (pl_row c))"
    "g' = snd (issue (qr_task_id (pl_row c)) (qr_project_id (pl_row c)) (qr_stage (pl_row c))
             (g\<lparr>tg_queue_error := None\<rparr>))"
proof -
  have live: "\<not> tg_stopping g" "queue_list db \<noteq> []" using assms by (auto simp: pick_eq split: if_splits)
  obtain server where s: "config = Inr server" using assms live by (cases config) (auto simp: pick_eq)
  obtain ws where "picked_from (queue_list db) (project_caps db) server issue_for ws (g\<lparr>tg_queue_error := None\<rparr>)
      = (p, g')"
    using assms(1) live s by (auto simp: pick_eq split: prod.splits)
  from picked_from_permit [OF this assms(2)] show thesis using that [OF s live(1)] by auto
qed

lemma pick_no_permit:
  assumes "pick config issue_for w g db = (r, g', db')" and "case r of Inl e \<Rightarrow> True | Inr p \<Rightarrow> pk_permit p = None"
  shows "\<exists>e. g' = g\<lparr>tg_queue_error := e\<rparr>"
proof (cases "tg_stopping g \<or> queue_list db = []")
  case True
  then show ?thesis using assms(1)
    by (cases "tg_stopping g") (auto simp: pick_eq intro: exI [of _ "tg_queue_error g"])
next
  case False
  show ?thesis
  proof (cases config)
    case (Inl e)
    then show ?thesis using assms(1) False by (auto simp: pick_eq)
  next
    case (Inr server)
    then obtain p ws where p: "r = Inr p"
      "picked_from (queue_list db) (project_caps db) server issue_for ws (g\<lparr>tg_queue_error := None\<rparr>) = (p, g')"
      using assms(1) False by (auto simp: pick_eq split: prod.splits)
    with picked_from_no_permit [OF p(2)] assms(2) show ?thesis by auto
  qed
qed

lemma pick_caps:
  assumes "pick config issue_for w g db = (r, g', db')"
  shows "project_caps db' = project_caps db"
  using assms withdraw_loop_caps [of "queue_list db" db]
  by (cases config) (auto simp: pick_eq split: if_splits prod.splits)

section \<open>The gate over time\<close>

text \<open>
  Every step that touches the gate, with one config.yaml and one set of caps throughout: a claim, a
  look at the queue, a slot freed, a permit or a guard dropped, an admission held back and let go,
  the daemon stopping. Between them the database changes in any way that leaves the caps alone:
  rows are deleted and restored, tasks change status.
\<close>

definition config_is :: "u32 option \<Rightarrow> (string, u32 option) result \<Rightarrow> bool" where
  "config_is server config = (case config of Inl e \<Rightarrow> True | Inr m \<Rightarrow> m = server)"

inductive gate_run :: "u32 option \<Rightarrow> caps \<Rightarrow> turn_gate \<Rightarrow> queue_db \<Rightarrow> bool" for server caps where
  fresh: "project_caps db = caps \<Longrightarrow> gate_run server caps gate_new db"
| claimed: "gate_run server caps g db \<Longrightarrow> config_is server config \<Longrightarrow>
    claim config now task_id spec g db = Inr (c, g', db') \<Longrightarrow> gate_run server caps g' db'"
| looked: "gate_run server caps g db \<Longrightarrow> config_is server config \<Longrightarrow>
    pick config issue_for w g db = (r, g', db') \<Longrightarrow> gate_run server caps g' db'"
| freed: "gate_run server caps g db \<Longrightarrow> gate_run server caps (free_slot i g) db"
| dropped: "gate_run server caps g db \<Longrightarrow> gate_run server caps (remove_permit i g) db"
| settling: "gate_run server caps g db \<Longrightarrow> gate_run server caps (snd (settling_entry t stage g)) db"
| held: "gate_run server caps g db \<Longrightarrow> gate_run server caps (hold_restoring p g) db"
| let_go: "gate_run server caps g db \<Longrightarrow> gate_run server caps (drop_restoring p g) db"
| stopped: "gate_run server caps g db \<Longrightarrow> gate_run server caps (gate_stop g) db"
| stored: "gate_run server caps g db \<Longrightarrow> project_caps db' = caps \<Longrightarrow> gate_run server caps g db'"

definition within_limits :: "u32 option \<Rightarrow> caps \<Rightarrow> turn_gate \<Rightarrow> bool" where
  "within_limits server caps g =
     (\<forall>pool. case limit_of pool caps server of None \<Rightarrow> True | Some l \<Rightarrow> running_in pool caps g \<le> unat l)"

lemma within_limits_less:
  assumes "within_limits server caps g" and "\<And>pool. running_in pool caps g' \<le> running_in pool caps g"
  shows "within_limits server caps g'"
  using assms by (fastforce simp: within_limits_def split: option.splits intro: order.trans)

lemma within_limits_issue:
  assumes "within_limits server caps g"
    and "limit_of (pool_of project caps) caps server \<noteq> None \<Longrightarrow> has_room caps server g (pool_of project caps)"
  shows "within_limits server caps (snd (issue task_id project stage g))"
  unfolding within_limits_def
proof
  fix pool
  show "case limit_of pool caps server of None \<Rightarrow> True
    | Some l \<Rightarrow> running_in pool caps (snd (issue task_id project stage g)) \<le> unat l"
  proof (cases "limit_of pool caps server")
    case (Some l)
    have le: "running_in pool caps (snd (issue task_id project stage g)) \<le> running_in pool caps g
        + (if pool_of project caps = pool then 1 else 0)"
      unfolding issue_def by (rule order.trans [OF running_in_add]) simp
    have old: "running_in pool caps g \<le> unat l"
      using assms(1) Some by (auto simp: within_limits_def split: option.splits dest: spec [of _ pool])
    show ?thesis
    proof (cases "pool_of project caps = pool")
      case True
      then have "running_in pool caps g < unat l" using assms(2) Some by (simp add: has_room_def)
      with le True Some show ?thesis by simp
    next
      case False
      with le old Some show ?thesis by simp
    qed
  qed simp
qed

lemma gate_run_invariant: "gate_run server caps g db \<Longrightarrow> project_caps db = caps \<and> within_limits server caps g"
proof (induction rule: gate_run.induct)
  case (fresh db)
  then show ?case by (simp add: within_limits_def split: option.split)
next
  case (claimed g db config now task_id spec c g' db')
  then have caps: "project_caps db = caps" and ok: "within_limits server caps g" by simp_all
  show ?case
  proof (cases c)
    case (Start i)
    show ?thesis
    proof (rule claim_start [OF claimed.hyps(3) [unfolded Start], unfolded caps])
      fix task m
      assume m: "config = Inr m" and db: "db' = db"
        and g': "g' = snd (issue task_id (qt_project_id task) (sp_stage spec) g)"
        and due: "limit_of (pool_of (qt_project_id task) caps) caps m \<noteq> None \<Longrightarrow>
          ahead_in (pool_of (qt_project_id task) caps) caps g db = 0
          \<and> has_room caps m g (pool_of (qt_project_id task) caps)"
      from m claimed.hyps(2) have "m = server" by (simp add: config_is_def)
      with due caps db g' within_limits_issue [OF ok, of "qt_project_id task" task_id "sp_stage spec"]
      show ?thesis by blast
    qed
  next
    case (Queued n payload)
    from claimed.hyps(3) [unfolded Queued] show ?thesis
      by (rule claim_queued)
         (use caps ok in \<open>auto simp: queue_insert_def project_caps_def Let_def split: if_splits\<close>)
  qed
next
  case (looked g db config issue_for w r g' db')
  then have caps: "project_caps db = caps" and ok: "within_limits server caps g" by simp_all
  have caps': "project_caps db' = caps" using pick_caps [OF looked.hyps(3)] caps by simp
  show ?case
  proof (cases "case r of Inl e \<Rightarrow> True | Inr p \<Rightarrow> pk_permit p = None")
    case True
    from pick_no_permit [OF looked.hyps(3) True] obtain e where "g' = g\<lparr>tg_queue_error := e\<rparr>" ..
    with caps' within_limits_less [OF ok, of g'] show ?thesis by simp
  next
    case False
    then obtain p k where p: "r = Inr p" "pk_permit p = Some k" by (auto split: sum.splits)
    from looked.hyps(3) [unfolded p(1)] p(2) obtain c m where c: "config = Inr m"
      "candidate (queue_list db) caps m g = Some c"
      "g' = snd (issue (qr_task_id (pl_row c)) (qr_project_id (pl_row c)) (qr_stage (pl_row c))
             (g\<lparr>tg_queue_error := None\<rparr>))"
      by (rule pick_permit) (auto simp: caps)
    have lim: "within_limits server caps (g\<lparr>tg_queue_error := None\<rparr>)"
      using within_limits_less [OF ok] by simp
    from c(1) looked.hyps(2) have "m = server" by (simp add: config_is_def)
    then have "has_room caps server (g\<lparr>tg_queue_error := None\<rparr>) (pool_of (qr_project_id (pl_row c)) caps)"
      using candidate_Some [OF c(2)] by (metis has_room_error)
    with within_limits_issue [OF lim] c(3) caps' show ?thesis by blast
  qed
next
  case (settling g db t stage)
  then show ?case using within_limits_less running_in_settling by blast
qed (auto intro: within_limits_less running_in_free running_in_remove)

section \<open>Properties\<close>

text \<open>
  C21. No pool ever runs more turns than its limit: whatever claims, looks at the queue, releases,
  admissions and writes to the database happen, in whatever order, the turns that hold a slot in a
  pool with a limit are never more than it.
\<close>

theorem limits_hold:
  assumes "gate_run server caps g db" and "limit_of pool caps server = Some l"
  shows "running_in pool caps g \<le> unat l"
  using gate_run_invariant [OF assms(1)] assms(2)
  by (auto simp: within_limits_def split: option.splits dest: spec [of _ pool])

text \<open>
  C22. Nobody overtakes: in a pool with a limit a turn starts at once only when no turn waits in the
  pool, none may come back to it and a slot is free; and a turn taken from the queue is the first of
  its pool, with a free slot, and the longest waiting of all firsts whose pool has one.
\<close>

theorem turns_start_in_order:
  assumes "queue_ok db"
  shows "(case claim config now task_id spec g db of
            Inr (Start i, g', db') \<Rightarrow>
              (case (map_of (qd_tasks db) task_id, config) of
                 (Some task, Inr server) \<Rightarrow>
                   (let caps = project_caps db; pool = pool_of (qt_project_id task) caps in
                    case limit_of pool caps server of
                      None \<Rightarrow> True
                    | Some l \<Rightarrow> waiting (queue_list db) caps pool = [] \<and> running_in pool caps g < unat l
                        \<and> filter (\<lambda>p. pool_of p caps = pool) (tg_restoring g) = [])
               | _ \<Rightarrow> False)
          | _ \<Rightarrow> True)
    \<and> (case pick config issue_for w g db of
         (Inr p, g', db') \<Rightarrow>
           (case (pk_permit p, config) of
              (None, _) \<Rightarrow> True
            | (Some i, Inr server) \<Rightarrow>
                (let caps = project_caps db in
                 \<exists>r rs. pk_row p = Some r
                   \<and> waiting (queue_list db) caps (pool_of (qr_project_id r) caps) = r # rs
                   \<and> has_room caps server g (pool_of (qr_project_id r) caps)
                   \<and> {x \<in> set (queue_list db). is_admissible (qr_task_status x) \<and> qr_id x < qr_id r
                        \<and> has_room caps server g (pool_of (qr_project_id x) caps)} = {})
            | _ \<Rightarrow> False)
       | _ \<Rightarrow> True)"
  (is "?claim \<and> ?pick")
proof
  show ?claim
  proof (cases "\<exists>i g' db'. claim config now task_id spec g db = Inr (Start i, g', db')")
    case True
    then obtain i g' db' where c: "claim config now task_id spec g db = Inr (Start i, g', db')" by blast
    let ?caps = "project_caps db"
    obtain task server where t: "map_of (qd_tasks db) task_id = Some task" "config = Inr server"
      and due: "limit_of (pool_of (qt_project_id task) ?caps) ?caps server \<noteq> None \<Longrightarrow>
         ahead_in (pool_of (qt_project_id task) ?caps) ?caps g db = 0
         \<and> has_room ?caps server g (pool_of (qt_project_id task) ?caps)"
      using claim_start [OF c] by metis
    note c' = c [unfolded t(2)]
    show ?thesis unfolding t(2) c' Let_def
      using due t(1) by (auto simp: ahead_in_waiting has_room_def split: option.split)
  next
    case False
    then show ?thesis by (auto split: sum.splits prod.splits claim.splits)
  qed
next
  show ?pick
  proof (cases "\<exists>p k g' db'. pick config issue_for w g db = (Inr p, g', db') \<and> pk_permit p = Some k")
    case True
    then obtain p k g' db' where p: "pick config issue_for w g db = (Inr p, g', db')" "pk_permit p = Some k"
      by blast
    obtain c server where c: "config = Inr server" "pk_row p = Some (pl_row c)"
      "candidate (queue_list db) (project_caps db) server g = Some c"
      using pick_permit [OF p] by metis
    from candidate_Some [OF c(3)] obtain rs where w:
      "waiting (queue_list db) (project_caps db) (pl_pool c) = pl_row c # rs"
      "pl_pool c = pool_of (qr_project_id (pl_row c)) (project_caps db)"
      "has_room (project_caps db) server g (pl_pool c)" by blast
    have "qr_id (pl_row c) \<le> qr_id x"
      if x: "x \<in> set (queue_list db)" "is_admissible (qr_task_status x)"
        "has_room (project_caps db) server g (pool_of (qr_project_id x) (project_caps db))" for x
    proof -
      let ?in = "\<lambda>r. is_admissible (qr_task_status r) \<and>
        pool_of (qr_project_id r) (project_caps db) = pool_of (qr_project_id x) (project_caps db)"
      have "x \<in> set (filter ?in (queue_list db))" using x by simp
      then obtain r rs' where r: "filter ?in (queue_list db) = r # rs'"
        by (cases "filter ?in (queue_list db)") auto
      then have "qr_id (pl_row c) \<le> qr_id r"
        using candidate_Some [OF c(3)] x(3) by (auto simp: waiting_def)
      also have "qr_id r \<le> qr_id x" using line.first_is_least [OF assms r x(1)] x(2) by simp
      finally show ?thesis .
    qed
    then show ?thesis unfolding p Let_def using c p(2) w by fastforce
  next
    case False
    then show ?thesis by (cases "pick config issue_for w g db") (auto split: sum.splits option.splits)
  qed
qed

lemma fate_admissible: "is_admissible st \<Longrightarrow> queue_row_fate (Some st) = Admissible"
  by (simp add: queue_row_fate_def classify_row_fate_def)

text \<open>In a consistent table the condition on the status always holds when nothing came between.\<close>

lemma queue_list_mem:
  assumes "queue_ok db" and "r \<in> set (queue_list db)"
  obtains q t where "q \<in> set (qd_queue db)" "join_row db q = Some r"
    "map_of (qd_tasks db) (q_task_id q) = Some t" "qr_task_status r = qt_status t"
proof -
  have "r \<in> set (List.map_filter (join_row db) (qd_queue db))" using assms(2) by (simp add: queue_list_def)
  then obtain q where q: "q \<in> set (qd_queue db)" "join_row db q = Some r"
    by (auto simp: List.map_filter_def)
  then show thesis using that [OF q] by (auto simp: join_row_def split: bind_splits)
qed

lemma judged_here:
  assumes "queue_ok db" and "r \<in> set (queue_list db)" and "q \<in> set (qd_queue db)"
  shows "judged_row (qr_id r) (qr_task_status r) db q \<longleftrightarrow> q_id q = qr_id r"
proof -
  obtain q' t where q': "q' \<in> set (qd_queue db)" "join_row db q' = Some r"
    "map_of (qd_tasks db) (q_task_id q') = Some t" "qr_task_status r = qt_status t"
    by (rule queue_list_mem [OF assms(1,2)])
  have "q = q'" if "q_id q = qr_id r"
  proof -
    have "inj_on q_id (set (qd_queue db))" using assms(1) by (simp add: queue_ok_def distinct_map)
    then show ?thesis using that assms(3) q'(1) join_row_key [OF q'(2)] by (auto dest: inj_onD)
  qed
  then show ?thesis using q' by (auto simp: judged_row_def)
qed

lemma queue_filter_cong:
  "(\<And>q. q \<in> set (qd_queue db) \<Longrightarrow> P q = Q q) \<Longrightarrow> queue_filter P db = queue_filter Q db"
  by (simp add: queue_filter_def cong: filter_cong)

lemma withdraw_step:
  assumes "queue_ok db" and "r \<in> set (queue_list db)"
  shows "delete_if_task_status (qr_id r) (qr_task_status r) db = (True, queue_filter (\<lambda>q. q_id q \<noteq> qr_id r) db)"
proof -
  obtain q where q: "q \<in> set (qd_queue db)" "join_row db q = Some r"
    by (rule queue_list_mem [OF assms])
  then have "judged_row (qr_id r) (qr_task_status r) db q"
    using judged_here [OF assms q(1)] join_row_key [OF q(2)] by simp
  with q(1) have "list_ex (judged_row (qr_id r) (qr_task_status r) db) (qd_queue db)"
    by (auto simp: list_ex_iff)
  moreover have "queue_filter (\<lambda>q. \<not> judged_row (qr_id r) (qr_task_status r) db q) db =
      queue_filter (\<lambda>q. q_id q \<noteq> qr_id r) db"
    by (rule queue_filter_cong) (simp add: judged_here [OF assms])
  ultimately show ?thesis by (simp add: delete_if_task_status_eq)
qed

definition withdrawn_of :: "queue_row \<Rightarrow> withdrawn" where
  "withdrawn_of row = \<lparr>wi_task_id = qr_task_id row, wi_stage = qr_stage row, wi_group = qr_group_stage row,
     wi_reason = ''the task is '' @ qr_task_status row\<rparr>"

definition withdrawable :: "queue_row \<Rightarrow> bool" where
  "withdrawable row = (queue_row_fate (Some (qr_task_status row)) = Withdraw)"

lemma withdraw_loop_eq:
  assumes "queue_ok db" and "set rows \<subseteq> set (queue_list db)" and "distinct (map qr_id rows)"
  shows "withdraw_loop rows db =
    (map withdrawn_of (filter withdrawable rows),
     queue_filter (\<lambda>q. q_id q \<notin> qr_id ` set (filter withdrawable rows)) db)"
  using assms
proof (induction rows arbitrary: db)
  case Nil
  then show ?case by (simp add: queue_filter_def)
next
  case (Cons row rows)
  show ?case
  proof (cases "withdrawable row")
    case False
    with Cons show ?thesis by (simp add: withdrawable_def)
  next
    case True
    let ?db = "queue_filter (\<lambda>q. q_id q \<noteq> qr_id row) db"
    have del: "delete_if_task_status (qr_id row) (qr_task_status row) db = (True, ?db)"
      using Cons.prems by (intro withdraw_step) auto
    have list: "queue_list ?db = filter (\<lambda>r. qr_id r \<noteq> qr_id row) (queue_list db)"
      by (rule queue_list_filter) (simp add: join_row_key)
    have "set rows \<subseteq> set (queue_list ?db)" using Cons.prems by (auto simp: list image_iff)
    with Cons.IH [OF queue_ok_filter [OF Cons.prems(1)] this] Cons.prems(3)
    have ih: "withdraw_loop rows ?db = (map withdrawn_of (filter withdrawable rows),
        queue_filter (\<lambda>q. q_id q \<notin> qr_id ` set (filter withdrawable rows)) ?db)" by simp
    have "queue_filter (\<lambda>q. q_id q \<notin> qr_id ` set (filter withdrawable rows)) ?db =
        queue_filter (\<lambda>q. q_id q \<notin> qr_id ` set (filter withdrawable (row # rows))) db"
      using True by (simp add: queue_filter_def conj_commute)
    moreover have "queue_row_fate (Some (qr_task_status row)) = Withdraw" using True by (simp add: withdrawable_def)
    ultimately show ?thesis using True by (simp add: del ih withdrawn_of_def [of row])
  qed
qed

text \<open>
  A look at the queue withdraws the right rows: with withdrawing on, it deletes exactly the rows
  whose task is stuck, closed or cancelled, reports each of them in queue order, and leaves every
  other row, an unknown status included, as it is.
\<close>

theorem withdraws_what_cannot_start:
  assumes "queue_ok db" and "pick (Inr server) issue_for True g db = (Inr p, g', db')" and "\<not> tg_stopping g"
  shows "queue_list db' = filter (\<lambda>r. \<not> withdrawable r) (queue_list db)
    \<and> pk_withdrawn p = map withdrawn_of (filter withdrawable (queue_list db))
    \<and> withdrawable = (\<lambda>r. qr_task_status r \<in> {''stuck'', ''closed'', ''cancelled''})"
proof -
  have sorted: "sorted_wrt (<) (map qr_id (queue_list db))" by (rule queue_list_ordered [OF assms(1)])
  then have dist: "distinct (map qr_id (queue_list db))" by (simp add: strict_sorted_iff)
  let ?gone = "qr_id ` set (filter withdrawable (queue_list db))"
  have loop: "withdraw_loop (queue_list db) db = (map withdrawn_of (filter withdrawable (queue_list db)),
      queue_filter (\<lambda>q. q_id q \<notin> ?gone) db)"
    by (rule withdraw_loop_eq [OF assms(1) subset_refl dist])
  have w: "withdrawable = (\<lambda>r. qr_task_status r \<in> {''stuck'', ''closed'', ''cancelled''})"
    by (auto simp: withdrawable_def queue_row_fate_def classify_row_fate_def is_admissible_def fun_eq_iff
        TASK_STATUS_OPEN_def TASK_STATUS_PAUSING_def TASK_STATUS_PAUSED_def TASK_STATUS_STUCK_def
        TASK_STATUS_CLOSED_def TASK_STATUS_CANCELLED_def)
  have "queue_list (queue_filter (\<lambda>q. q_id q \<notin> ?gone) db) = filter (\<lambda>r. qr_id r \<notin> ?gone) (queue_list db)"
    by (rule queue_list_filter) (simp add: join_row_key)
  also have "\<dots> = filter (\<lambda>r. \<not> withdrawable r) (queue_list db)"
    using dist by (intro filter_cong refl) (auto simp: distinct_map inj_on_def)
  finally have "queue_list db' = filter (\<lambda>r. \<not> withdrawable r) (queue_list db)
      \<and> pk_withdrawn p = map withdrawn_of (filter withdrawable (queue_list db))"
    using assms(2,3) by (cases "queue_list db = []")
      (auto simp: pick_eq loop picked_from_def split: prod.splits option.splits if_splits)
  with w show ?thesis by simp
qed

text \<open>
  Places are told truly: the places of a pool are 1, 2, ... in queue order, and a claim that
  queues a turn of an open task adds it at the end of the queue, at just the place the claim told,
  leaving every other place as it was (when no failed turn of the pool may still come back).
\<close>

theorem claimed_place_is_true:
  assumes "queue_ok db" and "claim config now task_id spec g db = Inr (Queued n payload, g', db')"
    and "map_of (qd_tasks db) task_id = Some task" and "is_admissible (qt_status task)"
    and "list_all (\<lambda>p. pool_of p (project_caps db) \<noteq> pool_of (qt_project_id task) (project_caps db)) (tg_restoring g)"
  shows "\<exists>r. place (queue_list db') (project_caps db') = place (queue_list db) (project_caps db)
      @ [\<lparr>pl_row = r, pl_pool = pool_of (qt_project_id task) (project_caps db), pl_position = n\<rparr>]
    \<and> qr_task_id r = task_id \<and> qr_stage r = sp_stage spec \<and> qr_group_stage r = map_option fst (sp_group spec)
    \<and> (\<forall>pool. map pl_position (filter (\<lambda>p. pl_pool p = pool) (place (queue_list db') (project_caps db')))
         = [1 ..< Suc (length (waiting (queue_list db') (project_caps db') pool))])"
proof -
  let ?caps = "project_caps db" and ?pool = "pool_of (qt_project_id task) (project_caps db)"
  obtain i where n: "n = ahead_in ?pool ?caps g db + 1" and ins:
    "queue_insert now \<lparr>nq_task_id = task_id, nq_stage = sp_stage spec,
        nq_group_stage = map_option fst (sp_group spec), nq_group_entry = map_option snd (sp_group spec),
        nq_resume_session_id = sp_resume_session_id spec\<rparr> db = Some (i, db')"
    using claim_queued [OF assms(2)] assms(3) by (metis option.inject)
  have caps: "project_caps db' = ?caps"
    using ins by (auto simp: queue_insert_def project_caps_def Let_def split: if_splits)
  obtain r where r: "queue_list db' = queue_list db @ [r]" "qr_task_id r = task_id" "qr_stage r = sp_stage spec"
    "qr_group_stage r = map_option fst (sp_group spec)" "qr_project_id r = qt_project_id task"
    "qr_task_status r = qt_status task"
    using queue_list_insert [OF assms(1) ins] assms(3) by auto
  have "filter (\<lambda>p. pool_of p ?caps = ?pool) (tg_restoring g) = []"
    using assms(5) by (simp add: filter_empty_conv list_all_iff)
  then have "n = length (waiting (queue_list db) ?caps ?pool) + 1" by (simp add: n ahead_in_waiting)
  then have placed: "place (queue_list db') ?caps = place (queue_list db) ?caps
      @ [\<lparr>pl_row = r, pl_pool = ?pool, pl_position = n\<rparr>]"
    using assms(4) r by (simp add: place_def place_append Let_def)
  show ?thesis unfolding caps
    by (intro exI [of _ r] conjI allI; rule placed r(2-4) place_positions)
qed

section \<open>Witnesses\<close>

text \<open>Two tasks of a project without a cap, and one waiting turn of the second, under a server limit of 1.\<close>

definition example_queue :: queue_db where
  "example_queue =
     \<lparr>qd_queue = [\<lparr>q_id = 1, q_task_id = ''t2'', q_stage = ''code'', q_group_stage = None, q_group_entry = None,
                   q_resume_session_id = None, q_queued_at = 0\<rparr>],
      qd_sequence = 1,
      qd_tasks = [(''t1'', \<lparr>qt_title = ''one'', qt_project_id = ''p'', qt_status = ''open''\<rparr>),
                  (''t2'', \<lparr>qt_title = ''two'', qt_project_id = ''p'', qt_status = ''open''\<rparr>)],
      qd_projects = [(''p'', \<lparr>qp_name = ''project'', qp_max_agents = None\<rparr>)],
      qd_sessions = []\<rparr>"

abbreviation example_waiting :: queue_row where
  "example_waiting \<equiv>
     \<lparr>qr_id = 1, qr_task_id = ''t2'', qr_title = ''two'', qr_project_id = ''p'', qr_project_cap = None,
      qr_task_status = ''open'', qr_stage = ''code'', qr_group_stage = None, qr_group_entry = None,
      qr_resume_session_id = None, qr_queued_at = 0, qr_admissible = True\<rparr>"

abbreviation example_spec :: turn_spec where
  "example_spec \<equiv> \<lparr>sp_stage = ''plan'', sp_group = None, sp_resume_session_id = None\<rparr>"

lemma example_queue_ok: "queue_ok example_queue"
  by (simp add: queue_ok_def example_queue_def imap_ok_def ikeys_def)

lemma example_queue_list: "queue_list example_queue = [example_waiting]"
  by (simp add: queue_list_def example_queue_def join_row_def map_filter_simps admissible_sql_def)

lemma example_caps: "project_caps example_queue = []"
  by (simp add: project_caps_def example_queue_def map_filter_simps)

lemma example_waits: "waiting (queue_list example_queue) (project_caps example_queue) Server = [example_waiting]"
  by (simp add: example_queue_list example_caps waiting_def is_admissible_def TASK_STATUS_OPEN_def pool_of_def)

lemma example_candidate:
  "candidate (queue_list example_queue) (project_caps example_queue) (Some 1) gate_new =
     Some \<lparr>pl_row = example_waiting, pl_pool = Server, pl_position = 1\<rparr>"
  by (simp add: candidate_def example_queue_list example_caps place_def is_admissible_def TASK_STATUS_OPEN_def
      pool_of_def has_room_def Let_def)

text \<open>The pick that takes the waiting turn, and a claim that has to wait behind it.\<close>

lemma example_pick:
  "\<exists>k g. pick (Inr (Some 1)) (Some 1) False gate_new example_queue =
     (Inr \<lparr>pk_withdrawn = [], pk_row = Some example_waiting, pk_permit = Some k\<rparr>, g, example_queue)"
proof -
  have "gate_new\<lparr>tg_queue_error := None\<rparr> = gate_new" "\<not> tg_stopping gate_new" by (simp_all add: gate_new_def)
  then show ?thesis
    by (simp add: pick_eq picked_from_def example_candidate example_queue_list [symmetric] split: prod.split)
       (simp add: example_queue_list)
qed

lemma example_tables:
  "map_of (qd_tasks example_queue) ''t1'' = Some \<lparr>qt_title = ''one'', qt_project_id = ''p'', qt_status = ''open''\<rparr>"
  "\<exists>db. queue_insert now \<lparr>nq_task_id = ''t1'', nq_stage = ''plan'', nq_group_stage = None, nq_group_entry = None,
       nq_resume_session_id = None\<rparr> example_queue = Some (2, db)"
  by (simp_all add: example_queue_def queue_insert_def queue_refuses_def MAX_ROWID_def)

lemma example_claim:
  "\<exists>payload db. claim (Inr (Some 1)) 5 ''t1'' example_spec gate_new example_queue =
     Inr (Queued 2 payload, gate_new, db)"
proof -
  have "ahead_in Server [] gate_new example_queue = 1"
    using example_waits by (simp add: ahead_in_waiting example_caps gate_new_def)
  moreover obtain db where "queue_insert 5 \<lparr>nq_task_id = ''t1'', nq_stage = ''plan'', nq_group_stage = None,
      nq_group_entry = None, nq_resume_session_id = None\<rparr> example_queue = Some (2, db)"
    using example_tables(2) by blast
  ultimately show ?thesis
    by (simp add: claim_def example_tables(1) example_caps pool_of_def gate_new_def)
qed

lemma example_claim_starts:
  "\<exists>k g. claim (Inr (Some 2)) 5 ''t1'' example_spec gate_new (example_queue\<lparr>qd_queue := []\<rparr>) =
     Inr (Start k, g, example_queue\<lparr>qd_queue := []\<rparr>)"
proof -
  have "project_caps (example_queue\<lparr>qd_queue := []\<rparr>) = []" using example_caps by (simp add: project_caps_def)
  moreover have "queue_list (example_queue\<lparr>qd_queue := []\<rparr>) = []" by (simp add: queue_list_def map_filter_simps)
  ultimately show ?thesis
    using example_tables(1)
    by (simp add: claim_def ahead_in_def place_def gate_new_def pool_of_def running_in_def permits_def split: prod.split)
qed

theorem limits_hold_witness:
  "\<exists>k g. pick (Inr (Some 1)) (Some 1) False gate_new example_queue =
     (Inr \<lparr>pk_withdrawn = [], pk_row = Some example_waiting, pk_permit = Some k\<rparr>, g, example_queue)
   \<and> running_in Server [] g \<le> 1"
proof -
  obtain k g where p: "pick (Inr (Some 1)) (Some 1) False gate_new example_queue =
     (Inr \<lparr>pk_withdrawn = [], pk_row = Some example_waiting, pk_permit = Some k\<rparr>, g, example_queue)"
    using example_pick by blast
  have "gate_run (Some 1) [] gate_new example_queue" by (rule gate_run.fresh [OF example_caps])
  from gate_run.looked [OF this _ p] have "gate_run (Some 1) [] g example_queue" by (simp add: config_is_def)
  from limits_hold [OF this, of Server 1] p show ?thesis by simp
qed

theorem turns_start_in_order_witness:
  "\<exists>k g. claim (Inr (Some 2)) 5 ''t1'' example_spec gate_new (example_queue\<lparr>qd_queue := []\<rparr>) =
     Inr (Start k, g, example_queue\<lparr>qd_queue := []\<rparr>)
   \<and> waiting (queue_list (example_queue\<lparr>qd_queue := []\<rparr>)) [] Server = []"
proof -
  let ?db = "example_queue\<lparr>qd_queue := []\<rparr>"
  obtain k g where c: "claim (Inr (Some 2)) 5 ''t1'' example_spec gate_new ?db = Inr (Start k, g, ?db)"
    using example_claim_starts by blast
  have ok: "queue_ok ?db" using example_queue_ok by (simp add: queue_ok_def)
  have caps: "project_caps ?db = []" using example_caps by (simp add: project_caps_def)
  from turns_start_in_order [OF ok, where config = "Inr (Some 2)" and now = 5 and task_id = "''t1''"
      and spec = example_spec and g = gate_new] c show ?thesis
    by (auto simp: example_tables(1) caps pool_of_def Let_def)
qed

theorem withdraws_what_cannot_start_witness:
  "\<exists>p g db. pick (Inr (Some 1)) None True gate_new example_queue = (Inr p, g, db)
     \<and> queue_list db = [example_waiting] \<and> pk_withdrawn p = []"
proof -
  have live: "\<not> tg_stopping gate_new" by (simp add: gate_new_def)
  obtain p g db where p: "pick (Inr (Some 1)) None True gate_new example_queue = (Inr p, g, db)"
    using live by (cases "pick (Inr (Some 1)) None True gate_new example_queue")
      (auto simp: pick_eq split: prod.splits if_splits)
  have "\<not> withdrawable example_waiting"
    by (simp add: withdrawable_def fate_admissible is_admissible_def TASK_STATUS_OPEN_def)
  with withdraws_what_cannot_start [OF example_queue_ok p live] p show ?thesis
    by (simp add: example_queue_list)
qed

theorem claimed_place_is_true_witness:
  "\<exists>payload db r. claim (Inr (Some 1)) 5 ''t1'' example_spec gate_new example_queue =
     Inr (Queued 2 payload, gate_new, db)
   \<and> qr_task_id r = ''t1'' \<and> \<lparr>pl_row = r, pl_pool = Server, pl_position = 2\<rparr> \<in> set (place (queue_list db) (project_caps db))"
proof -
  obtain payload db where c: "claim (Inr (Some 1)) 5 ''t1'' example_spec gate_new example_queue =
     Inr (Queued 2 payload, gate_new, db)"
    using example_claim by blast
  have adm: "is_admissible (qt_status \<lparr>qt_title = ''one'', qt_project_id = ''p'', qt_status = ''open''\<rparr>)"
    by (simp add: is_admissible_def TASK_STATUS_OPEN_def)
  have none: "list_all P (tg_restoring gate_new)" for P by (simp add: gate_new_def)
  from claimed_place_is_true [OF example_queue_ok c example_tables(1) adm none] c show ?thesis
    by (auto simp: example_caps pool_of_def)
qed

end
