(* ===== verification/Dispatch.thy ===== *)
theory Dispatch
  imports Turns
begin

text \<open>
  The dispatcher over the turn gate (chocofactoryd/src/engine/turns.rs: dispatch_pass, admit,
  validate_row, resume_for_row, withdraw_row, fail_admission_inner) and what the API shows of the
  queue (queue_snapshot, QueueSnapshot). What a pass reads from other tables, and what preparing
  and launching the turn answer, are arguments; what other tasks do to the gate and the database
  while the pass holds no slot lock is the argument \<open>between\<close>.
\<close>

section \<open>Judging a row\<close>

text \<open>
  Whether the row can still start: \<open>Some None\<close>, or \<open>Some\<close> why it never can; \<open>None\<close> when the branch's
  session could not be read.
\<close>

definition validate_branch_row ::
  "queue_row \<Rightarrow> string \<Rightarrow> json \<Rightarrow> session option option \<Rightarrow> string option option"
where
  "validate_branch_row row grp payload current =
     (let block = (case jget ''parallel'' payload of
                     None \<Rightarrow> None
                   | Some b \<Rightarrow> if Option.bind (jget ''stage'' b) as_str = Some grp then Some b else None);
          entry = Option.bind (Option.bind block (jget ''entry'')) as_i64;
          slot_state = Option.bind (Option.bind (Option.bind (Option.bind block
            (jget ''branches'')) (jget (qr_stage row))) (jget ''state'')) as_str
      in if entry \<noteq> qr_group_entry row then Some (Some (squote grp @ '' has been entered again since''))
         else if slot_state \<noteq> Some ''running'' then
           Some (Some (''branch '' @ squote (qr_stage row) @ '' has already settled''))
         else map_option (\<lambda>session.
             if map_option se_status session = Some Active then
               Some (''branch '' @ squote (qr_stage row) @ '' already has a live session'')
             else None) current)"

definition validate_row ::
  "queue_row \<Rightarrow> workflow_state \<Rightarrow> workflow_definition \<Rightarrow> session option option \<Rightarrow> string option option"
where
  "validate_row row state d current =
     (case qr_group_stage row of
        None \<Rightarrow>
          (if ws_current_stage state \<noteq> qr_stage row then
             Some (Some (''the task has moved on to '' @ squote (ws_current_stage state)))
           else if (case stage_of d (qr_stage row) of None \<Rightarrow> False | Some sd \<Rightarrow> is_agent_turn (sd_kind sd))
             then Some None
           else Some (Some (squote (qr_stage row) @ '' is not an agent_turn stage'')))
      | Some grp \<Rightarrow>
          (if ws_current_stage state \<noteq> grp then
             Some (Some (''the task has moved on from '' @ squote grp @ '' to '' @ squote (ws_current_stage state)))
           else validate_branch_row row grp (ws_payload state) current))"

definition queue_admission :: "string \<Rightarrow> string \<Rightarrow> string" where
  "queue_admission previous why =
     ''the session '' @ previous @ '' that this queued turn was to resume '' @ why"

text \<open>resume_for_row: the session a queued retry recorded, \<open>Inl\<close> the admission error.\<close>

definition resume_for_row :: "queue_row \<Rightarrow> session option \<Rightarrow> (string, resume_session option) result" where
  "resume_for_row row found =
     (case qr_resume_session_id row of
        None \<Rightarrow> Inr None
      | Some previous \<Rightarrow>
          (case found of
             None \<Rightarrow> Inl (queue_admission previous ''no longer exists'')
           | Some session \<Rightarrow>
               (case se_adapter_session_id session of
                  None \<Rightarrow> Inl (queue_admission previous ''has no adapter session id'')
                | Some adapter_id \<Rightarrow>
                    (case se_end_reason session of
                       None \<Rightarrow> Inl (queue_admission previous ''has no end reason'')
                     | Some reason \<Rightarrow>
                         Inr (Some \<lparr>re_adapter_session_id = adapter_id, re_cli_adapter = se_cli_adapter session,
                                    re_previous_session_id = se_id session, re_end_reason = reason\<rparr>)))))"

section \<open>Admitting\<close>

text \<open>
  What launching answers: a session, a row that was gone, or an error as it is displayed (with
  whether the row had been taken off the queue by then).
\<close>

datatype launched = LaunchedSession string | RowVanished | LaunchFailed bool string

text \<open>
  The reads of admit, each \<open>None\<close> (or \<open>Inl\<close> the error) when the database fails it; then the answers
  of prepare_turn and launch_turn.
\<close>

record dispatch_reads =
  dr_task :: "queue_task option option"
  dr_state :: "workflow_state option option"
  dr_definition :: "(string, workflow_definition) result"
  dr_current_session :: "session option option"
  dr_resume_session :: "(string, session option) result"
  dr_prepared :: "resume_session option \<Rightarrow> (string, unit) result"
  dr_launched :: launched

datatype admission =
    RowStays
  | RowWithdrawn string
  | AdmissionFailed "workflow_definition option" string
  | Launching workflow_definition "resume_session option"

definition launching ::
  "dispatch_reads \<Rightarrow> workflow_definition \<Rightarrow> resume_session option \<Rightarrow> bool \<Rightarrow> string \<Rightarrow> admission"
where
  "launching rd d resume known gone =
     (if \<not> known then RowWithdrawn gone
      else (case dr_prepared rd resume of
              Inl err \<Rightarrow> AdmissionFailed (Some d) err
            | Inr _ \<Rightarrow> Launching d resume))"

definition admission_rebuild :: "dispatch_reads \<Rightarrow> queue_row \<Rightarrow> workflow_definition \<Rightarrow> admission" where
  "admission_rebuild rd row d =
     (case and_then (dr_resume_session rd) (resume_for_row row) of
        Inl err \<Rightarrow> AdmissionFailed (Some d) err
      | Inr resume \<Rightarrow>
          (case qr_group_stage row of
             None \<Rightarrow> launching rd d resume (stage_of d (qr_stage row) \<noteq> None)
                       ''the stage is no longer in the workflow''
           | Some grp \<Rightarrow>
               launching rd d resume
                 (Option.bind (Option.bind (stage_of d grp) (\<lambda>s. group_branches (sd_kind s)))
                    (\<lambda>bs. map_of bs (qr_stage row)) \<noteq> None)
                 ''the branch is no longer in the workflow''))"

definition admission :: "dispatch_reads \<Rightarrow> queue_row \<Rightarrow> admission" where
  "admission rd row =
     (case dr_task rd of
        None \<Rightarrow> RowStays
      | Some task \<Rightarrow>
          (case queue_row_fate (map_option qt_status task) of
             Withdraw \<Rightarrow>
               RowWithdrawn (case task of Some t \<Rightarrow> ''the task is '' @ qt_status t
                             | None \<Rightarrow> ''the task no longer exists'')
           | Keep \<Rightarrow> RowStays
           | Admissible \<Rightarrow>
               (case dr_state rd of
                  None \<Rightarrow> RowStays
                | Some None \<Rightarrow> RowWithdrawn ''the task has no workflow state''
                | Some (Some state) \<Rightarrow>
                    (case dr_definition rd of
                       Inl err \<Rightarrow>
                         AdmissionFailed None (''the task'' @ [CHR 0x27] @ ''s workflow could not be loaded: '' @ err)
                     | Inr d \<Rightarrow>
                         (case validate_row row state d (dr_current_session rd) of
                            None \<Rightarrow> RowStays
                          | Some (Some why) \<Rightarrow> RowWithdrawn why
                          | Some None \<Rightarrow> admission_rebuild rd row d)))))"

datatype pass = Progress | Idle | Stalled

definition withdraw_row :: "queue_row \<Rightarrow> queue_db \<Rightarrow> queue_db" where
  "withdraw_row row db = snd (queue_delete (qr_id row) db)"

text \<open>How a failed admission is recorded: as the failed start of a branch, or as a stuck task.\<close>

datatype failure = StuckTask string | FailedStart string string string

definition failure_of :: "workflow_definition option \<Rightarrow> queue_row \<Rightarrow> string \<Rightarrow> failure" where
  "failure_of d row err =
     (case qr_group_stage row of
        None \<Rightarrow> StuckTask (''stage '' @ squote (qr_stage row)
                           @ '': failed to start after waiting in the queue: '' @ err)
      | Some grp \<Rightarrow>
          (case Option.bind (Option.bind d (\<lambda>d. stage_of d grp)) (\<lambda>s. group_branches (sd_kind s)) of
             Some _ \<Rightarrow> FailedStart grp (qr_stage row) err
           | None \<Rightarrow> StuckTask (''stage '' @ squote grp @ '': branch '' @ squote (qr_stage row)
                               @ '' failed to start after waiting in the queue: '' @ err)))"

text \<open>
  fail_admission_inner: the row goes and the permit is dropped first, then the failure is recorded
  (\<open>record\<close>: whether it could be, and what it leaves); an unrecorded one puts the row back.
\<close>

definition fail_admission ::
  "(failure \<Rightarrow> turn_gate \<times> queue_db \<Rightarrow> bool \<times> turn_gate \<times> queue_db) \<Rightarrow> workflow_definition option \<Rightarrow>
   queue_row \<Rightarrow> string \<Rightarrow> u64 option \<Rightarrow> turn_gate \<times> queue_db \<Rightarrow> pass \<times> turn_gate \<times> queue_db"
where
  "fail_admission record_failure d row err permit s =
     (case queue_delete (qr_id row) (snd s) of (deleted, db) \<Rightarrow>
      (let g = (case permit of None \<Rightarrow> fst s | Some i \<Rightarrow> remove_permit i (fst s));
           g = hold_restoring (qr_project_id row) g
       in case record_failure (failure_of d row err) (g, db) of (recorded, g, db) \<Rightarrow>
            (if recorded then (Progress, drop_restoring (qr_project_id row) g, db)
             else (Stalled, drop_restoring (qr_project_id row) g,
                   if deleted then (case queue_restore row db of None \<Rightarrow> db | Some db \<Rightarrow> db) else db))))"

definition admit ::
  "(failure \<Rightarrow> turn_gate \<times> queue_db \<Rightarrow> bool \<times> turn_gate \<times> queue_db) \<Rightarrow> dispatch_reads \<Rightarrow> queue_row \<Rightarrow>
   u64 \<Rightarrow> turn_gate \<times> queue_db \<Rightarrow> pass \<times> turn_gate \<times> queue_db"
where
  "admit record_failure rd row permit s =
     (case admission rd row of
        RowStays \<Rightarrow> (Stalled, remove_permit permit (fst s), snd s)
      | RowWithdrawn why \<Rightarrow> (Progress, remove_permit permit (fst s), withdraw_row row (snd s))
      | AdmissionFailed d err \<Rightarrow> fail_admission record_failure d row err (Some permit) s
      | Launching d resume \<Rightarrow>
          (case dr_launched rd of
             LaunchedSession _ \<Rightarrow> (Progress, fst s, withdraw_row row (snd s))
           | RowVanished \<Rightarrow> (Progress, remove_permit permit (fst s), snd s)
           | LaunchFailed taken err \<Rightarrow>
               fail_admission record_failure (Some d) row err None
                 (remove_permit permit (fst s), if taken then withdraw_row row (snd s) else snd s)))"

text \<open>
  One pass. Between the two looks the task's lock is awaited, and config.yaml is read again.
\<close>

definition dispatch_pass ::
  "(string, u32 option) result \<times> (string, u32 option) result \<Rightarrow>
   (turn_gate \<times> queue_db \<Rightarrow> turn_gate \<times> queue_db) \<Rightarrow>
   (queue_row \<Rightarrow> u64 \<Rightarrow> turn_gate \<times> queue_db \<Rightarrow> pass \<times> turn_gate \<times> queue_db) \<Rightarrow>
   turn_gate \<times> queue_db \<Rightarrow> pass \<times> turn_gate \<times> queue_db"
where
  "dispatch_pass configs between admit_row s =
     (case pick (fst configs) None True (fst s) (snd s) of
        (Inl err, s) \<Rightarrow> (Idle, s)
      | (Inr p, s) \<Rightarrow>
          (case pk_row p of
             None \<Rightarrow> (if pk_withdrawn p = [] then Idle else Progress, s)
           | Some found \<Rightarrow>
               (case between s of (g, db) \<Rightarrow>
                (case pick (snd configs) (Some (qr_id found)) False g db of
                   (Inl err, s) \<Rightarrow> (Idle, s)
                 | (Inr p, s) \<Rightarrow>
                     (case (pk_row p, pk_permit p) of
                        (Some row, Some permit) \<Rightarrow> admit_row row permit s
                      | _ \<Rightarrow> (Progress, s))))))"

section \<open>What the API shows\<close>

record agent_pool =
  ap_pool :: string
  ap_name :: string
  ap_limit :: "u32 option"
  ap_running :: nat
  ap_queued :: nat

record queued_turn =
  qu_stage :: string
  qu_group :: "string option"
  qu_position :: nat
  qu_pool :: string
  qu_pool_name :: string
  qu_limit :: "u32 option"
  qu_running :: nat
  qu_unlimited_because :: "string option"
  qu_queued_at :: time

record server_queued_turn =
  sq_task_id :: string
  sq_title :: string
  sq_turn :: queued_turn

record queue_snapshot =
  sn_pools :: "agent_pool list"
  sn_turns :: "server_queued_turn list"
  sn_entries :: "int option list"
  sn_queue_error :: "string option"

definition queued_for :: "queue_snapshot \<Rightarrow> string \<Rightarrow> queued_turn list" where
  "queued_for sn task_id = map sq_turn (filter (\<lambda>t. sq_task_id t = task_id) (sn_turns sn))"

definition position_of :: "queue_snapshot \<Rightarrow> string \<Rightarrow> string \<Rightarrow> string option \<Rightarrow> nat option" where
  "position_of sn task_id stage grp =
     map_option (\<lambda>t. qu_position (sq_turn t))
       (find (\<lambda>t. sq_task_id t = task_id \<and> qu_stage (sq_turn t) = stage \<and> qu_group (sq_turn t) = grp)
          (sn_turns sn))"

definition is_queued :: "queue_snapshot \<Rightarrow> string \<Rightarrow> string \<Rightarrow> string option \<Rightarrow> int option \<Rightarrow> bool" where
  "is_queued sn task_id stage grp entry =
     list_ex (\<lambda>(t, e). sq_task_id t = task_id \<and> qu_stage (sq_turn t) = stage
         \<and> qu_group (sq_turn t) = grp \<and> (entry = None \<or> e = entry))
       (zip (sn_turns sn) (sn_entries sn))"

text \<open>The projects with a cap, by name and then by id (a stable sort by name of the list by id).\<close>

definition capped_projects :: "queue_db \<Rightarrow> (string \<times> string \<times> u32) list" where
  "capped_projects db =
     sort_key (\<lambda>(i, n, l). n) (sort_key fst
       (List.map_filter (\<lambda>(i, p). map_option (\<lambda>l. (i, qp_name p, l)) (map_of (project_caps db) i))
          (qd_projects db)))"

definition pool_view :: "pool_key \<Rightarrow> string \<Rightarrow> u32 option \<Rightarrow> turn_gate \<Rightarrow> caps \<Rightarrow> placed list \<Rightarrow> agent_pool" where
  "pool_view key name limit g caps ps =
     \<lparr>ap_pool = pool_wire key, ap_name = name, ap_limit = limit, ap_running = running_in key caps g,
      ap_queued = length (filter (\<lambda>p. pl_pool p = key) ps)\<rparr>"

definition pools_view :: "u32 option \<Rightarrow> turn_gate \<Rightarrow> queue_db \<Rightarrow> placed list \<Rightarrow> agent_pool list" where
  "pools_view server g db ps =
     pool_view Server ''server'' server g (project_caps db) ps
     # map (\<lambda>(i, n, l). pool_view (Project i) n (Some l) g (project_caps db) ps) (capped_projects db)"

definition turn_view ::
  "string option \<Rightarrow> turn_gate \<Rightarrow> agent_pool list \<Rightarrow> placed \<Rightarrow> server_queued_turn"
where
  "turn_view config_error g pools p =
     (let wire = pool_wire (pl_pool p);
          pool = find (\<lambda>q. ap_pool q = wire) pools;
          limit = Option.bind pool ap_limit
      in \<lparr>sq_task_id = qr_task_id (pl_row p), sq_title = qr_title (pl_row p),
          sq_turn =
            \<lparr>qu_stage = qr_stage (pl_row p), qu_group = qr_group_stage (pl_row p),
             qu_position = pl_position p, qu_pool = wire,
             qu_pool_name = (case pool of Some q \<Rightarrow> ap_name q | None \<Rightarrow> []), qu_limit = limit,
             qu_running = (case pool of Some q \<Rightarrow> ap_running q | None \<Rightarrow> 0),
             qu_unlimited_because =
               (if limit \<noteq> None then None
                else if wire = pool_wire Server \<and> config_error \<noteq> None then
                  map_option (\<lambda>e. ''config: '' @ e) config_error
                else if tg_stopping g then Some ''stopping'' else None),
             qu_queued_at = qr_queued_at (pl_row p)\<rparr>\<rparr>)"

definition queue_snapshot :: "(string, u32 option) result \<Rightarrow> turn_gate \<Rightarrow> queue_db \<Rightarrow> queue_snapshot" where
  "queue_snapshot config g db =
     (let server = (case config of Inr m \<Rightarrow> m | Inl e \<Rightarrow> None);
          config_error = (case config of Inr m \<Rightarrow> None | Inl e \<Rightarrow> Some e);
          ps = place (queue_list db) (project_caps db);
          pools = pools_view server g db ps
      in \<lparr>sn_pools = pools, sn_turns = map (turn_view config_error g pools) ps,
          sn_entries = map (\<lambda>p. qr_group_entry (pl_row p)) ps,
          sn_queue_error = (case tg_queue_error g of Some e \<Rightarrow> Some e | None \<Rightarrow> config_error)\<rparr>)"

section \<open>Lemmas\<close>

lemma pool_wire_inj: "pool_wire a = pool_wire b \<longleftrightarrow> a = b"
  by (cases a; cases b) auto

lemma map_filter_set: "set (List.map_filter f xs) = {y. \<exists>x\<in>set xs. f x = Some y}"
  by (force simp: List.map_filter_def)

lemma capped_set:
  "(i, n, l) \<in> set (capped_projects db) \<longleftrightarrow>
     (\<exists>p. (i, p) \<in> set (qd_projects db) \<and> qp_name p = n \<and> map_of (project_caps db) i = Some l)"
  by (force simp: capped_projects_def map_filter_set)

lemma project_caps_known:
  "map_of (project_caps db) i = Some l \<Longrightarrow> \<exists>p. (i, p) \<in> set (qd_projects db)"
  by (force simp: project_caps_def map_filter_set dest!: map_of_SomeD split: option.splits if_splits)

lemma find_unique:
  assumes "x \<in> set xs" and "P x" and "\<And>y. y \<in> set xs \<Longrightarrow> P y \<Longrightarrow> y = x"
  shows "find P xs = Some x"
proof (cases "find P xs")
  case None
  with assms(1,2) show ?thesis by (auto simp: find_None_iff)
next
  case (Some y)
  then have "y \<in> set xs" "P y" by (auto simp: find_Some_iff)
  with assms(3) Some show ?thesis by simp
qed

text \<open>Every pool of a placed turn is shown, once, under its wire name.\<close>

lemma pool_shown:
  assumes "imap_ok (qd_projects db)" and "pl_pool p = pool_of project (project_caps db)"
  shows "\<exists>name. find (\<lambda>q. ap_pool q = pool_wire (pl_pool p)) (pools_view server g db ps) =
    Some (pool_view (pl_pool p) name (limit_of (pl_pool p) (project_caps db) server) g (project_caps db) ps)"
proof (cases "map_of (project_caps db) project")
  case None
  then have "pl_pool p = Server" using assms(2) by (simp add: pool_of_def)
  then show ?thesis by (simp add: pools_view_def pool_view_def)
next
  case (Some l)
  then have pool: "pl_pool p = Project project" using assms(2) by (simp add: pool_of_def)
  obtain pr where pr: "(project, pr) \<in> set (qd_projects db)" using project_caps_known [OF Some] ..
  let ?view = "pool_view (Project project) (qp_name pr) (Some l) g (project_caps db) ps"
  have "find (\<lambda>q. ap_pool q = pool_wire (Project project)) (pools_view server g db ps) = Some ?view"
  proof (rule find_unique)
    have "(project, qp_name pr, l) \<in> set (capped_projects db)" using pr Some by (auto simp: capped_set)
    then have "?view \<in> set (map (\<lambda>(i, n, l). pool_view (Project i) n (Some l) g (project_caps db) ps)
        (capped_projects db))" unfolding set_map by (rule rev_image_eqI) simp
    then show "?view \<in> set (pools_view server g db ps)" by (simp add: pools_view_def)
    show "ap_pool ?view = pool_wire (Project project)" by (simp add: pool_view_def)
    fix q assume q: "q \<in> set (pools_view server g db ps)" "ap_pool q = pool_wire (Project project)"
    have "distinct (map fst (qd_projects db))" using assms(1) by (simp add: imap_ok_def ikeys_def)
    then have "pr' = pr" if "(project, pr') \<in> set (qd_projects db)" for pr'
      using that pr by (auto dest: eq_key_imp_eq_value)
    with q Some show "q = ?view"
      by (auto simp: pools_view_def pool_view_def capped_set)
  qed
  then show ?thesis using Some by (auto simp: pool)
qed

lemma admissible_stays:
  "filter (\<lambda>r. is_admissible (qr_task_status r)) (filter (\<lambda>r. \<not> withdrawable r) rows) =
     filter (\<lambda>r. is_admissible (qr_task_status r)) rows"
  by (induction rows) (auto simp: withdrawable_def fate_admissible)

lemma issued_permit:
  "issue t p st g = (k, g') \<Longrightarrow>
     map_of (tg_running g') k = Some \<lparr>pi_task_id = t, pi_project_id = p, pi_stage = st, pi_settling = False\<rparr>"
  by (auto simp: issue_def add_permit_def Let_def)

text \<open>A restored row is back in its place.\<close>

lemma queue_list_restore:
  assumes "queue_ok db" and "queue_restore row db = Some db'"
    and "join_row db \<lparr>q_id = qr_id row, q_task_id = qr_task_id row, q_stage = qr_stage row,
           q_group_stage = qr_group_stage row, q_group_entry = qr_group_entry row,
           q_resume_session_id = qr_resume_session_id row, q_queued_at = qr_queued_at row\<rparr> = Some row"
  shows "queue_list db' = filter (\<lambda>r. qr_id r < qr_id row) (queue_list db) @ row
    # filter (\<lambda>r. qr_id r > qr_id row) (queue_list db)"
proof -
  let ?q = "\<lparr>q_id = qr_id row, q_task_id = qr_task_id row, q_stage = qr_stage row,
           q_group_stage = qr_group_stage row, q_group_entry = qr_group_entry row,
           q_resume_session_id = qr_resume_session_id row, q_queued_at = qr_queued_at row\<rparr>"
  let ?new = "filter (\<lambda>r. qr_id r < qr_id row) (queue_list db) @ row
    # filter (\<lambda>r. qr_id r > qr_id row) (queue_list db)"
  have db': "qd_queue db' = qd_queue db @ [?q]" "qd_tasks db' = qd_tasks db" "qd_projects db' = qd_projects db"
    and fresh: "\<forall>q\<in>set (qd_queue db). q_id q \<noteq> qr_id row"
    using assms(2) by (auto simp: queue_restore_def list_ex_iff split: if_splits)
  have same: "join_row db' = join_row db" by (rule ext) (simp add: join_row_def db')
  have set': "set (queue_list db') = insert row (set (queue_list db))"
    by (simp add: queue_list_def db' same map_filter_snoc [where f = "join_row db", OF assms(3)])
  have apart: "qr_id r \<noteq> qr_id row" if r: "r \<in> set (queue_list db)" for r
  proof -
    obtain q where "q \<in> set (qd_queue db)" "join_row db q = Some r"
      by (rule queue_list_mem [OF assms(1) r])
    with fresh show ?thesis by (auto dest: join_row_key)
  qed
  have old: "sorted_wrt (\<lambda>a b. qr_id a < qr_id b) (queue_list db)"
    using queue_list_ordered [OF assms(1)] by (simp add: sorted_wrt_map)
  have new: "sorted_wrt (\<lambda>a b. qr_id a < qr_id b) (queue_list db')"
    using queue_list_ordered [OF queue_ok_restore [OF assms(1,2)]] by (simp add: sorted_wrt_map)
  have "sorted_wrt (\<lambda>a b. qr_id a < qr_id b) ?new"
    using old by (auto simp: sorted_wrt_append sorted_wrt_filter)
  then have sorted: "sorted (map qr_id ?new)" "distinct (map qr_id ?new)"
    by (metis sorted_wrt_map strict_sorted_iff)+
  have sorted': "sorted (map qr_id (queue_list db'))" "distinct (map qr_id (queue_list db'))"
    using new by (metis sorted_wrt_map strict_sorted_iff)+
  have sets: "set (queue_list db') = set ?new" using set' apart by (auto simp: neq_iff)
  have "inj_on qr_id (set (queue_list db') \<union> set ?new)"
    unfolding sets using sorted(2) by (simp only: Un_absorb distinct_map)
  then show ?thesis
    using sorted sorted' sets by (intro map_sorted_distinct_set_unique [where f = qr_id]) simp_all
qed

section \<open>Properties\<close>

text \<open>
  C23. A free slot does not stay free while a turn waits for it: when the daemon is not stopping,
  config.yaml can be read and a turn waits in a pool with room, a dispatcher's pass that nothing
  interrupts comes to admit a waiting turn, holding a permit for it.
\<close>

theorem free_slot_is_filled:
  assumes "queue_ok db" and "\<not> tg_stopping g" and "waiting (queue_list db) (project_caps db) pool \<noteq> []"
    and "has_room (project_caps db) server g pool"
  shows "\<exists>row permit s. dispatch_pass (Inr server, Inr server) (\<lambda>s. s) admit_row (g, db) = admit_row row permit s
    \<and> row \<in> set (queue_list (snd s)) \<and> is_admissible (qr_task_status row)
    \<and> has_room (project_caps db) server g (pool_of (qr_project_id row) (project_caps db))
    \<and> map_of (tg_running (fst s)) permit =
        Some \<lparr>pi_task_id = qr_task_id row, pi_project_id = qr_project_id row, pi_stage = qr_stage row,
              pi_settling = False\<rparr>"
proof -
  let ?caps = "project_caps db" and ?g = "g\<lparr>tg_queue_error := None\<rparr>"
  obtain c where c: "candidate (queue_list db) ?caps server g = Some c"
    using assms(3,4) candidate_None [of "queue_list db" ?caps server g] by fastforce
  from candidate_Some [OF c] obtain rs where w: "waiting (queue_list db) ?caps (pl_pool c) = pl_row c # rs"
    "pl_pool c = pool_of (qr_project_id (pl_row c)) ?caps" "has_room ?caps server g (pl_pool c)" by blast
  have "pl_row c \<in> set (waiting (queue_list db) ?caps (pl_pool c))" by (simp add: w(1))
  then have row: "pl_row c \<in> set (queue_list db)" "is_admissible (qr_task_status (pl_row c))"
    by (simp_all add: waiting_def)
  obtain p g1 db1 where p: "pick (Inr server) None True g db = (Inr p, g1, db1)"
    using assms(2) by (cases "pick (Inr server) None True g db")
      (auto simp: pick_eq split: prod.splits if_splits)
  have rows1: "queue_list db1 = filter (\<lambda>r. \<not> withdrawable r) (queue_list db)"
    using withdraws_what_cannot_start [OF assms(1) p assms(2)] by blast
  have caps1: "project_caps db1 = ?caps" by (rule pick_caps [OF p])
  have first: "g1 = ?g" "pk_row p = Some (pl_row c)"
    using p row assms(2) c by (auto simp: pick_eq picked_from_def split: prod.splits if_splits)
  have "candidate (queue_list db1) ?caps server g = Some c"
    unfolding rows1 using c candidate_admissible [OF admissible_stays] by metis
  moreover have row1: "pl_row c \<in> set (queue_list db1)"
    using row by (simp add: rows1 withdrawable_def fate_admissible)
  moreover obtain k g2 where k: "issue (qr_task_id (pl_row c)) (qr_project_id (pl_row c)) (qr_stage (pl_row c)) ?g
      = (k, g2)" by fastforce
  ultimately have "pick (Inr server) (Some (qr_id (pl_row c))) False ?g db1 =
      (Inr \<lparr>pk_withdrawn = [], pk_row = Some (pl_row c), pk_permit = Some k\<rparr>, g2, db1)"
    using assms(2) by (auto simp: pick_eq picked_from_def caps1)
  then have "dispatch_pass (Inr server, Inr server) (\<lambda>s. s) admit_row (g, db) = admit_row (pl_row c) k (g2, db1)"
    using p first by (simp add: dispatch_pass_def)
  with row1 row w issued_permit [OF k] show ?thesis by (metis fst_conv snd_conv)
qed


text \<open>
  What the API shows of the queue agrees with itself: every waiting turn names a pool that is
  shown, with that pool's name, limit and running count, and a place between 1 and the pool's
  number of waiting turns; and that number is how many of the turns shown name the pool.
\<close>

theorem snapshot_agrees:
  assumes "imap_ok (qd_projects db)"
  shows "list_all (\<lambda>t. list_ex (\<lambda>q. ap_pool q = qu_pool (sq_turn t) \<and> ap_name q = qu_pool_name (sq_turn t)
             \<and> ap_limit q = qu_limit (sq_turn t) \<and> ap_running q = qu_running (sq_turn t)
             \<and> 1 \<le> qu_position (sq_turn t) \<and> qu_position (sq_turn t) \<le> ap_queued q)
           (sn_pools (queue_snapshot config g db)))
         (sn_turns (queue_snapshot config g db))
    \<and> list_all (\<lambda>q. ap_queued q = List.length (filter (\<lambda>t. qu_pool (sq_turn t) = ap_pool q)
             (sn_turns (queue_snapshot config g db))))
         (sn_pools (queue_snapshot config g db))"
proof -
  let ?caps = "project_caps db" and ?ps = "place (queue_list db) (project_caps db)"
  define server where "server = (case config of Inr m \<Rightarrow> m | Inl e \<Rightarrow> None)"
  define err where "err = (case config of Inr m \<Rightarrow> None | Inl e \<Rightarrow> Some e)"
  let ?pools = "pools_view server g db ?ps"
  have sn: "sn_pools (queue_snapshot config g db) = ?pools"
    "sn_turns (queue_snapshot config g db) = map (turn_view err g ?pools) ?ps"
    by (simp_all add: queue_snapshot_def server_def err_def Let_def)
  have wire: "qu_pool (sq_turn (turn_view err g ?pools p)) = pool_wire (pl_pool p)"
    "qu_position (sq_turn (turn_view err g ?pools p)) = pl_position p" for p
    by (simp_all add: turn_view_def Let_def)
  have place: "1 \<le> pl_position p \<and> pl_position p \<le> length (filter (\<lambda>q. pl_pool q = pl_pool p) ?ps)"
    if "p \<in> set ?ps" for p
  proof -
    have "pl_position p \<in> set (map pl_position (filter (\<lambda>q. pl_pool q = pl_pool p) ?ps))"
      using that by auto
    moreover have "length (filter (\<lambda>q. pl_pool q = pl_pool p) ?ps) = length (waiting (queue_list db) ?caps (pl_pool p))"
      using arg_cong [OF place_positions [of "pl_pool p" "queue_list db" ?caps], of length]
      by (simp del: upt_Suc)
    ultimately show ?thesis unfolding place_positions by auto
  qed
  have turns: "list_all (\<lambda>p. list_ex (\<lambda>q. ap_pool q = pool_wire (pl_pool p)
        \<and> ap_name q = qu_pool_name (sq_turn (turn_view err g ?pools p))
        \<and> ap_limit q = qu_limit (sq_turn (turn_view err g ?pools p))
        \<and> ap_running q = qu_running (sq_turn (turn_view err g ?pools p))
        \<and> 1 \<le> pl_position p \<and> pl_position p \<le> ap_queued q) ?pools) ?ps"
    unfolding list_all_iff
  proof
    fix p assume p: "p \<in> set ?ps"
    then have "pl_pool p = pool_of (qr_project_id (pl_row p)) ?caps"
      using placed_pool [of p ?caps "\<lambda>_. 0" "queue_list db"] by (simp add: place_def)
    from pool_shown [OF assms this] obtain name where f:
      "find (\<lambda>q. ap_pool q = pool_wire (pl_pool p)) ?pools =
         Some (pool_view (pl_pool p) name (limit_of (pl_pool p) ?caps server) g ?caps ?ps)"
      (is "_ = Some ?v") by blast
    then have "?v \<in> set ?pools" by (auto simp: find_Some_iff)
    then show "list_ex (\<lambda>q. ap_pool q = pool_wire (pl_pool p)
        \<and> ap_name q = qu_pool_name (sq_turn (turn_view err g ?pools p))
        \<and> ap_limit q = qu_limit (sq_turn (turn_view err g ?pools p))
        \<and> ap_running q = qu_running (sq_turn (turn_view err g ?pools p))
        \<and> 1 \<le> pl_position p \<and> pl_position p \<le> ap_queued q) ?pools"
      unfolding list_ex_iff
      by (intro bexI [of _ ?v]) (use place [OF p] f in \<open>auto simp: pool_view_def turn_view_def Let_def\<close>)
  qed
  have "ap_queued q = length (filter (\<lambda>p. pool_wire (pl_pool p) = ap_pool q) ?ps)" if q: "q \<in> set ?pools" for q
  proof -
    obtain key name limit where "q = pool_view key name limit g ?caps ?ps"
      using q by (auto simp: pools_view_def)
    then show ?thesis by (simp add: pool_view_def pool_wire_inj)
  qed
  then show ?thesis
    using turns unfolding sn
    by (simp add: list.pred_map list_all_iff wire filter_map comp_def)
qed

section \<open>Witnesses\<close>

theorem free_slot_is_filled_witness:
  "\<exists>(row :: queue_row) permit s. dispatch_pass (Inr (Some 1), Inr (Some 1)) (\<lambda>s. s) (\<lambda>row permit s. (Progress, s))
       (gate_new, example_queue) = (Progress, s)
     \<and> is_admissible (qr_task_status row) \<and> map_of (tg_running (fst s)) permit =
        Some \<lparr>pi_task_id = qr_task_id row, pi_project_id = qr_project_id row, pi_stage = qr_stage row,
              pi_settling = False\<rparr>"
proof -
  have live: "\<not> tg_stopping gate_new" by (simp add: gate_new_def)
  have waits: "waiting (queue_list example_queue) (project_caps example_queue) Server \<noteq> []"
    by (simp add: example_waits)
  have room: "has_room (project_caps example_queue) (Some 1) gate_new Server" by (simp add: has_room_def)
  from free_slot_is_filled [OF example_queue_ok live waits room,
      where admit_row = "\<lambda>row permit s. (Progress, s)"] show ?thesis by blast
qed


theorem snapshot_agrees_witness:
  "list_all (\<lambda>q. ap_queued q = List.length (filter (\<lambda>t. qu_pool (sq_turn t) = ap_pool q)
       (sn_turns (queue_snapshot (Inr (Some 1)) gate_new example_queue))))
     (sn_pools (queue_snapshot (Inr (Some 1)) gate_new example_queue))"
  using snapshot_agrees [of example_queue "Inr (Some 1)" gate_new]
  by (simp add: example_queue_def imap_ok_def ikeys_def)

end
