(* ===== verification/Tasks.thy ===== *)
theory Tasks
  imports Dispatch
begin

text \<open>
  The tasks table (chocofactoryd/src/db/tasks.rs): its rows, the queries the daemon reads it with
  and every statement that writes it. Each status change is one conditional UPDATE; the steps of
  \<open>task_step\<close> are these statements as the engine issues them (cancel_task's and
  advance_from_stage's checks under the task's lock are their premises). SQLite's json_patch is a
  parameter. list_summaries, a join made for the API's list, is left out.
\<close>

section \<open>Rows\<close>

record task =
  ts_id :: string
  ts_project_id :: string
  ts_workflow_def :: string
  ts_title :: string
  ts_status :: string
  ts_config :: json
  ts_worktree_repo :: "string option"
  ts_worktree_project :: "string option"
  ts_stuck_reason :: "string option"
  ts_kept_work :: bool
  ts_workflow_path :: "string option"
  ts_workflow_sha256 :: "string option"
  ts_base_ref :: "string option"
  ts_base_commit :: "string option"
  ts_closes :: "u64 list"
  ts_paused_at :: "time option"
  ts_created_at :: time
  ts_updated_at :: time

record new_task =
  nt_project_id :: string
  nt_workflow_def :: string
  nt_title :: string
  nt_config :: json
  nt_workflow_path :: "string option"
  nt_workflow_sha256 :: "string option"
  nt_base_ref :: "string option"
  nt_base_commit :: "string option"
  nt_closes :: "u64 list"

type_synonym tasks = "task list"

definition ACTIVE_STATUSES :: "string list" where
  "ACTIVE_STATUSES = [''open'', ''pausing'', ''paused'', ''stuck'']"

text \<open>
  \<open>create\<close>: the id is a fresh UUID; the PRIMARY KEY refuses one that is taken, and a row whose
  \<open>closes\<close> holds a zero does not decode, which fails the INSERT's RETURNING.
\<close>

definition create_task :: "string \<Rightarrow> time \<Rightarrow> new_task \<Rightarrow> tasks \<Rightarrow> tasks option" where
  "create_task i now new db =
     (if list_ex (\<lambda>t. ts_id t = i) db \<or> 0 \<in> set (nt_closes new) then None
      else Some (db @
        [\<lparr>ts_id = i, ts_project_id = nt_project_id new, ts_workflow_def = nt_workflow_def new,
          ts_title = nt_title new, ts_status = ''open'', ts_config = nt_config new,
          ts_worktree_repo = None, ts_worktree_project = None, ts_stuck_reason = None,
          ts_kept_work = False, ts_workflow_path = nt_workflow_path new,
          ts_workflow_sha256 = nt_workflow_sha256 new, ts_base_ref = nt_base_ref new,
          ts_base_commit = nt_base_commit new, ts_closes = nt_closes new, ts_paused_at = None,
          ts_created_at = now, ts_updated_at = now\<rparr>]))"

definition get_task :: "string \<Rightarrow> tasks \<Rightarrow> task option" where
  "get_task i db = find (\<lambda>t. ts_id t = i) db"

definition list_tasks :: "string option \<Rightarrow> string option \<Rightarrow> tasks \<Rightarrow> tasks" where
  "list_tasks project status db =
     sort_key ts_id (filter (\<lambda>t. (project = None \<or> project = Some (ts_project_id t))
                              \<and> (status = None \<or> status = Some (ts_status t))) db)"

definition count_active_with_workflow_path_prefix :: "string \<Rightarrow> tasks \<Rightarrow> nat" where
  "count_active_with_workflow_path_prefix prefix' db =
     length (filter (\<lambda>t. ts_status t \<in> set ACTIVE_STATUSES
       \<and> (case ts_workflow_path t of None \<Rightarrow> False | Some p \<Rightarrow> starts_with prefix' p)) db)"

definition active_workflow_defs_without_path :: "tasks \<Rightarrow> string list" where
  "active_workflow_defs_without_path db =
     map ts_workflow_def (filter (\<lambda>t. ts_status t \<in> set ACTIVE_STATUSES \<and> ts_workflow_path t = None) db)"

text \<open>\<open>count_by_status\<close>: a BTreeMap, so the statuses come sorted.\<close>

definition count_by_status :: "tasks \<Rightarrow> (string \<times> nat) list" where
  "count_by_status db =
     map (\<lambda>s. (s, length (filter (\<lambda>t. ts_status t = s) db))) (sort (remdups (map ts_status db)))"

text \<open>
  The pull-request number at the end of a URL: the regular expression \<open>/pull/(\d+)/?$\<close> leaves one
  way to match, the digits before an optional last slash.
\<close>

definition pr_ref :: "string \<Rightarrow> (u64 \<times> string) option" where
  "pr_ref url =
     (let s = (case strip_suffix ''/'' url of Some s \<Rightarrow> s | None \<Rightarrow> url);
          digits = rev (takeWhile is_digit (rev s));
          rest = rev (dropWhile is_digit (rev s))
      in if digits \<noteq> [] \<and> strip_suffix ''/pull/'' rest \<noteq> None \<and> read_nat digits < 2 ^ 64
         then Some (of_nat (read_nat digits), url) else None)"

section \<open>Writes\<close>

text \<open>An UPDATE of the rows that meet a condition, and whether there were any.\<close>

definition update_tasks :: "(task \<Rightarrow> bool) \<Rightarrow> (task \<Rightarrow> task) \<Rightarrow> tasks \<Rightarrow> bool \<times> tasks" where
  "update_tasks hit f db = (list_ex hit db, map (\<lambda>t. if hit t then f t else t) db)"

definition update_task_status :: "string \<Rightarrow> string \<Rightarrow> time \<Rightarrow> tasks \<Rightarrow> bool \<times> tasks" where
  "update_task_status i status now =
     update_tasks (\<lambda>t. ts_id t = i)
       (\<lambda>t. t\<lparr>ts_status := status, ts_stuck_reason := None, ts_paused_at := None, ts_updated_at := now\<rparr>)"

text \<open>
  The columns of this table the queue's queries join with (\<open>qd_tasks\<close> of the queue's database),
  read off the rows.
\<close>

definition joined_tasks :: "tasks \<Rightarrow> queue_db \<Rightarrow> queue_db" where
  "joined_tasks db q = q\<lparr>qd_tasks := map (\<lambda>t. (ts_id t,
     \<lparr>qt_title = ts_title t, qt_project_id = ts_project_id t, qt_status = ts_status t\<rparr>)) db\<rparr>"

text \<open>\<open>mark_cancelled\<close>: one transaction with the DELETE of the task's queued turns.\<close>

definition mark_cancelled ::
  "string \<Rightarrow> bool \<Rightarrow> time \<Rightarrow> tasks \<times> queue_db \<Rightarrow> (string \<times> string option) list option \<times> tasks \<times> queue_db"
where
  "mark_cancelled i kept now dbs =
     (case update_tasks (\<lambda>t. ts_id t = i)
         (\<lambda>t. t\<lparr>ts_status := ''cancelled'', ts_kept_work := kept, ts_stuck_reason := None,
               ts_paused_at := None, ts_updated_at := now\<rparr>) (fst dbs) of
        (hit, db) \<Rightarrow>
          if \<not> hit then (None, dbs)
          else (case delete_for_task i (snd dbs) of (withdrawn, q) \<Rightarrow> (Some withdrawn, db, joined_tasks db q)))"

definition mark_stuck_in :: "string \<Rightarrow> string \<Rightarrow> time \<Rightarrow> tasks \<Rightarrow> bool \<times> tasks" where
  "mark_stuck_in i reason now =
     update_tasks (\<lambda>t. ts_id t = i \<and> ts_status t \<in> {''open'', ''pausing'', ''paused''})
       (\<lambda>t. t\<lparr>ts_status := ''stuck'', ts_stuck_reason := Some reason, ts_paused_at := None, ts_updated_at := now\<rparr>)"

definition mark_pausing :: "string \<Rightarrow> time \<Rightarrow> time \<Rightarrow> tasks \<Rightarrow> bool \<times> tasks" where
  "mark_pausing i paused_at now =
     update_tasks (\<lambda>t. ts_id t = i \<and> ts_status t = ''open'')
       (\<lambda>t. t\<lparr>ts_status := ''pausing'', ts_paused_at := Some paused_at, ts_updated_at := now\<rparr>)"

definition mark_paused_in :: "string \<Rightarrow> time \<Rightarrow> tasks \<Rightarrow> bool \<times> tasks" where
  "mark_paused_in i now =
     update_tasks (\<lambda>t. ts_id t = i \<and> ts_status t = ''pausing'')
       (\<lambda>t. t\<lparr>ts_status := ''paused'', ts_updated_at := now\<rparr>)"

definition resume_in :: "string \<Rightarrow> time \<Rightarrow> tasks \<Rightarrow> bool \<times> tasks" where
  "resume_in i now =
     update_tasks (\<lambda>t. ts_id t = i \<and> ts_status t \<in> {''pausing'', ''paused''})
       (\<lambda>t. t\<lparr>ts_status := ''open'', ts_paused_at := None, ts_updated_at := now\<rparr>)"

definition reopen_stuck :: "string \<Rightarrow> time \<Rightarrow> tasks \<Rightarrow> bool \<times> tasks" where
  "reopen_stuck i now =
     update_tasks (\<lambda>t. ts_id t = i \<and> ts_status t = ''stuck'')
       (\<lambda>t. t\<lparr>ts_status := ''open'', ts_stuck_reason := None, ts_updated_at := now\<rparr>)"

definition merge_config :: "(json \<Rightarrow> json \<Rightarrow> json) \<Rightarrow> string \<Rightarrow> json \<Rightarrow> time \<Rightarrow> tasks \<Rightarrow> bool \<times> tasks" where
  "merge_config json_patch i patch now =
     update_tasks (\<lambda>t. ts_id t = i)
       (\<lambda>t. t\<lparr>ts_config := json_patch (ts_config t) patch, ts_updated_at := now\<rparr>)"

definition set_worktree :: "string \<Rightarrow> string \<Rightarrow> string \<Rightarrow> time \<Rightarrow> tasks \<Rightarrow> bool \<times> tasks" where
  "set_worktree i repo project now =
     update_tasks (\<lambda>t. ts_id t = i)
       (\<lambda>t. t\<lparr>ts_worktree_repo := Some repo, ts_worktree_project := Some project, ts_updated_at := now\<rparr>)"

text \<open>\<open>delete\<close>: the task's queued turns go first, in the same transaction.\<close>

definition delete_task :: "string \<Rightarrow> tasks \<times> queue_db \<Rightarrow> bool \<times> tasks \<times> queue_db" where
  "delete_task i dbs =
     (let db = filter (\<lambda>t. ts_id t \<noteq> i) (fst dbs)
      in (list_ex (\<lambda>t. ts_id t = i) (fst dbs), db,
          joined_tasks db (snd (delete_for_task i (snd dbs)))))"

section \<open>Stopping a task\<close>

datatype stuck_mark = Marked | NotMarked | WriteFailed

text \<open>
  mark_stuck of the engine: one transaction with the task's error event. \<open>event_ok\<close>: whether the
  event could be written (or was already, by the caller); when not, the transaction is dropped.
\<close>

definition mark_stuck ::
  "bool \<Rightarrow> string \<Rightarrow> string \<Rightarrow> time \<Rightarrow> tasks \<Rightarrow> stuck_mark \<times> tasks"
where
  "mark_stuck event_ok i reason now db =
     (case mark_stuck_in i reason now db of (hit, db') \<Rightarrow>
        if \<not> hit then (NotMarked, db)
        else if \<not> event_ok then (WriteFailed, db)
        else (Marked, db'))"

datatype cancel_error = CancelNoSuchTask | NotCancellable string

text \<open>What cancelling leaves to be done once the row is written: the worktree and the branch.\<close>

datatype cleanup = LeaveWork | RemoveWorktree

definition worktree_snapshot :: "task \<Rightarrow> (string \<times> string) option" where
  "worktree_snapshot t =
     (case (ts_worktree_repo t, ts_worktree_project t) of
        (Some repo, Some project) \<Rightarrow> Some (repo, project) | _ \<Rightarrow> None)"

definition cancel_task ::
  "string \<Rightarrow> bool \<Rightarrow> time \<Rightarrow> tasks \<times> queue_db \<Rightarrow>
   (cancel_error, (string \<times> string option) list \<times> cleanup \<times> tasks \<times> queue_db) result"
where
  "cancel_task i keep now dbs =
     (case get_task i (fst dbs) of
        None \<Rightarrow> Inl CancelNoSuchTask
      | Some t \<Rightarrow>
          (if ts_status t = TASK_STATUS_CANCELLED \<or> ts_status t = TASK_STATUS_CLOSED
           then Inl (NotCancellable (ts_status t))
           else (case mark_cancelled i keep now dbs of
                   (None, _) \<Rightarrow> Inl CancelNoSuchTask
                 | (Some withdrawn, dbs) \<Rightarrow>
                     Inr (withdrawn,
                          if \<not> keep \<and> worktree_snapshot t \<noteq> None then RemoveWorktree else LeaveWork,
                          dbs))))"

section \<open>The life of a task\<close>

text \<open>
  Every write of the daemon to the table; \<open>delete\<close> is called by tests alone. The only status \<open>update_status\<close> is called with is
  \<open>closed\<close>, on entering a terminal stage, for a task that was not cancelled (the check is under the
  same lock).
\<close>

inductive task_step :: "tasks \<Rightarrow> tasks \<Rightarrow> bool" where
  created: "create_task i now new db = Some db' \<Longrightarrow> task_step db db'"
| closed: "get_task i db = Some t \<Longrightarrow> ts_status t \<noteq> TASK_STATUS_CANCELLED \<Longrightarrow>
    task_step db (snd (update_task_status i TASK_STATUS_CLOSED now db))"
| cancelled: "cancel_task i keep now (db, q) = Inr (ws, c, db', q') \<Longrightarrow> task_step db db'"
| stuck: "task_step db (snd (mark_stuck event_ok i reason now db))"
| pausing: "task_step db (snd (mark_pausing i paused_at now db))"
| paused: "task_step db (snd (mark_paused_in i now db))"
| resumed: "task_step db (snd (resume_in i now db))"
| reopened: "task_step db (snd (reopen_stuck i now db))"
| configured: "task_step db (snd (merge_config json_patch i patch now db))"
| placed_in: "task_step db (snd (set_worktree i repo project now db))"

definition task_ok :: "task \<Rightarrow> bool" where
  "task_ok t =
     ((ts_stuck_reason t \<noteq> None \<longleftrightarrow> ts_status t = ''stuck'')
      \<and> (ts_paused_at t \<noteq> None \<longleftrightarrow> ts_status t = ''pausing'' \<or> ts_status t = ''paused'')
      \<and> (ts_kept_work t \<longrightarrow> ts_status t = ''cancelled'')
      \<and> ts_status t \<in> {''open'', ''pausing'', ''paused'', ''stuck'', ''closed'', ''cancelled''})"

definition tasks_ok :: "tasks \<Rightarrow> bool" where
  "tasks_ok db = (distinct (map ts_id db) \<and> list_all task_ok db)"


section \<open>Every write keeps the rows in order\<close>

lemma map_unchanged_field [simp]:
  "(\<And>t. fld (f t) = fld t) \<Longrightarrow> map fld (snd (update_tasks hit f db)) = map fld db"
  by (simp add: update_tasks_def)

lemma update_tasks_ok:
  assumes ok: "tasks_ok db"
    and keeps: "\<And>t. ts_id (f t) = ts_id t"
    and row: "\<And>t. t \<in> set db \<Longrightarrow> hit t \<Longrightarrow> task_ok t \<Longrightarrow> task_ok (f t)"
  shows "tasks_ok (snd (update_tasks hit f db))"
proof -
  have "list_all task_ok (snd (update_tasks hit f db))"
    using ok row by (auto simp: tasks_ok_def update_tasks_def list_all_iff)
  then show ?thesis
    using ok keeps by (simp add: tasks_ok_def)
qed

lemmas row_writes =
  update_task_status_def mark_stuck_in_def mark_pausing_def mark_paused_in_def resume_in_def
  reopen_stuck_def merge_config_def set_worktree_def

lemma get_task_unique:
  assumes "tasks_ok db" and "get_task i db = Some t" and "u \<in> set db" and "ts_id u = i"
  shows "u = t"
proof -
  have "t \<in> set db" and "ts_id t = i"
    using assms(2) by (auto simp: get_task_def find_Some_iff)
  then show ?thesis
    using assms(1,3,4) by (auto simp: tasks_ok_def distinct_map inj_on_def)
qed

lemma create_keeps_ok: "create_task i now new db = Some db' \<Longrightarrow> tasks_ok db \<Longrightarrow> tasks_ok db'"
  by (auto simp: create_task_def tasks_ok_def task_ok_def list_ex_iff split: if_splits)

lemma close_keeps_ok:
  assumes "tasks_ok db" and "get_task i db = Some t" and "ts_status t \<noteq> TASK_STATUS_CANCELLED"
  shows "tasks_ok (snd (update_task_status i TASK_STATUS_CLOSED now db))"
  unfolding update_task_status_def
  by (rule update_tasks_ok [OF assms(1)])
    (use assms(3) get_task_unique [OF assms(1,2)] in
      \<open>auto simp: task_ok_def TASK_STATUS_CLOSED_def TASK_STATUS_CANCELLED_def\<close>)

text \<open>A cancel that went through is this write, on a row that was neither cancelled nor closed.\<close>

lemma cancel_task_Inr:
  assumes "cancel_task i keep now (db, q) = Inr (ws, c, db', q')"
  obtains t where "get_task i db = Some t"
    and "ts_status t \<noteq> TASK_STATUS_CANCELLED" and "ts_status t \<noteq> TASK_STATUS_CLOSED"
    and "db' = snd (update_tasks (\<lambda>t. ts_id t = i)
         (\<lambda>t. t\<lparr>ts_status := ''cancelled'', ts_kept_work := keep, ts_stuck_reason := None,
               ts_paused_at := None, ts_updated_at := now\<rparr>) db)"
    and "ws = fst (delete_for_task i q)" and "q' = joined_tasks db' (snd (delete_for_task i q))"
    and "c = (if \<not> keep \<and> worktree_snapshot t \<noteq> None then RemoveWorktree else LeaveWork)"
  using assms
  by (auto simp: cancel_task_def mark_cancelled_def update_tasks_def
      split: option.splits if_splits prod.splits)

lemma cancel_keeps_ok:
  "cancel_task i keep now (db, q) = Inr (ws, c, db', q') \<Longrightarrow> tasks_ok db \<Longrightarrow> tasks_ok db'"
  by (elim cancel_task_Inr, hypsubst, rule update_tasks_ok) (auto simp: task_ok_def)

lemma mark_stuck_rows:
  "snd (mark_stuck event_ok i reason now db) = db
   \<or> snd (mark_stuck event_ok i reason now db) = snd (mark_stuck_in i reason now db)"
  by (auto simp: mark_stuck_def split: prod.splits)

lemma mark_stuck_in_ok: "tasks_ok db \<Longrightarrow> tasks_ok (snd (mark_stuck_in i reason now db))"
  unfolding mark_stuck_in_def by (rule update_tasks_ok) (auto simp: task_ok_def)

lemma task_step_ok:
  assumes "task_step db db'" and "tasks_ok db"
  shows "tasks_ok db'"
  using assms
proof (induction rule: task_step.induct)
  case (stuck db event_ok i reason now)
  then show ?case
    using mark_stuck_rows [of event_ok i reason now db] mark_stuck_in_ok by metis
next
  case closed
  then show ?case
    by (intro close_keeps_ok)
qed (auto simp: row_writes task_ok_def intro!: update_tasks_ok
    intro: create_keeps_ok cancel_keeps_ok)

lemma tasks_ok_Nil: "tasks_ok []"
  by (simp add: tasks_ok_def)

lemma task_steps_ok: "task_step\<^sup>*\<^sup>* db db' \<Longrightarrow> tasks_ok db \<Longrightarrow> tasks_ok db'"
  by (induction rule: rtranclp_induct) (auto intro: task_step_ok)


text \<open>
  C19. Whatever the daemon did since the table was empty: ids are distinct, a row has a stuck reason
  just when it is stuck, a pause time just when it is pausing or paused, only a cancelled task has
  kept its work, and the status is one of the six.
\<close>

theorem task_rows_consistent:
  assumes "task_step\<^sup>*\<^sup>* [] db"
  shows "distinct (map ts_id db)
    \<and> list_all (\<lambda>t. (ts_stuck_reason t \<noteq> None) = (ts_status t = ''stuck'')
        \<and> (ts_paused_at t \<noteq> None) = (ts_status t = ''pausing'' \<or> ts_status t = ''paused'')
        \<and> (if ts_kept_work t then ts_status t = ''cancelled'' else True)
        \<and> ts_status t \<in> {''open'', ''pausing'', ''paused'', ''stuck'', ''closed'', ''cancelled''}) db"
  using task_steps_ok [OF assms tasks_ok_Nil] by (auto simp: tasks_ok_def task_ok_def list_all_iff)

section \<open>Tasks that are over\<close>

abbreviation over :: "task \<Rightarrow> bool" where
  "over t \<equiv> ts_status t = TASK_STATUS_CANCELLED \<or> ts_status t = TASK_STATUS_CLOSED"

lemma find_map_same:
  "(\<And>t. key (f t) = key t) \<Longrightarrow>
   find (\<lambda>t. key t = i) (map f db) = map_option f (find (\<lambda>t. key t = i) db)"
  by (induction db) auto

lemma get_update:
  "(\<And>t. ts_id (f t) = ts_id t) \<Longrightarrow>
   get_task i (snd (update_tasks hit f db)) = map_option (\<lambda>t. if hit t then f t else t) (get_task i db)"
  by (simp add: get_task_def update_tasks_def find_map_same)

lemma get_created:
  assumes "create_task j now new db = Some db'" and "get_task i db = Some t"
  shows "get_task i db' = Some t"
proof -
  have "find P (xs @ ys) = Some x" if "find P xs = Some x" for P and xs ys :: tasks and x
    using that by (induction xs) (auto split: if_splits)
  then show ?thesis
    using assms by (auto simp: create_task_def get_task_def split: if_splits)
qed

definition same_end :: "task \<Rightarrow> task \<Rightarrow> bool" where
  "same_end t t' = (ts_status t' = ts_status t \<and> ts_kept_work t' = ts_kept_work t)"

lemma same_end_refl [simp]: "same_end t t"
  by (simp add: same_end_def)

lemma get_task_id: "get_task i db = Some t \<Longrightarrow> ts_id t = i"
  by (auto simp: get_task_def find_Some_iff)

lemma task_step_over:
  assumes "task_step db db'" and "get_task i db = Some t" and "over t"
  shows "\<exists>t'. get_task i db' = Some t' \<and> same_end t t'"
  using assms
proof (induction rule: task_step.induct)
  case (created j now new db db')
  then show ?case
    using get_created by (metis same_end_refl)
next
  case (closed j db u now)
  then have "ts_id t = i" "ts_id t = j \<Longrightarrow> ts_status t = TASK_STATUS_CLOSED"
    using get_task_id by fastforce+
  then show ?case
    using closed.prems(1) by (auto simp: update_task_status_def get_update same_end_def)
next
  case (cancelled j keep now db q ws c db' q')
  from cancelled.hyps obtain u where u: "get_task j db = Some u" "\<not> over u"
    and db': "db' = snd (update_tasks (\<lambda>t. ts_id t = j)
         (\<lambda>t. t\<lparr>ts_status := ''cancelled'', ts_kept_work := keep, ts_stuck_reason := None,
               ts_paused_at := None, ts_updated_at := now\<rparr>) db)"
    by (elim cancel_task_Inr) auto
  have "ts_id t \<noteq> j"
  proof
    assume "ts_id t = j"
    then have "i = j" using get_task_id [OF cancelled.prems(1)] by simp
    then have "u = t" using u(1) cancelled.prems(1) by simp
    then show False using u(2) cancelled.prems(2) by simp
  qed
  then show ?case
    using cancelled.prems by (simp add: db' get_update)
next
  case (stuck db event_ok j reason now)
  have "get_task i (snd (mark_stuck_in j reason now db)) = Some t"
    using stuck by (auto simp: mark_stuck_in_def get_update TASK_STATUS_CLOSED_def TASK_STATUS_CANCELLED_def)
  then show ?case
    using stuck mark_stuck_rows [of event_ok j reason now db] by (metis same_end_refl)
qed (auto simp: row_writes get_update same_end_def TASK_STATUS_CLOSED_def TASK_STATUS_CANCELLED_def)

lemma task_steps_over:
  assumes "task_step\<^sup>*\<^sup>* db db'" and "get_task i db = Some t" and "over t"
  shows "\<exists>t'. get_task i db' = Some t' \<and> same_end t t'"
  using assms
proof (induction rule: rtranclp_induct)
  case (step d1 d2)
  then obtain u where u: "get_task i d1 = Some u" "same_end t u" by blast
  moreover have "over u"
    using u(2) step.prems(2) by (simp add: same_end_def)
  ultimately obtain t' where "get_task i d2 = Some t'" "same_end u t'"
    using task_step_over [OF step.hyps(2)] by blast
  then show ?case
    using u(2) by (auto simp: same_end_def)
qed auto

text \<open>
  C20. A task that is cancelled or closed stays so whatever the daemon does next, and what it says
  about kept work stays true: no failure, pause, resume or retry brings it back.
\<close>

theorem finished_task_stays:
  assumes "task_step\<^sup>*\<^sup>* db db'" and "get_task i db = Some t"
    and "ts_status t = TASK_STATUS_CANCELLED \<or> ts_status t = TASK_STATUS_CLOSED"
  shows "case get_task i db' of
      None \<Rightarrow> False
    | Some t' \<Rightarrow> ts_status t' = ts_status t \<and> ts_kept_work t' = ts_kept_work t"
  using task_steps_over [OF assms] by (auto simp: same_end_def)

text \<open>Two tasks at work, and the turn one of them waits for.\<close>

definition example_new_task :: new_task where
  "example_new_task =
     \<lparr>nt_project_id = ''p'', nt_workflow_def = ''chat'', nt_title = ''T'', nt_config = JObj [],
      nt_workflow_path = None, nt_workflow_sha256 = None, nt_base_ref = None, nt_base_commit = None,
      nt_closes = [7]\<rparr>"

definition example_tasks :: tasks where
  "example_tasks =
     the (create_task ''t2'' 5 example_new_task (the (create_task ''t1'' 4 example_new_task [])))"

definition example_turns :: queue_db where
  "example_turns = joined_tasks example_tasks
     \<lparr>qd_queue = [\<lparr>q_id = 1, q_task_id = ''t1'', q_stage = ''code'', q_group_stage = None,
         q_group_entry = None, q_resume_session_id = None, q_queued_at = 0\<rparr>],
      qd_sequence = 1, qd_tasks = [], qd_projects = [], qd_sessions = []\<rparr>"

definition example_cancelled :: "(string \<times> string option) list \<times> cleanup \<times> tasks \<times> queue_db" where
  "example_cancelled = projr (cancel_task ''t1'' True 9 (example_tasks, example_turns))"

text \<open>
  A cancel that goes through takes every queued turn of the task and no other, leaves the row
  cancelled with what was kept, removes the worktree just when the task had one and nothing was to
  be kept, and a second cancel is refused.
\<close>

theorem cancel_takes_the_turns:
  assumes "cancel_task i keep now (db, q) = Inr (withdrawn, c, db', q')"
  shows "qd_queue q' = filter (\<lambda>r. q_task_id r \<noteq> i) (qd_queue q)
    \<and> length withdrawn + length (qd_queue q') = length (qd_queue q)
    \<and> (case get_task i db' of None \<Rightarrow> False | Some t \<Rightarrow> ts_status t = TASK_STATUS_CANCELLED
         \<and> ts_kept_work t = keep \<and> (c = RemoveWorktree) = (\<not> keep \<and> worktree_snapshot t \<noteq> None))
    \<and> cancel_task i again later (db', q'') = Inl (NotCancellable TASK_STATUS_CANCELLED)"
proof -
  from assms obtain t where t: "get_task i db = Some t"
    and db': "db' = snd (update_tasks (\<lambda>t. ts_id t = i)
         (\<lambda>t. t\<lparr>ts_status := ''cancelled'', ts_kept_work := keep, ts_stuck_reason := None,
               ts_paused_at := None, ts_updated_at := now\<rparr>) db)"
    and ws: "withdrawn = fst (delete_for_task i q)" and q': "q' = joined_tasks db' (snd (delete_for_task i q))"
    and c: "c = (if \<not> keep \<and> worktree_snapshot t \<noteq> None then RemoveWorktree else LeaveWork)"
    by (rule cancel_task_Inr)
  define u where "u = t\<lparr>ts_status := ''cancelled'', ts_kept_work := keep, ts_stuck_reason := None,
               ts_paused_at := None, ts_updated_at := now\<rparr>"
  have "get_task i db' = Some u"
    using t get_task_id [OF t] by (simp add: db' get_update u_def)
  moreover have "worktree_snapshot u = worktree_snapshot t"
    by (simp add: u_def worktree_snapshot_def)
  ultimately show ?thesis
    using sum_length_filter_compl [of "\<lambda>r. q_task_id r = i" "qd_queue q"]
    by (auto simp: ws q' c delete_for_task_def queue_filter_def joined_tasks_def cancel_task_def u_def
        TASK_STATUS_CANCELLED_def)
qed

lemma example_cancel:
  "cancel_task ''t1'' True 9 (example_tasks, example_turns) = Inr example_cancelled"
  by (simp add: example_cancelled_def example_tasks_def example_new_task_def create_task_def cancel_task_def
      get_task_def mark_cancelled_def update_tasks_def TASK_STATUS_CANCELLED_def TASK_STATUS_CLOSED_def
      split: prod.split)

lemma example_task_steps: "task_step\<^sup>*\<^sup>* [] example_tasks"
proof -
  have one: "task_step [] (the (create_task ''t1'' 4 example_new_task []))"
    by (rule created [of "''t1''" 4 example_new_task]) (simp add: create_task_def example_new_task_def)
  have two: "task_step (the (create_task ''t1'' 4 example_new_task [])) example_tasks"
    by (rule created [of "''t2''" 5 example_new_task])
      (simp add: example_tasks_def create_task_def example_new_task_def)
  show ?thesis
    using one two by (meson converse_rtranclp_into_rtranclp rtranclp.rtrancl_refl)
qed


lemma example_cancel_step: "task_step example_tasks (fst (snd (snd example_cancelled)))"
proof (cases example_cancelled)
  case fields: (fields ws c db q)
  show ?thesis
    using cancelled [OF example_cancel [unfolded fields]] by (simp add: fields)
qed

lemma example_cancelled_row:
  "\<exists>t. get_task ''t1'' (fst (snd (snd example_cancelled))) = Some t \<and> ts_status t = TASK_STATUS_CANCELLED
     \<and> ts_kept_work t"
  by (simp add: example_cancelled_def example_tasks_def example_new_task_def create_task_def cancel_task_def
      get_task_def mark_cancelled_def update_tasks_def TASK_STATUS_CANCELLED_def TASK_STATUS_CLOSED_def
      split: prod.split)

theorem task_rows_consistent_witness:
  "list_all (\<lambda>t. (ts_stuck_reason t \<noteq> None) = (ts_status t = ''stuck'')) example_tasks"
  using task_rows_consistent [OF example_task_steps] by (auto simp: list_all_iff)

theorem finished_task_stays_witness:
  "case get_task ''t1'' (snd (reopen_stuck ''t1'' 11 (fst (snd (snd example_cancelled))))) of
      None \<Rightarrow> False
    | Some t' \<Rightarrow> ts_status t' = TASK_STATUS_CANCELLED \<and> ts_kept_work t'"
proof -
  obtain t where t: "get_task ''t1'' (fst (snd (snd example_cancelled))) = Some t"
    "ts_status t = TASK_STATUS_CANCELLED" "ts_kept_work t"
    using example_cancelled_row by blast
  have "task_step\<^sup>*\<^sup>* (fst (snd (snd example_cancelled)))
      (snd (reopen_stuck ''t1'' 11 (fst (snd (snd example_cancelled)))))"
    by (rule r_into_rtranclp) (rule reopened)
  from finished_task_stays [OF this t(1) disjI1 [OF t(2)]] show ?thesis
    using t(2,3) by (simp split: option.splits)
qed

theorem cancel_takes_the_turns_witness:
  "qd_queue (snd (snd (snd example_cancelled))) = [] \<and> length (fst example_cancelled) = 1"
proof (cases example_cancelled)
  case (fields ws c db q)
  have "qd_queue q = filter (\<lambda>r. q_task_id r \<noteq> ''t1'') (qd_queue example_turns)
      \<and> length ws + length (qd_queue q) = length (qd_queue example_turns)"
    using cancel_takes_the_turns [of "''t1''" True 9 example_tasks example_turns ws c db q] example_cancel
    unfolding fields by blast
  moreover have "qd_queue example_turns = [r] \<Longrightarrow> q_task_id r = ''t1'' \<Longrightarrow> qd_queue q = [] \<and> length ws = 1" for r
    using calculation by auto
  ultimately have "qd_queue q = []" "length ws = 1"
    by (auto simp: example_turns_def joined_tasks_def)
  then show ?thesis
    by (simp add: fields)
qed

end
