(* ===== verification/Runners.thy ===== *)
theory Runners
  imports TurnQueue
begin

text \<open>
  The engine's table of detached runners (engine/runners.rs, and detached_runner_count of
  engine/pause.rs): the shell commands and watchers that run beside the task lock, by task and id.
  Every function runs under the table's mutex. A handle stands for the future it aborts, so a row
  is the runner's id and kind; aborting is reported as the list of the runners aborted.
\<close>

section \<open>The table\<close>

datatype detached_kind = ShellRunner | PollRunner

type_synonym handles = "(u64 \<times> detached_kind) list"

record detached =
  de_runners :: "handles imap"
  de_next :: u64
  de_stopping :: bool

definition detached_new :: detached where
  "detached_new = \<lparr>de_runners = [], de_next = 0, de_stopping = False\<rparr>"

definition handles_of :: "string \<Rightarrow> detached \<Rightarrow> handles" where
  "handles_of task_id d = (case map_of (de_runners d) task_id of None \<Rightarrow> [] | Some hs \<Rightarrow> hs)"

text \<open>\<open>None\<close>: refused, because shutdown has begun.\<close>

definition spawn_registered_runner :: "string \<Rightarrow> detached_kind \<Rightarrow> detached \<Rightarrow> u64 option \<times> detached" where
  "spawn_registered_runner task_id kind d =
     (if de_stopping d then (None, d)
      else (let i = de_next d in
        (Some i, d\<lparr>de_next := i + 1,
                   de_runners := imap_insert task_id
                     ((i, kind) # filter (\<lambda>(j, _). j \<noteq> i) (handles_of task_id d)) (de_runners d)\<rparr>)))"

text \<open>The task's entry goes with its last runner.\<close>

definition put_handles :: "string \<Rightarrow> handles \<Rightarrow> detached \<Rightarrow> detached" where
  "put_handles task_id hs d =
     d\<lparr>de_runners := (if hs = [] then imap_remove task_id (de_runners d)
                      else imap_insert task_id hs (de_runners d))\<rparr>"

definition finish_runner :: "string \<Rightarrow> u64 \<Rightarrow> detached \<Rightarrow> detached" where
  "finish_runner task_id i d =
     (case map_of (de_runners d) task_id of
        None \<Rightarrow> d
      | Some hs \<Rightarrow> put_handles task_id (filter (\<lambda>(j, _). j \<noteq> i) hs) d)"

definition abort_all_detached_runners :: "detached \<Rightarrow> handles \<times> detached" where
  "abort_all_detached_runners d =
     (concat (map snd (de_runners d)), d\<lparr>de_stopping := True, de_runners := []\<rparr>)"

definition abort_detached_runners :: "string \<Rightarrow> detached \<Rightarrow> handles \<times> detached" where
  "abort_detached_runners task_id d =
     (handles_of task_id d, d\<lparr>de_runners := imap_remove task_id (de_runners d)\<rparr>)"

definition abort_detached_runners_of :: "string \<Rightarrow> detached_kind list \<Rightarrow> detached \<Rightarrow> nat \<times> detached" where
  "abort_detached_runners_of task_id kinds d =
     (case map_of (de_runners d) task_id of
        None \<Rightarrow> (0, d)
      | Some hs \<Rightarrow>
          (length (filter (\<lambda>(_, k). k \<in> set kinds) hs),
           put_handles task_id (filter (\<lambda>(_, k). k \<notin> set kinds) hs) d))"

definition has_detached_runner :: "string \<Rightarrow> detached \<Rightarrow> bool" where
  "has_detached_runner task_id d = has_key (de_runners d) task_id"

definition detached_runner_count :: "string \<Rightarrow> detached_kind \<Rightarrow> detached \<Rightarrow> nat" where
  "detached_runner_count task_id kind d =
     length (filter (\<lambda>(_, k). k = kind) (handles_of task_id d))"

section \<open>The table over time\<close>

inductive detached_step :: "detached \<Rightarrow> detached \<Rightarrow> bool" where
  spawned: "detached_step d (snd (spawn_registered_runner task_id kind d))"
| finished: "detached_step d (finish_runner task_id i d)"
| all_aborted: "detached_step d (snd (abort_all_detached_runners d))"
| aborted: "detached_step d (snd (abort_detached_runners task_id d))"
| kinds_aborted: "detached_step d (snd (abort_detached_runners_of task_id kinds d))"

text \<open>No task has an empty entry, and ids are distinct within a task.\<close>

definition detached_ok :: "detached \<Rightarrow> bool" where
  "detached_ok d =
     (imap_ok (de_runners d)
      \<and> list_all (\<lambda>(_, hs). hs \<noteq> [] \<and> distinct (map fst hs)) (de_runners d))"

lemma detached_new_ok: "detached_ok detached_new"
  by (simp add: detached_ok_def detached_new_def imap_ok_def ikeys_def)


lemma handles_put:
  "handles_of t (put_handles u hs d) = (if t = u then hs else handles_of t d)"
  by (simp add: handles_of_def put_handles_def imap_insert_lookup imap_remove_lookup)

lemma handles_lookup: "detached_ok d \<Longrightarrow> map_of (de_runners d) t = None \<longleftrightarrow> handles_of t d = []"
  by (auto simp: handles_of_def detached_ok_def list_all_iff split: option.splits dest: map_of_SomeD)

lemma all_insert: "list_all P m \<Longrightarrow> P (k, v) \<Longrightarrow> list_all P (imap_insert k v m)"
  by (induction k v m rule: imap_insert.induct) auto

lemma all_remove: "list_all P m \<Longrightarrow> list_all P (imap_remove k m)"
  by (auto simp: imap_remove_def list_all_iff)

lemma distinct_filter_fst: "distinct (map fst hs) \<Longrightarrow> distinct (map fst (filter P hs))"
  by (simp add: distinct_map_filter)

lemma handles_distinct: "detached_ok d \<Longrightarrow> distinct (map fst (handles_of t d))"
  by (auto simp: handles_of_def detached_ok_def list_all_iff split: option.split dest!: map_of_SomeD)

lemma put_handles_ok: "detached_ok d \<Longrightarrow> distinct (map fst hs) \<Longrightarrow> detached_ok (put_handles t hs d)"
  by (auto simp: detached_ok_def put_handles_def imap_insert_ok imap_remove_ok intro: all_insert all_remove)

lemma detached_step_ok:
  assumes "detached_step d d'" and "detached_ok d"
  shows "detached_ok d'"
  using assms
proof (induction rule: detached_step.induct)
  case (spawned d t kind)
  then have "distinct (map fst (filter (\<lambda>(j, _). j \<noteq> de_next d) (handles_of t d)))"
    by (intro distinct_filter_fst handles_distinct)
  then show ?case
    using spawned by (auto simp: spawn_registered_runner_def detached_ok_def Let_def imap_insert_ok intro!: all_insert)
next
  case (finished d t i)
  then show ?case
    using handles_distinct [of d t]
    by (auto simp: finish_runner_def handles_of_def split: option.split intro!: put_handles_ok distinct_filter_fst)
next
  case (kinds_aborted d t kinds)
  then show ?case
    using handles_distinct [of d t]
    by (auto simp: abort_detached_runners_of_def handles_of_def split: option.split
        intro!: put_handles_ok distinct_filter_fst)
next
  case (all_aborted d)
  show ?case
    by (simp add: abort_all_detached_runners_def detached_ok_def imap_ok_def ikeys_def)
qed (auto simp: abort_detached_runners_def detached_ok_def imap_remove_ok intro: all_remove)

lemma detached_steps_ok: "detached_step\<^sup>*\<^sup>* d d' \<Longrightarrow> detached_ok d \<Longrightarrow> detached_ok d'"
  by (induction rule: rtranclp_induct) (auto intro: detached_step_ok)

lemma has_runner_handles: "detached_ok d \<Longrightarrow> has_detached_runner t d \<longleftrightarrow> handles_of t d \<noteq> []"
  using handles_lookup [of d t] by (auto simp: has_detached_runner_def has_key_def ikeys_def map_of_eq_None_iff)

lemma has_runner_counts:
  assumes "detached_ok d"
  shows "has_detached_runner t d \<longleftrightarrow>
    0 < detached_runner_count t ShellRunner d + detached_runner_count t PollRunner d"
proof -
  have "length (filter (\<lambda>(_, k). k = ShellRunner) hs) + length (filter (\<lambda>(_, k). k = PollRunner) hs) = length hs"
    for hs :: handles
  proof (induction hs)
    case (Cons h hs)
    then show ?case by (cases "snd h") (auto simp: case_prod_beta)
  qed simp
  then show ?thesis
    using has_runner_handles [OF assms] by (simp add: detached_runner_count_def)
qed

lemma handles_abort_of:
  "handles_of t (snd (abort_detached_runners_of u kinds d)) =
     (if t = u then filter (\<lambda>(_, k). k \<notin> set kinds) (handles_of t d) else handles_of t d)"
  by (auto simp: abort_detached_runners_of_def handles_put split: option.split)
    (simp_all add: handles_of_def)

text \<open>
  C18. A task counts as having a detached runner just when a shell command or a watcher of it is
  registered, after any sequence of spawns, ends and aborts: no finished runner keeps a pause from
  settling.
\<close>

theorem runner_table_is_exact:
  assumes "detached_step\<^sup>*\<^sup>* detached_new d"
  shows "has_detached_runner t d =
      (0 < detached_runner_count t ShellRunner d + detached_runner_count t PollRunner d)
    \<and> distinct (map fst (handles_of t d))
    \<and> \<not> has_detached_runner t (snd (abort_detached_runners_of t [PollRunner, ShellRunner] d))"
proof -
  have ok: "detached_ok d"
    using detached_steps_ok [OF assms detached_new_ok] .
  have ok': "detached_ok (snd (abort_detached_runners_of t [PollRunner, ShellRunner] d))"
    by (rule detached_step_ok [OF kinds_aborted ok])
  have "k \<in> set [PollRunner, ShellRunner]" for k by (cases k) auto
  then have "handles_of t (snd (abort_detached_runners_of t [PollRunner, ShellRunner] d)) = []"
    by (simp add: handles_abort_of filter_empty_conv case_prod_beta)
  then show ?thesis
    using has_runner_counts [OF ok] handles_distinct [OF ok] has_runner_handles [OF ok'] by simp
qed

theorem runner_table_is_exact_witness:
  "has_detached_runner ''t'' (snd (spawn_registered_runner ''t'' PollRunner detached_new))
   \<and> detached_runner_count ''t'' PollRunner (snd (spawn_registered_runner ''t'' PollRunner detached_new)) = 1"
proof -
  have "detached_step\<^sup>*\<^sup>* detached_new (snd (spawn_registered_runner ''t'' PollRunner detached_new))"
    by (rule r_into_rtranclp) (rule spawned)
  note runner_table_is_exact [OF this, of "''t''"]
  moreover have "detached_runner_count ''t'' PollRunner (snd (spawn_registered_runner ''t'' PollRunner detached_new)) = 1"
    by (simp add: detached_runner_count_def handles_of_def spawn_registered_runner_def detached_new_def Let_def)
  ultimately show ?thesis by simp
qed

end
