(* ===== verification/Pause.thy ===== *)
theory Pause
  imports Tasks Runners Retry
begin

text \<open>
  Pausing and resuming a task (engine/pause.rs), over the tables the code reads and writes: tasks,
  workflow_state, sessions, the turn queue, the gate's permits, the detached runners and the
  branch_started events. The functions run under the task's lock. What processes and other modules
  answer (stopping a session, starting an agent turn, loading the workflow, whether the event of a
  transaction could be written) is an argument; a failed database read is left out. An outer
  \<open>None\<close> is a panic: on a session row whose status does not decode, on a time out of chrono's range.
\<close>

section \<open>What is read\<close>

record branch_start =
  bs_task :: string
  bs_group :: string
  bs_branch :: string
  bs_kind :: string
  bs_entry :: int
  bs_via :: "string option"

record engine =
  en_tasks :: tasks
  en_rows :: "workflow_state imap"
  en_queue :: queue_db
  en_gate :: turn_gate
  en_runners :: detached
  en_sessions :: sessions
  en_starts :: "branch_start list"

text \<open>A start by retry or resume does not count as the group having been entered.\<close>

definition branch_start_exists :: "string \<Rightarrow> string \<Rightarrow> int \<Rightarrow> engine \<Rightarrow> bool" where
  "branch_start_exists task_id branch entry e =
     list_ex (\<lambda>s. bs_task s = task_id \<and> bs_branch s = branch \<and> bs_entry s = entry
       \<and> (case bs_via s of None \<Rightarrow> '''' | Some v \<Rightarrow> v)
           \<notin> {''retry'', ''retry_resume'', ''resume'', ''resume_resume''}) (en_starts e)"

definition has_running_work :: "string \<Rightarrow> engine \<Rightarrow> bool" where
  "has_running_work task_id e =
     (busy_for_task task_id (en_gate e) > 0 \<or> has_detached_runner task_id (en_runners e))"

text \<open>branch_progress over the tables.\<close>

definition progress_of :: "string \<Rightarrow> string \<Rightarrow> int \<Rightarrow> engine \<Rightarrow> branch_work option" where
  "progress_of task_id branch entry e =
     (if queue_exists task_id branch (Some entry) (en_queue e) then Some branch_work.Queued
      else map_option (\<lambda>current. branch_progress False (en_sessions e) current entry)
             (get_current_for_stage (en_sessions e) task_id branch))"

definition group_entry :: "json \<Rightarrow> string \<Rightarrow> int option" where
  "group_entry payload grp = Option.bind (Option.bind (block_for payload grp) (jget ''entry'')) as_i64"

definition reason_text :: "session \<Rightarrow> string" where
  "reason_text s = (case se_end_reason s of None \<Rightarrow> ''none'' | Some r \<Rightarrow> show_end_reason r)"

text \<open>Whether a run ended in a failure its watcher would have parked.\<close>

definition run_failed :: "session_status \<Rightarrow> session_end_reason option \<Rightarrow> bool" where
  "run_failed status reason =
     (if status = Active then False
      else if reason \<in> {Some Cancelled, Some Paused, Some DaemonStopped} then False
      else if reason \<in> {Some Reaped, Some Interrupted, Some ClaudeSettingsRejected, Some ClaudeSettingsUnconfirmed}
        then True
      else status \<noteq> session_status.Idle)"

definition run_failure :: "session \<Rightarrow> string option" where
  "run_failure s =
     (if run_failed (se_status s) (se_end_reason s) then
        Some (''its session ended: '' @ show_status (se_status s) @ '', end reason '' @ reason_text s)
      else None)"

definition pause_left_unsettled :: "session \<Rightarrow> bool" where
  "pause_left_unsettled s =
     (se_status s = Exited \<and> se_end_reason s \<in> {Some Paused, Some DaemonStopped})"

section \<open>Pausing\<close>

datatype pause_error = PauseNoSuchTask | PauseRefused string

fun show_pause_error :: "pause_error \<Rightarrow> string" where
  "show_pause_error PauseNoSuchTask = ''no such task''"
| "show_pause_error (PauseRefused why) = why"

record pause_outcome =
  po_status :: string
  po_mode :: string
  po_stage :: string
  po_running :: u32
  po_stop_failures :: "string list"

definition u32_or_max :: "nat \<Rightarrow> u32" where
  "u32_or_max n = (if n < 2 ^ 32 then of_nat n else - 1)"

text \<open>The match on the status: why a pause is refused.\<close>

definition refuse_pause :: "string \<Rightarrow> string \<Rightarrow> bool \<Rightarrow> string option" where
  "refuse_pause task_id status at_once =
     (if status = TASK_STATUS_OPEN \<or> status = TASK_STATUS_PAUSING \<and> at_once then None
      else if status = TASK_STATUS_PAUSED then Some ''task is already paused''
      else if status = TASK_STATUS_PAUSING then
        Some ''task is already pausing; use --now to stop what is running''
      else if status = TASK_STATUS_STUCK then
        Some (''task is stuck: stuck tasks don'' @ [CHR 0x27] @ ''t run; run '' @
              squote (''choco task retry '' @ task_id) @ '' or '' @ squote (''choco task cancel '' @ task_id))
      else if status = TASK_STATUS_CLOSED then Some ''the task is closed''
      else if status = TASK_STATUS_CANCELLED then Some ''the task is cancelled''
      else Some (''task is '' @ squote status @ '' and cannot be paused''))"

text \<open>The running branches whose current session is live, with its id; \<open>None\<close> is the panic.\<close>

fun live_branches :: "string \<Rightarrow> json \<Rightarrow> int \<Rightarrow> engine \<Rightarrow> string list \<Rightarrow> (string \<times> string) list option" where
  "live_branches task_id payload entry e [] = Some []"
| "live_branches task_id payload entry e (name # names) =
     (if branch_state payload name \<noteq> Some ''running'' then live_branches task_id payload entry e names
      else (case progress_of task_id name entry e of
              None \<Rightarrow> None
            | Some work \<Rightarrow>
                map_option (\<lambda>live. (case work of Live s \<Rightarrow> (name, se_id s) # live | _ \<Rightarrow> live))
                  (live_branches task_id payload entry e names)))"

definition live_turn_sessions ::
  "(task \<Rightarrow> (string, workflow_definition) result) \<Rightarrow> task \<Rightarrow> workflow_state option \<Rightarrow> engine \<Rightarrow>
   (string, (string \<times> string) list) result option"
where
  "live_turn_sessions load t state e =
     (case state of
        None \<Rightarrow> Some (Inr [])
      | Some row \<Rightarrow>
          (case load t of
             Inl err \<Rightarrow> Some (Inl (''the workflow could not be loaded to find the turns: '' @ err))
           | Inr d \<Rightarrow>
               (case stage_of d (ws_current_stage row) of
                  None \<Rightarrow> Some (Inr [])
                | Some sd \<Rightarrow>
                    (case sd_kind sd of
                       AgentTurn _ _ _ _ \<Rightarrow>
                         (if sd_on sd = [] then Some (Inr [])
                          else map_option (\<lambda>current. Inr (case current of
                                   Some s \<Rightarrow> (if se_status s = Active then [(ws_current_stage row, se_id s)] else [])
                                 | None \<Rightarrow> []))
                               (get_current_for_stage (en_sessions e) (ts_id t) (ws_current_stage row)))
                     | Parallel branches \<Rightarrow>
                         (case group_entry (ws_payload row) (ws_current_stage row) of
                            None \<Rightarrow> Some (Inr [])
                          | Some entry \<Rightarrow>
                              map_option Inr (live_branches (ts_id t) (ws_payload row) entry e (ikeys branches)))
                     | _ \<Rightarrow> Some (Inr [])))))"

text \<open>\<open>event_ok\<close>: whether the task_paused event could be written; when not, the transaction is dropped.\<close>

definition commit_paused :: "bool \<Rightarrow> time \<Rightarrow> string \<Rightarrow> engine \<Rightarrow> engine" where
  "commit_paused event_ok now task_id e =
     (case mark_paused_in task_id now (en_tasks e) of
        (hit, db) \<Rightarrow> if hit \<and> event_ok then e\<lparr>en_tasks := db\<rparr> else e)"

definition settle_pause_locked :: "bool \<Rightarrow> time \<Rightarrow> string \<Rightarrow> engine \<Rightarrow> engine" where
  "settle_pause_locked event_ok now task_id e =
     (case get_task task_id (en_tasks e) of
        None \<Rightarrow> e
      | Some t \<Rightarrow>
          (if ts_status t \<noteq> TASK_STATUS_PAUSING then e
           else if has_running_work task_id e then e
           else commit_paused event_ok now task_id e))"

text \<open>
  Step 3 with \<open>--now\<close>: each live turn is told to stop; \<open>stop\<close> is what the session manager answers.
\<close>

definition stop_turns ::
  "(string \<Rightarrow> string option) \<Rightarrow> (string, (string \<times> string) list) result \<Rightarrow> string list"
where
  "stop_turns stop live =
     (case live of
        Inl why \<Rightarrow> [why]
      | Inr live \<Rightarrow>
          List.map_filter (\<lambda>(label, session_id). map_option (\<lambda>err. label @ '': '' @ err) (stop session_id)) live)"

definition pause_task_locked ::
  "(task \<Rightarrow> (string, workflow_definition) result) \<Rightarrow> (string \<Rightarrow> string option) \<Rightarrow> bool \<Rightarrow> time \<Rightarrow>
   string \<Rightarrow> bool \<Rightarrow> engine \<Rightarrow> ((pause_error, pause_outcome) result \<times> engine) option"
where
  "pause_task_locked load stop event_ok now task_id at_once e =
     (case get_task task_id (en_tasks e) of
        None \<Rightarrow> Some (Inl PauseNoSuchTask, e)
      | Some t \<Rightarrow>
          (case refuse_pause task_id (ts_status t) at_once of
             Some why \<Rightarrow> Some (Inl (PauseRefused why), e)
           | None \<Rightarrow>
               (let (hit, marked) = (if ts_status t = TASK_STATUS_OPEN
                              then mark_pausing task_id now now (en_tasks e) else (True, en_tasks e)) in
                if \<not> hit then
                  Some (Inl (PauseRefused (''task is '' @ squote (ts_status t) @ '' and cannot be paused'')), e)
                else
               (let e1 = e\<lparr>en_tasks := marked\<rparr>;
                    state = map_of (en_rows e1) task_id;
                    stage = (case state of None \<Rightarrow> '''' | Some row \<Rightarrow> ws_current_stage row);
                    running = running_for_task task_id (en_gate e1)
                              + detached_runner_count task_id ShellRunner (en_runners e1);
                    kinds = (if at_once then [PollRunner, ShellRunner] else [PollRunner]);
                    e2 = e1\<lparr>en_runners := snd (abort_detached_runners_of task_id kinds (en_runners e1))\<rparr>
                in map_option (\<lambda>failures.
                     let e3 = settle_pause_locked event_ok now task_id e2 in
                     (Inr \<lparr>po_status = (case get_task task_id (en_tasks e3) of
                                          None \<Rightarrow> TASK_STATUS_PAUSING | Some t \<Rightarrow> ts_status t),
                           po_mode = (if at_once then ''now'' else ''graceful''),
                           po_stage = stage, po_running = u32_or_max running,
                           po_stop_failures = failures\<rparr>, e3))
                   (if at_once \<and> state \<noteq> None
                    then map_option (stop_turns stop) (live_turn_sessions load t state e2)
                    else Some [])))))"


section \<open>Resuming\<close>

datatype resume_error =
    ResumeNoSuchTask
  | ResumeRefused string
  | ResumeNoWorkflowState
  | ResumeUnknownStage string
  | ResumeLoad string
  | ResumeEnter engine_error
  | StuckWriteFailed string
  | StartFailedNotStuck string

fun show_resume_error :: "resume_error \<Rightarrow> string" where
  "show_resume_error ResumeNoSuchTask = ''no such task''"
| "show_resume_error (ResumeRefused why) = why"
| "show_resume_error ResumeNoWorkflowState = ''task has no workflow_state row''"
| "show_resume_error (ResumeUnknownStage stage) = ''workflow_state references unknown stage '' @ squote stage"
| "show_resume_error (ResumeLoad err) = err"
| "show_resume_error (ResumeEnter err) = ''resume failed: '' @ show_engine_error err"
| "show_resume_error (StuckWriteFailed reason) =
     reason @ ''; marking the task stuck failed, so it keeps its status''"
| "show_resume_error (StartFailedNotStuck why) = why"

datatype resume_plan =
    StartNothing
  | StartStage "resume_session option"
  | EnterGroup
  | PlanFailed string
  | StartBranches "(string \<times> resume_session option) list"

definition NOTHING_MOVES :: string where
  "NOTHING_MOVES = ''nothing is running or queued to move the task on''"

text \<open>The role's CLI and the session's verdict; any refusal means a fresh start.\<close>

definition resumable_or_fresh ::
  "registry \<Rightarrow> (global_config_error, global_config) result \<Rightarrow> engine \<Rightarrow> task \<Rightarrow> workflow_definition \<Rightarrow>
   stage_def \<Rightarrow> session \<Rightarrow> bool \<Rightarrow> resume_session option"
where
  "resumable_or_fresh reg global e t d sd session is_branch =
     (case resumable_session reg (en_sessions e) (current_role_cli d global (ts_config t) sd) sd
             (Some session) is_branch of
        Inr r \<Rightarrow> Some r | Inl _ \<Rightarrow> None)"

text \<open>
  An agent turn, by its current run: \<open>fresh\<close> is resumable_or_fresh for its stage, \<open>work\<close> whether
  anything of the task's is running.
\<close>

definition plan_run ::
  "(session \<Rightarrow> resume_session option) \<Rightarrow> bool \<Rightarrow> stage_def \<Rightarrow> time option \<Rightarrow> session option \<Rightarrow> resume_plan"
where
  "plan_run fresh work sd entered_at current =
     (case current of
        None \<Rightarrow> StartStage None
      | Some s \<Rightarrow>
          (if (case entered_at of None \<Rightarrow> False | Some entered \<Rightarrow> se_started_at s < entered) then StartStage None
           else if sd_on sd = [] then StartNothing
           else (case run_failure s of
                   Some why \<Rightarrow> PlanFailed why
                 | None \<Rightarrow>
                     (if \<not> pause_left_unsettled s then
                        (if work then StartNothing
                         else PlanFailed (''its last run, session '' @ se_id s @ '', is ''
                           @ show_status (se_status s) @ ''/'' @ reason_text s @ ''; '' @ NOTHING_MOVES))
                      else StartStage (fresh s)))))"

definition plan_agent ::
  "(session \<Rightarrow> resume_session option) \<Rightarrow> string \<Rightarrow> stage_def \<Rightarrow> workflow_state \<Rightarrow> engine \<Rightarrow> resume_plan option"
where
  "plan_agent fresh task_id sd row e =
     (let stage = ws_current_stage row in
      if running_for_task task_id (en_gate e) > 0 \<or> queue_exists task_id stage None (en_queue e)
      then Some StartNothing
      else map_option (plan_run fresh (has_running_work task_id e) sd (ws_stage_entered_at row))
             (get_current_for_stage (en_sessions e) task_id stage))"

text \<open>What one branch of a group adds to the plan.\<close>

datatype branch_plan =
    Settled
  | FoundState string
  | WorkRemains
  | GiveUp string
  | Restart "resume_session option"

definition plan_ended ::
  "(session \<Rightarrow> resume_session option) \<Rightarrow> bool \<Rightarrow> string \<Rightarrow> session \<Rightarrow> branch_plan"
where
  "plan_ended fresh busy name s =
     (case run_failure s of
        Some why \<Rightarrow>
          (if busy then WorkRemains
           else GiveUp (''branch '' @ squote name @ '' cannot resume: '' @ why))
      | None \<Rightarrow>
          (if pause_left_unsettled s then Restart (fresh s)
           else if busy then WorkRemains
           else GiveUp (''branch '' @ squote name @ '' completed (run '' @ se_id s @ '', ''
             @ show_status (se_status s) @ ''/'' @ reason_text s
             @ '') but its result was never applied; '' @ NOTHING_MOVES)))"

definition plan_branch ::
  "(session \<Rightarrow> resume_session option) \<Rightarrow> string \<Rightarrow> json \<Rightarrow> int \<Rightarrow> engine \<Rightarrow> string \<Rightarrow> branch_plan option"
where
  "plan_branch fresh task_id payload entry e name =
     (if branch_state payload name \<noteq> Some ''running'' then
        Some (if branch_state payload name \<noteq> Some ''done'' then
                FoundState (''branch '' @ squote name @ '' is ''
                  @ (case branch_state payload name of None \<Rightarrow> ''unknown'' | Some st \<Rightarrow> st))
              else Settled)
      else map_option (\<lambda>work.
        (case work of
           branch_work.Queued \<Rightarrow> WorkRemains
         | Live _ \<Rightarrow> WorkRemains
         | NeverStarted \<Rightarrow> Restart None
         | Ended s \<Rightarrow> plan_ended fresh (busy_for_stage task_id name (en_gate e)) name s))
        (progress_of task_id name entry e))"

text \<open>The loop over the branches: the restarts, whether work remains, what was found; or giving up.\<close>

fun plan_branches ::
  "(string \<Rightarrow> 'b \<Rightarrow> branch_plan option) \<Rightarrow> 'b imap \<Rightarrow>
   (string, (string \<times> resume_session option) list \<times> bool \<times> string list) result option"
where
  "plan_branches judge [] = Some (Inr ([], False, []))"
| "plan_branches judge ((name, b) # bs) =
     (case judge name b of
        None \<Rightarrow> None
      | Some (GiveUp why) \<Rightarrow> Some (Inl why)
      | Some p \<Rightarrow>
          map_option (\<lambda>rest. and_then rest (\<lambda>(restarts, work, found).
              Inr (case p of
                     FoundState txt' \<Rightarrow> (restarts, work, txt' # found)
                   | WorkRemains \<Rightarrow> (restarts, True, found)
                   | Restart r \<Rightarrow> ((name, r) # restarts, work, found)
                   | _ \<Rightarrow> (restarts, work, found))))
            (plan_branches judge bs))"

definition plan_of_branches ::
  "bool \<Rightarrow> (string, (string \<times> resume_session option) list \<times> bool \<times> string list) result \<Rightarrow> resume_plan"
where
  "plan_of_branches running planned =
     (case planned of
        Inl why \<Rightarrow> PlanFailed why
      | Inr (restarts, work, found) \<Rightarrow>
          (if restarts \<noteq> [] then StartBranches restarts
           else if work \<or> running then StartNothing
           else PlanFailed (join ''; '' (if found = [] then [''no branch has anything left to restart'']
                                          else found) @ ''; '' @ NOTHING_MOVES)))"

definition plan_group ::
  "(stage_def \<Rightarrow> session \<Rightarrow> resume_session option) \<Rightarrow> string \<Rightarrow> branch imap \<Rightarrow> workflow_state \<Rightarrow> engine \<Rightarrow>
   resume_plan option"
where
  "plan_group fresh task_id branches row e =
     (case group_entry (ws_payload row) (ws_current_stage row) of
        None \<Rightarrow>
          Some (if has_running_work task_id e then StartNothing
                else PlanFailed (''the group has no recorded entry; '' @ NOTHING_MOVES))
      | Some entry \<Rightarrow>
          (if \<not> list_ex (\<lambda>name. branch_start_exists task_id name entry e) (ikeys branches) then Some EnterGroup
           else map_option (plan_of_branches (has_running_work task_id e))
             (plan_branches (\<lambda>name b. plan_branch (fresh (br_def b)) task_id (ws_payload row) entry e name)
                branches)))"

definition plan_resume ::
  "registry \<Rightarrow> (global_config_error, global_config) result \<Rightarrow> task \<Rightarrow> workflow_definition \<Rightarrow> stage_def \<Rightarrow>
   workflow_state \<Rightarrow> engine \<Rightarrow> resume_plan option"
where
  "plan_resume reg global t d sd row e =
     (case sd_kind sd of
        Terminal \<Rightarrow> Some StartNothing
      | HumanGate _ _ _ \<Rightarrow>
          Some (if stage_watch sd \<noteq> None \<and> \<not> has_detached_runner (ts_id t) (en_runners e)
                then StartStage None else StartNothing)
      | Poll _ _ \<Rightarrow>
          Some (if has_detached_runner (ts_id t) (en_runners e) then StartNothing else StartStage None)
      | Shell _ _ _ _ \<Rightarrow>
          Some (if has_detached_runner (ts_id t) (en_runners e) then StartNothing else StartStage None)
      | AgentTurn _ _ _ _ \<Rightarrow>
          plan_agent (\<lambda>s. resumable_or_fresh reg global e t d sd s False) (ts_id t) sd row e
      | Parallel branches \<Rightarrow>
          plan_group (\<lambda>bd s. resumable_or_fresh reg global e t d bd s True) (ts_id t) branches row e)"


text \<open>The time used before the pause still counts, the time spent paused does not.\<close>

definition shift_poll_window :: "chrono \<Rightarrow> json \<Rightarrow> string \<Rightarrow> int \<Rightarrow> json option" where
  "shift_poll_window C payload stage delta =
     (case poll_window_for C payload stage of
        Inr (Some w) \<Rightarrow>
          (case (ch_add C (pw_entered_at w) delta,
                 (case pw_deadline w of None \<Rightarrow> Some JNull
                  | Some dl \<Rightarrow> map_option (\<lambda>at. JStr (ch_nanos C at)) (ch_add C dl delta))) of
             (Some entered, Some deadline) \<Rightarrow>
               Some (jset ''poll_window''
                 (obj_of [(''stage'', JStr stage), (''entered_at'', JStr (ch_nanos C entered)),
                          (''deadline'', deadline)]) payload)
           | _ \<Rightarrow> None)
      | _ \<Rightarrow> Some payload)"

definition refuse_resume :: "string \<Rightarrow> string \<Rightarrow> string option" where
  "refuse_resume task_id status =
     (if is_pause_status status then None
      else if status = TASK_STATUS_STUCK then
        Some (''task is stuck; use '' @ squote (''choco task retry '' @ task_id))
      else if status = TASK_STATUS_OPEN then Some ''task is not paused''
      else if status = TASK_STATUS_CLOSED then Some ''the task is closed''
      else if status = TASK_STATUS_CANCELLED then Some ''the task is cancelled''
      else Some (''task is '' @ squote status @ '', not paused''))"

definition paused_since :: "time \<Rightarrow> task \<Rightarrow> workflow_state \<Rightarrow> time" where
  "paused_since now t row =
     (case (ts_paused_at t, ws_stage_entered_at row) of
        (Some paused, Some entered) \<Rightarrow> max paused entered
      | (Some paused, None) \<Rightarrow> paused
      | (None, Some entered) \<Rightarrow> entered
      | (None, None) \<Rightarrow> now)"

text \<open>A failed plan marks the task stuck and refuses.\<close>

definition resume_gives_up ::
  "bool \<Rightarrow> time \<Rightarrow> task \<Rightarrow> string \<Rightarrow> engine \<Rightarrow> resume_error \<times> engine"
where
  "resume_gives_up event_ok now t reason e =
     (case mark_stuck event_ok (ts_id t) reason now (en_tasks e) of
        (Marked, db) \<Rightarrow>
          (ResumeRefused (reason @ ''; retry continues it (the task is now stuck)''), e\<lparr>en_tasks := db\<rparr>)
      | (WriteFailed, _) \<Rightarrow> (StuckWriteFailed reason, e)
      | (NotMarked, _) \<Rightarrow>
          (ResumeRefused (reason @ ''; the task is '' @ squote (ts_status t) @ '' now''), e))"

text \<open>Step 2: one transaction, the shifted window and the status.\<close>

definition resume_write ::
  "chrono \<Rightarrow> time \<Rightarrow> task \<Rightarrow> stage_def \<Rightarrow> workflow_state \<Rightarrow> engine \<Rightarrow> (resume_error, json) result \<times> engine \<Rightarrow>
   ((resume_error, json) result \<times> engine) option"
where
  "resume_write C now t sd row e refused =
     map_option (\<lambda>payload.
       let rows = (if payload = ws_payload row then en_rows e
                   else imap_insert (ts_id t)
                     (update_state \<lparr>su_current_stage = ws_current_stage row,
                        su_stage_kind = stage_kind_name (sd_kind sd), su_loop_counters = ws_loop_counters row,
                        su_payload = payload, su_enters_stage = False\<rparr> now row) (en_rows e))
       in (case resume_in (ts_id t) now (en_tasks e) of
             (hit, db) \<Rightarrow> if hit then (Inr payload, e\<lparr>en_rows := rows, en_tasks := db\<rparr>) else refused))
     (shift_poll_window C (ws_payload row) (ws_current_stage row) (now - paused_since now t row))"

definition resume_open ::
  "chrono \<Rightarrow> registry \<Rightarrow> (global_config_error, global_config) result \<Rightarrow>
   (task \<Rightarrow> (string, workflow_definition) result) \<Rightarrow> bool \<Rightarrow> time \<Rightarrow> string \<Rightarrow> engine \<Rightarrow>
   ((resume_error, resume_plan \<times> string \<times> json) result \<times> engine) option"
where
  "resume_open C reg global load event_ok now task_id e =
     (case get_task task_id (en_tasks e) of
        None \<Rightarrow> Some (Inl ResumeNoSuchTask, e)
      | Some t \<Rightarrow>
          (case refuse_resume task_id (ts_status t) of
             Some why \<Rightarrow> Some (Inl (ResumeRefused why), e)
           | None \<Rightarrow>
               (case map_of (en_rows e) task_id of
                  None \<Rightarrow> Some (Inl ResumeNoWorkflowState, e)
                | Some row \<Rightarrow>
                    (case load t of
                       Inl err \<Rightarrow> Some (Inl (ResumeLoad err), e)
                     | Inr d \<Rightarrow>
                         (case stage_of d (ws_current_stage row) of
                            None \<Rightarrow> Some (Inl (ResumeUnknownStage (ws_current_stage row)), e)
                          | Some sd \<Rightarrow>
                              (case plan_resume reg global t d sd row e of
                                 None \<Rightarrow> None
                               | Some (PlanFailed why) \<Rightarrow>
                                   Some (apfst Inl (resume_gives_up event_ok now t
                                     (''stage '' @ squote (ws_current_stage row) @ '' cannot resume: '' @ why) e))
                               | Some plan \<Rightarrow>
                                   map_option (\<lambda>(r, e').
                                       (map_sum id (\<lambda>payload. (plan, ws_current_stage row, payload)) r, e'))
                                     (resume_write C now t sd row e
                                        (Inl (ResumeRefused (''task is '' @ squote (ts_status t) @ '', not paused'')),
                                         e))))))))"

record resume_outcome =
  ro_stage :: string
  ro_started :: "string list"
  ro_resumed :: "string list"

text \<open>Step 3, once what the plan names was entered: \<open>failed\<close> is the error of entering it.\<close>

definition resume_outcome_of :: "resume_plan \<Rightarrow> string \<Rightarrow> resume_outcome" where
  "resume_outcome_of plan stage =
     (case plan of
        StartStage r \<Rightarrow> \<lparr>ro_stage = stage, ro_started = [stage], ro_resumed = (if r = None then [] else [stage])\<rparr>
      | EnterGroup \<Rightarrow> \<lparr>ro_stage = stage, ro_started = [stage], ro_resumed = []\<rparr>
      | StartBranches rs \<Rightarrow>
          \<lparr>ro_stage = stage, ro_started = map fst rs, ro_resumed = map fst (filter (\<lambda>(_, r). r \<noteq> None) rs)\<rparr>
      | _ \<Rightarrow> \<lparr>ro_stage = stage, ro_started = [], ro_resumed = []\<rparr>)"

definition resume_finish ::
  "bool \<Rightarrow> time \<Rightarrow> string \<Rightarrow> resume_plan \<Rightarrow> string \<Rightarrow> engine_error option \<Rightarrow> engine \<Rightarrow>
   (resume_error, resume_outcome) result \<times> engine"
where
  "resume_finish event_ok now task_id plan stage failed e =
     (case failed of
        None \<Rightarrow> (Inr (resume_outcome_of plan stage), e)
      | Some err \<Rightarrow>
          (let why = ''stage '' @ squote stage @ '': resume failed: '' @ show_engine_error err;
               recorded = (case err of EngineTemplate _ _ \<Rightarrow> True | _ \<Rightarrow> False)
           in case mark_stuck (recorded \<or> event_ok) task_id why now (en_tasks e) of
                (Marked, db) \<Rightarrow> (Inl (ResumeEnter err), e\<lparr>en_tasks := db\<rparr>)
              | (WriteFailed, _) \<Rightarrow>
                  (Inl (StartFailedNotStuck (why @ ''; marking the task stuck failed too, ''
                     @ ''so it was left open with nothing started'')), e)
              | (NotMarked, _) \<Rightarrow>
                  (Inl (StartFailedNotStuck (why @ ''; the task is '' @ squote
                     (case get_task task_id (en_tasks e) of None \<Rightarrow> ''gone'' | Some t \<Rightarrow> ts_status t)
                     @ '' now'')), e)))"

section \<open>Starting again\<close>

definition resume_via :: "resume_session option \<Rightarrow> string" where
  "resume_via r = (if r = None then ''resume'' else ''resume_resume'')"

text \<open>The input of an agent turn without a prompt file, for a stage that is entered again.\<close>

definition task_input :: "json \<Rightarrow> string option" where
  "task_input payload = Option.bind (Option.bind (jget ''task'' payload) (jget ''input'')) as_str"

definition reenter_input :: "workflow_definition \<Rightarrow> string \<Rightarrow> json \<Rightarrow> (engine_error, string option) result" where
  "reenter_input d stage payload =
     (case stage_of d stage of
        None \<Rightarrow> Inl (UnknownStage stage)
      | Some sd \<Rightarrow>
          Inr (case sd_kind sd of AgentTurn _ None _ _ \<Rightarrow> task_input payload | _ \<Rightarrow> None))"

text \<open>
  restart_branches_locked. \<open>recorded\<close>: the error of the transaction of branch_started events, if
  any; \<open>start\<close>: the error of entering a branch's agent turn, if any.
\<close>

definition restart_events ::
  "string \<Rightarrow> string \<Rightarrow> branch imap \<Rightarrow> int \<Rightarrow> (string \<times> resume_session option) list \<Rightarrow> branch_start list"
where
  "restart_events task_id grp branches entry restarts =
     List.map_filter (\<lambda>(name, r). map_option (\<lambda>b.
       \<lparr>bs_task = task_id, bs_group = grp, bs_branch = name, bs_kind = stage_kind_name (sd_kind (br_def b)),
        bs_entry = entry, bs_via = Some (resume_via r)\<rparr>) (map_of branches name)) restarts"

definition restart_failure ::
  "branch imap \<Rightarrow> (string \<Rightarrow> resume_session option \<Rightarrow> string option) \<Rightarrow> string \<times> resume_session option \<Rightarrow>
   (string \<times> string) option"
where
  "restart_failure branches start nr =
     (case nr of (name, r) \<Rightarrow>
        (case map_of branches name of
           None \<Rightarrow> Some (name, ''the branch is no longer in the workflow'')
         | Some b \<Rightarrow>
             (if kind_role (sd_kind (br_def b)) = None then
                Some (name, ''branch '' @ squote name @ '' is not an agent_turn, which is all a branch can be'')
              else map_option (\<lambda>err. (name, err)) (start name r))))"

definition restart_failures ::
  "string option \<Rightarrow> (string \<Rightarrow> resume_session option \<Rightarrow> string option) \<Rightarrow> branch imap \<Rightarrow>
   (string \<times> resume_session option) list \<Rightarrow> (string \<times> string) list"
where
  "restart_failures recorded start branches restarts =
     (case recorded of
        Some err \<Rightarrow> map (\<lambda>(name, _). (name, ''could not record the branch start: '' @ err)) restarts
      | None \<Rightarrow> List.map_filter (restart_failure branches start) restarts)"

definition restart_branches_locked ::
  "string \<Rightarrow> string option \<Rightarrow> (string \<Rightarrow> resume_session option \<Rightarrow> string option) \<Rightarrow> string \<Rightarrow> string \<Rightarrow>
   branch imap \<Rightarrow> int \<Rightarrow> (string \<times> resume_session option) list \<Rightarrow> engine \<Rightarrow>
   (engine_error, branch_step option) result \<times> engine"
where
  "restart_branches_locked now recorded start task_id grp branches entry restarts e =
     (let e' = (if recorded = None
                then e\<lparr>en_starts := en_starts e @ restart_events task_id grp branches entry restarts\<rparr> else e);
          failures = restart_failures recorded start branches restarts
      in (if failures = [] then Inr None
          else map_sum id Some
                 (record_start_failures now grp branches failures (map_of (en_rows e') task_id)), e'))"

text \<open>
  reenter_after_pause_locked: what the watcher of a session that a pause killed starts again, when
  the task was resumed meanwhile.
\<close>

datatype reentry = ReenterNothing | ReenterStage "resume_session option" | ReenterBranch "resume_session option"

definition reenter_after_pause_locked ::
  "registry \<Rightarrow> (global_config_error, global_config) result \<Rightarrow> string \<Rightarrow> workflow_definition \<Rightarrow> string \<Rightarrow>
   string \<Rightarrow> branch_watch option \<Rightarrow> engine \<Rightarrow> reentry option"
where
  "reenter_after_pause_locked reg global task_id d stage_name session_id watching e =
     (case (get_task task_id (en_tasks e), map_of (en_rows e) task_id) of
        (Some t, Some row) \<Rightarrow>
          (if ts_status t \<noteq> TASK_STATUS_OPEN then Some ReenterNothing
           else
             (case get_session (en_sessions e) session_id of
                None \<Rightarrow> None
              | Some None \<Rightarrow> Some ReenterNothing
              | Some (Some session) \<Rightarrow>
                  map_option (\<lambda>current.
                    (if map_option se_id current \<noteq> Some session_id
                        \<or> queue_exists task_id stage_name None (en_queue e)
                     then ReenterNothing
                     else
                       (case watching of
                          None \<Rightarrow>
                            (if ws_current_stage row \<noteq> stage_name \<or> running_for_task task_id (en_gate e) > 0
                             then ReenterNothing
                             else (case stage_of d stage_name of
                                     None \<Rightarrow> ReenterNothing
                                   | Some sd \<Rightarrow>
                                       ReenterStage (resumable_or_fresh reg global e t d sd session False)))
                        | Some w \<Rightarrow>
                            (if ws_current_stage row \<noteq> bw_group w
                                \<or> group_entry (ws_payload row) (bw_group w) \<noteq> Some (bw_entry w)
                                \<or> branch_state (ws_payload row) stage_name \<noteq> Some ''running''
                             then ReenterNothing
                             else (case Option.bind (Option.bind (stage_of d (bw_group w))
                                               (\<lambda>sd. group_branches (sd_kind sd))) (\<lambda>bs. map_of bs stage_name) of
                                     None \<Rightarrow> ReenterNothing
                                   | Some b \<Rightarrow>
                                       ReenterBranch (resumable_or_fresh reg global e t d (br_def b) session True))))))
                    (get_current_for_stage (en_sessions e) task_id stage_name)))
      | _ \<Rightarrow> Some ReenterNothing)"

text \<open>
  check_pause_end: the verdict on a requested end of a turn of a pausing or paused task.
\<close>

datatype read_only_verdict = Clean | Violation string | Unverified string

definition check_pause_end ::
  "bool \<Rightarrow> time \<Rightarrow> string \<Rightarrow> workflow_definition \<Rightarrow> string \<Rightarrow> branch_watch option \<Rightarrow> read_only_verdict \<Rightarrow>
   engine \<Rightarrow> engine"
where
  "check_pause_end event_ok now task_id d stage_name watching verdict e =
     (let beside = (case watching of None \<Rightarrow> '''' | Some w \<Rightarrow> ran_beside d (bw_group w) stage_name);
          stick = (\<lambda>found. e\<lparr>en_tasks := snd (mark_stuck event_ok task_id (found @ beside) now (en_tasks e))\<rparr>)
      in case verdict of Clean \<Rightarrow> e | Violation found \<Rightarrow> stick found | Unverified found \<Rightarrow> stick found)"

section \<open>What a pause does\<close>

lemma get_task_other:
  "(\<And>t. hit t \<Longrightarrow> ts_id t = i) \<Longrightarrow> (\<And>t. ts_id (f t) = ts_id t) \<Longrightarrow> u \<noteq> i \<Longrightarrow>
   get_task u (snd (update_tasks hit f db)) = get_task u db"
  by (cases "get_task u db") (auto simp: get_update dest: get_task_id)

lemma mark_pausing_other: "u \<noteq> i \<Longrightarrow> get_task u (snd (mark_pausing i p now db)) = get_task u db"
  unfolding mark_pausing_def by (rule get_task_other) auto

lemma mark_paused_other: "u \<noteq> i \<Longrightarrow> get_task u (snd (mark_paused_in i now db)) = get_task u db"
  unfolding mark_paused_in_def by (rule get_task_other) auto

lemma update_hit_get: "get_task i db = Some t \<Longrightarrow> hit t \<Longrightarrow> fst (update_tasks hit f db)"
  by (auto simp: update_tasks_def get_task_def find_Some_iff list_ex_iff)

lemma settle_pause_cases:
  assumes "get_task i (en_tasks e) = Some t" and "ts_status t = TASK_STATUS_PAUSING"
  shows "settle_pause_locked True now i e =
    (if has_running_work i e then e else e\<lparr>en_tasks := snd (mark_paused_in i now (en_tasks e))\<rparr>)"
proof -
  have "fst (mark_paused_in i now (en_tasks e))"
    using assms get_task_id [OF assms(1)]
    by (auto simp: mark_paused_in_def TASK_STATUS_PAUSING_def intro: update_hit_get)
  then show ?thesis
    using assms by (auto simp: settle_pause_locked_def commit_paused_def split: prod.split)
qed

lemma has_running_work_tasks [simp]: "has_running_work i (e\<lparr>en_tasks := db\<rparr>) = has_running_work i e"
  by (simp add: has_running_work_def)

text \<open>A pause that goes through: the task is pausing, runners were aborted, and the rest settles.\<close>

lemma pause_task_Inr:
  assumes "pause_task_locked load stop event_ok now i at_once e = Some (Inr out, e')"
  obtains t db where "get_task i (en_tasks e) = Some t"
    and "db = (if ts_status t = TASK_STATUS_OPEN then snd (mark_pausing i now now (en_tasks e)) else en_tasks e)"
    and "ts_status t = TASK_STATUS_OPEN \<or> ts_status t = TASK_STATUS_PAUSING"
    and "e' = settle_pause_locked event_ok now i (e\<lparr>en_tasks := db, en_runners := snd (abort_detached_runners_of i
           (if at_once then [PollRunner, ShellRunner] else [PollRunner]) (en_runners e))\<rparr>)"
    and "po_status out = (case get_task i (en_tasks e') of None \<Rightarrow> TASK_STATUS_PAUSING | Some t \<Rightarrow> ts_status t)"
proof -
  from assms obtain t where t: "get_task i (en_tasks e) = Some t" and ok: "refuse_pause i (ts_status t) at_once = None"
    by (auto simp: pause_task_locked_def split: option.splits)
  have st: "ts_status t = TASK_STATUS_OPEN \<or> ts_status t = TASK_STATUS_PAUSING"
    using ok by (auto simp: refuse_pause_def split: if_splits)
  show thesis
    by (rule that [OF t refl st])
      (use assms t ok in \<open>auto simp: pause_task_locked_def Let_def case_prod_beta split: if_splits\<close>)
qed

text \<open>
  C17. A pause that goes through leaves the task paused when nothing of it is running any more and
  pausing as long as something is. Its watchers are gone, with --now its commands too, and
  neither another task's row nor another task's runners are touched.
\<close>

theorem pause_settles:
  assumes "pause_task_locked load stop True now i at_once e = Some (Inr out, e')"
    and "tasks_ok (en_tasks e)" and "detached_ok (en_runners e)"
  shows "po_status out = (if has_running_work i e' then TASK_STATUS_PAUSING else TASK_STATUS_PAUSED)
    \<and> (case get_task i (en_tasks e') of None \<Rightarrow> False
       | Some t \<Rightarrow> ts_status t = po_status out \<and> ts_paused_at t \<noteq> None)
    \<and> detached_runner_count i PollRunner (en_runners e') = 0
    \<and> (if at_once then \<not> has_detached_runner i (en_runners e') else True)
    \<and> (if u = i then True else get_task u (en_tasks e') = get_task u (en_tasks e)
         \<and> handles_of u (en_runners e') = handles_of u (en_runners e))"
proof -
  let ?kinds = "if at_once then [PollRunner, ShellRunner] else [PollRunner]"
  let ?ab = "snd (abort_detached_runners_of i ?kinds (en_runners e))"
  from assms(1) obtain t db where t: "get_task i (en_tasks e) = Some t"
    and db: "db = (if ts_status t = TASK_STATUS_OPEN then snd (mark_pausing i now now (en_tasks e)) else en_tasks e)"
    and st: "ts_status t = TASK_STATUS_OPEN \<or> ts_status t = TASK_STATUS_PAUSING"
    and e': "e' = settle_pause_locked True now i (e\<lparr>en_tasks := db, en_runners := ?ab\<rparr>)"
    and out: "po_status out = (case get_task i (en_tasks e') of None \<Rightarrow> TASK_STATUS_PAUSING | Some t \<Rightarrow> ts_status t)"
    by (rule pause_task_Inr)
  have i: "ts_id t = i" using t by (rule get_task_id)
  have tok: "task_ok t"
    using assms(2) t by (auto simp: tasks_ok_def list_all_iff get_task_def find_Some_iff)
  obtain p where p: "get_task i db = Some p" "ts_status p = TASK_STATUS_PAUSING" "ts_paused_at p \<noteq> None"
    using t st i tok
    by (cases "ts_status t = TASK_STATUS_OPEN")
      (auto simp: db mark_pausing_def get_update TASK_STATUS_OPEN_def TASK_STATUS_PAUSING_def task_ok_def)
  define q where "q = (if has_running_work i (e\<lparr>en_runners := ?ab\<rparr>) then p
      else p\<lparr>ts_status := ''paused'', ts_updated_at := now\<rparr>)"
  have settled: "e' = e\<lparr>en_tasks := (if has_running_work i (e\<lparr>en_runners := ?ab\<rparr>) then db
      else snd (mark_paused_in i now db)), en_runners := ?ab\<rparr>"
    unfolding e' using p by (subst settle_pause_cases) (auto simp: has_running_work_def)
  have row: "get_task i (en_tasks e') = Some q"
    using p get_task_id [OF p(1)]
    by (simp add: settled q_def mark_paused_in_def get_update TASK_STATUS_PAUSING_def)
  have work: "has_running_work i e' = has_running_work i (e\<lparr>en_runners := ?ab\<rparr>)"
    by (simp add: settled has_running_work_def)
  have handles: "handles_of v (en_runners e') =
      (if v = i then filter (\<lambda>(_, k). k \<notin> set ?kinds) (handles_of v (en_runners e)) else handles_of v (en_runners e))" for v
    by (simp add: settled handles_abort_of del: set_simps)
  have "detached_ok (en_runners e')"
    by (simp add: settled detached_step_ok [OF kinds_aborted assms(3)])
  then have all: "at_once \<Longrightarrow> \<not> has_detached_runner i (en_runners e')"
    using handles [of i] by (auto simp: has_runner_handles filter_empty_conv intro: detached_kind.exhaust)
  have "detached_runner_count i PollRunner (en_runners e') = 0"
    by (auto simp: detached_runner_count_def handles filter_empty_conv)
  moreover have "get_task u (en_tasks e') = get_task u (en_tasks e)" if "u \<noteq> i"
    using that by (simp add: settled db mark_pausing_other mark_paused_other)
  ultimately show ?thesis
    using out row all p by (auto simp: work q_def handles TASK_STATUS_PAUSED_def)
qed

section \<open>What a resume starts\<close>

text \<open>An ended run failed, was left by a pause or by the daemon stopping, or came to its own end.\<close>

lemma run_end_exclusive: "pause_left_unsettled s \<Longrightarrow> run_failure s = None"
  by (auto simp: pause_left_unsettled_def run_failure_def run_failed_def)

definition branch_at_work :: "string \<Rightarrow> json \<Rightarrow> int \<Rightarrow> engine \<Rightarrow> string \<Rightarrow> bool" where
  "branch_at_work task_id payload entry e name =
     (branch_state payload name = Some ''running''
      \<and> (case progress_of task_id name entry e of
           Some branch_work.Queued \<Rightarrow> True | Some (Live _) \<Rightarrow> True | _ \<Rightarrow> False))"

text \<open>What can carry a task on: work of its own, a place in the queue, a person, or a branch at work.\<close>

definition carried_on :: "string \<Rightarrow> stage_def \<Rightarrow> workflow_state \<Rightarrow> engine \<Rightarrow> bool" where
  "carried_on task_id sd row e =
     (has_running_work task_id e
      \<or> (case sd_kind sd of
           Terminal \<Rightarrow> True
         | HumanGate _ _ _ \<Rightarrow> stage_watch sd = None
         | AgentTurn _ _ _ _ \<Rightarrow> sd_on sd = [] \<or> queue_exists task_id (ws_current_stage row) None (en_queue e)
         | Parallel branches \<Rightarrow>
             (case group_entry (ws_payload row) (ws_current_stage row) of
                None \<Rightarrow> False
              | Some entry \<Rightarrow> list_ex (branch_at_work task_id (ws_payload row) entry e) (ikeys branches))
         | _ \<Rightarrow> False))"

definition restartable :: "string \<Rightarrow> json \<Rightarrow> int \<Rightarrow> engine \<Rightarrow> string \<Rightarrow> bool" where
  "restartable task_id payload entry e name =
     (branch_state payload name = Some ''running''
      \<and> (case progress_of task_id name entry e of
           Some NeverStarted \<Rightarrow> True | Some (Ended s) \<Rightarrow> pause_left_unsettled s | _ \<Rightarrow> False))"

lemma running_is_busy: "0 < running_for_task i g \<Longrightarrow> 0 < busy_for_task i g"
  unfolding running_for_task_def busy_for_task_def
  by (auto simp: filter_empty_conv)

lemma stage_is_busy: "busy_for_stage i s g \<Longrightarrow> 0 < busy_for_task i g"
  by (auto simp: busy_for_stage_def busy_for_task_def list_ex_iff filter_empty_conv)

lemma plan_ended_iff:
  "plan_ended fresh busy name s = Restart r \<longleftrightarrow> pause_left_unsettled s \<and> r = fresh s"
  "plan_ended fresh busy name s = WorkRemains \<Longrightarrow> busy"
  using run_end_exclusive [of s]
  by (auto simp: plan_ended_def split: if_splits option.splits)

lemma plan_run_nothing: "plan_run fresh work sd entered current = StartNothing \<Longrightarrow> sd_on sd = [] \<or> work"
  by (rule ccontr) (simp add: plan_run_def split: option.split_asm if_split_asm)

lemma plan_run_stage: "plan_run fresh work sd entered current \<noteq> StartBranches rs"
  by (simp add: plan_run_def split: option.split)

lemma plan_of_branches_iff:
  "plan_of_branches running planned = StartNothing \<longleftrightarrow>
    (\<exists>work found. planned = Inr ([], work, found) \<and> (work \<or> running))"
  "plan_of_branches running planned = StartBranches rs \<longleftrightarrow>
    (\<exists>work found. planned = Inr (rs, work, found)) \<and> rs \<noteq> []"
proof -
  consider (failed) why where "planned = Inl why" | (ok) r w f where "planned = Inr (r, w, f)"
    by (cases planned) auto
  then have "(plan_of_branches running planned = StartNothing \<longleftrightarrow>
      (\<exists>work found. planned = Inr ([], work, found) \<and> (work \<or> running)))
    \<and> (plan_of_branches running planned = StartBranches rs \<longleftrightarrow>
      (\<exists>work found. planned = Inr (rs, work, found)) \<and> rs \<noteq> [])"
  proof cases
    case (ok r w f)
    then show ?thesis by (cases "r = []") (auto simp: plan_of_branches_def)
  qed (simp add: plan_of_branches_def)
  then show "plan_of_branches running planned = StartNothing \<longleftrightarrow>
      (\<exists>work found. planned = Inr ([], work, found) \<and> (work \<or> running))"
    and "plan_of_branches running planned = StartBranches rs \<longleftrightarrow>
      (\<exists>work found. planned = Inr (rs, work, found)) \<and> rs \<noteq> []"
    by blast+
qed

lemma plan_branch_work:
  assumes "plan_branch fresh i payload entry e name = Some WorkRemains"
  shows "branch_at_work i payload entry e name \<or> has_running_work i e"
proof -
  from assms obtain work where running: "branch_state payload name = Some ''running''"
    and work: "progress_of i name entry e = Some work"
    by (auto simp: plan_branch_def split: if_splits)
  show ?thesis
  proof (cases work)
    case (Ended s)
    then have "busy_for_stage i name (en_gate e)"
      using assms running work plan_ended_iff(2) by (auto simp: plan_branch_def)
    then show ?thesis
      using stage_is_busy by (auto simp: has_running_work_def)
  qed (use assms running work in \<open>auto simp: plan_branch_def branch_at_work_def\<close>)
qed

definition restart_of :: "branch_plan \<Rightarrow> resume_session option option" where
  "restart_of p = (case p of Restart r \<Rightarrow> Some r | _ \<Rightarrow> None)"

lemma restart_of_ended:
  "restart_of (plan_ended fresh busy name s) = (if pause_left_unsettled s then Some (fresh s) else None)"
  using run_end_exclusive [of s] by (auto simp: plan_ended_def restart_of_def split: option.split)

lemma plan_branch_restart:
  assumes "plan_branch fresh i payload entry e name = Some p"
  shows "restart_of p = (if \<not> restartable i payload entry e name then None
    else (case progress_of i name entry e of Some (Ended s) \<Rightarrow> Some (fresh s) | _ \<Rightarrow> Some None))"
proof (cases "branch_state payload name = Some ''running''")
  case True
  with assms obtain work where work: "progress_of i name entry e = Some work"
    by (auto simp: plan_branch_def)
  show ?thesis
  proof (cases work)
    case (Ended s)
    then have p: "p = plan_ended fresh (busy_for_stage i name (en_gate e)) name s"
      using assms True work by (simp add: plan_branch_def)
    show ?thesis
      using Ended True work by (simp add: p restart_of_ended restartable_def)
  qed (use assms True work in \<open>auto simp: plan_branch_def restartable_def restart_of_def\<close>)
qed (use assms in \<open>auto simp: plan_branch_def restartable_def restart_of_def split: if_splits\<close>)

lemma plan_branches_step:
  assumes "plan_branches judge ((n, b) # bs) = Some (Inr (restarts, work, found))"
  shows "\<exists>p rs w f. judge n b = Some p \<and> plan_branches judge bs = Some (Inr (rs, w, f))
    \<and> restarts = (case restart_of p of None \<Rightarrow> rs | Some r \<Rightarrow> (n, r) # rs) \<and> (work \<longrightarrow> w \<or> p = WorkRemains)"
proof -
  from assms obtain p where p: "judge n b = Some p" by (auto split: option.splits)
  from assms p obtain rest where rest: "plan_branches judge bs = Some rest"
    by (cases p) (auto split: option.splits)
  from assms p rest obtain rs w f where "rest = Inr (rs, w, f)"
    by (cases p; cases rest) auto
  then show ?thesis
    using assms p rest by (cases p) (auto simp: restart_of_def)
qed

lemma plan_branches_Inr:
  assumes "plan_branches judge bs = Some (Inr (restarts, work, found))"
  shows "restarts = List.map_filter (\<lambda>(n, b). map_option (Pair n) (Option.bind (judge n b) restart_of)) bs
    \<and> (work \<longrightarrow> (\<exists>(n, b)\<in>set bs. judge n b = Some WorkRemains))
    \<and> (\<forall>(n, b)\<in>set bs. judge n b \<noteq> None)"
  using assms
proof (induction bs arbitrary: restarts work found)
  case (Cons nb bs)
  obtain n b where nb: "nb = (n, b)" by (cases nb)
  from Cons.prems [unfolded nb] obtain p rs w f where p: "judge n b = Some p"
    and rest: "plan_branches judge bs = Some (Inr (rs, w, f))"
    and rs: "restarts = (case restart_of p of None \<Rightarrow> rs | Some r \<Rightarrow> (n, r) # rs)"
    and work: "work \<longrightarrow> w \<or> p = WorkRemains"
    by (blast dest: plan_branches_step)
  show ?case
    using Cons.IH [OF rest] p work by (auto simp: nb rs map_filter_simps split: option.split)
qed (simp add: map_filter_simps)

lemma map_filter_names:
  "(\<And>n b. (n, b) \<in> set bs \<Longrightarrow> (g n b \<noteq> None) = P n) \<Longrightarrow>
   map fst (List.map_filter (\<lambda>(n, b). map_option (Pair n) (g n b)) bs) = filter P (map fst bs)"
proof (induction bs)
  case (Cons nb bs)
  obtain n b where nb: "nb = (n, b)" by (cases nb)
  have "(g n b \<noteq> None) = P n" using Cons.prems nb by simp
  then show ?case
    using Cons by (cases "g n b") (auto simp: nb map_filter_simps)
qed (simp add: map_filter_simps)

lemma map_filter_all:
  "(\<And>n b r. (n, b) \<in> set bs \<Longrightarrow> g n b = Some r \<Longrightarrow> Q n r) \<Longrightarrow>
   list_all (\<lambda>(n, r). Q n r) (List.map_filter (\<lambda>(n, b). map_option (Pair n) (g n b)) bs)"
  by (induction bs) (auto simp: map_filter_simps split: option.split)



section \<open>The time a pause takes\<close>

lemma map_sum_Inr: "map_sum f g x = Inr y \<longleftrightarrow> (\<exists>z. x = Inr z \<and> y = g z)"
  by (cases x) auto

lemma resume_open_Inr:
  assumes "resume_open C reg global load event_ok now i e = Some (Inr (plan, stage, payload), e')"
  obtains t row sd where "get_task i (en_tasks e) = Some t" and "is_pause_status (ts_status t)"
    and "map_of (en_rows e) i = Some row" and "stage = ws_current_stage row"
    and "shift_poll_window C (ws_payload row) stage (now - paused_since now t row) = Some payload"
    and "en_tasks e' = snd (resume_in i now (en_tasks e))"
    and "en_rows e' = (if payload = ws_payload row then en_rows e
           else imap_insert i (update_state \<lparr>su_current_stage = stage,
             su_stage_kind = stage_kind_name (sd_kind sd), su_loop_counters = ws_loop_counters row,
             su_payload = payload, su_enters_stage = False\<rparr> now row) (en_rows e))"
proof -
  from assms obtain t where t: "get_task i (en_tasks e) = Some t" and r: "refuse_resume i (ts_status t) = None"
    by (auto simp: resume_open_def split: option.splits)
  from assms t r obtain row d where row: "map_of (en_rows e) i = Some row" and d: "load t = Inr d"
    by (auto simp: resume_open_def split: option.splits sum.splits)
  from assms t r row d obtain sd where sd: "stage_of d (ws_current_stage row) = Some sd"
    by (auto simp: resume_open_def split: option.splits)
  from assms t r row d sd obtain p where p: "plan_resume reg global t d sd row e = Some p"
    by (auto simp: resume_open_def split: option.splits)
  let ?w = "resume_write C now t sd row e
    (Inl (ResumeRefused (''task is '' @ squote (ts_status t) @ '', not paused'')), e)"
  have i: "ts_id t = i" using t by (rule get_task_id)
  have w: "?w = Some (Inr payload, e')" and stage: "stage = ws_current_stage row"
    using assms t r row d sd p
    by (cases p; auto simp: resume_open_def apfst_def map_prod_def map_sum_Inr split: prod.splits)+
  then obtain q where q: "shift_poll_window C (ws_payload row) (ws_current_stage row) (now - paused_since now t row) = Some q"
    by (auto simp: resume_write_def)
  show thesis
  proof (rule that [OF t _ row stage])
    show "is_pause_status (ts_status t)"
      using r by (auto simp: refuse_resume_def split: if_splits)
  qed (use w q i stage in \<open>auto simp: resume_write_def Let_def case_prod_beta split: if_splits\<close>)
qed
lemma shift_poll_window_read:
  assumes "shift_poll_window C payload stage delta = Some p"
    and "poll_window_for C payload stage = Inr (Some w)"
    and "\<forall>a b c. ch_add C a b = Some c \<longrightarrow> c = a + b \<and> reads_back C c"
  shows "poll_window_for C p stage = Inr (Some \<lparr>pw_stage = stage, pw_entered_at = pw_entered_at w + delta,
      pw_deadline = map_option (\<lambda>dl. dl + delta) (pw_deadline w)\<rparr>)
    \<and> (k \<noteq> ''poll_window'' \<longrightarrow> jget k p = jget k payload)"
proof -
  from assms(1,2) obtain entered deadline where entered: "ch_add C (pw_entered_at w) delta = Some entered"
    and dl: "(case pw_deadline w of None \<Rightarrow> Some JNull
        | Some dl \<Rightarrow> map_option (\<lambda>at. JStr (ch_nanos C at)) (ch_add C dl delta)) = Some deadline"
    and p: "p = jset ''poll_window'' (obj_of [(''stage'', JStr stage),
        (''entered_at'', JStr (ch_nanos C entered)), (''deadline'', deadline)]) payload"
    by (auto simp: shift_poll_window_def split: option.splits)
  have "reads_back C entered" "entered = pw_entered_at w + delta"
    using assms(3) entered by blast+
  moreover have "read_deadline C deadline = Some (map_option (\<lambda>dl. dl + delta) (pw_deadline w))"
  proof (cases "pw_deadline w")
    case (Some dl0)
    then obtain at where "ch_add C dl0 delta = Some at" "deadline = JStr (ch_nanos C at)"
      using dl by auto
    then show ?thesis
      using assms(3) Some by (auto simp: read_deadline_def reads_back_def)
  qed (use dl in \<open>simp add: read_deadline_def\<close>)
  ultimately show ?thesis
    by (simp add: p jget_set poll_window_for_def read_window_written read_window_fields_def reads_back_def)
qed

lemma resume_in_get:
  assumes "get_task i db = Some t" and "is_pause_status (ts_status t)"
  shows "get_task i (snd (resume_in i now db)) = Some (t\<lparr>ts_status := ''open'', ts_paused_at := None, ts_updated_at := now\<rparr>)"
  using assms get_task_id [OF assms(1)]
  by (auto simp: resume_in_def get_update is_pause_status_def TASK_STATUS_PAUSING_def TASK_STATUS_PAUSED_def)


section \<open>Examples\<close>

text \<open>A task paused at 10 while a watcher had from 3 to 13, resumed at 20.\<close>

definition example_global :: "(global_config_error, global_config) result" where
  "example_global = Inl (GlobalIo ''config.yaml'' ''permission denied'')"

definition example_watching :: workflow_state where
  "example_watching =
     \<lparr>ws_current_stage = ''ci'', ws_stage_kind = Some ''poll'', ws_loop_counters = obj_of [],
      ws_payload = obj_of [(''poll_window'', obj_of [(''stage'', JStr ''ci''),
        (''entered_at'', JStr (ch_nanos example_chrono 3)), (''deadline'', JStr (ch_nanos example_chrono 13))])],
      ws_updated_at = 3, ws_stage_entered_at = Some 3\<rparr>"

definition example_open :: engine where
  "example_open =
     \<lparr>en_tasks = example_tasks, en_rows = [(''t1'', example_watching)], en_queue = example_turns,
      en_gate = gate_new, en_runners = snd (spawn_registered_runner ''t1'' PollRunner detached_new),
      en_sessions = [], en_starts = []\<rparr>"

definition example_paused :: engine where
  "example_paused = example_open
     \<lparr>en_tasks := map (\<lambda>t. t\<lparr>ts_status := ''paused'', ts_paused_at := Some 10\<rparr>) example_tasks,
      en_runners := detached_new\<rparr>"

lemma example_quiet: "has_running_work ''t1'' (example_open\<lparr>en_runners := detached_new\<rparr>) \<longleftrightarrow> False"
  by (simp add: has_running_work_def example_open_def busy_for_task_def permits_def gate_new_def
      has_detached_runner_def detached_new_def has_key_def ikeys_def)

lemma example_task_open: "\<exists>t. get_task ''t1'' example_tasks = Some t \<and> ts_status t = ''open'' \<and> ts_id t = ''t1''"
  by (simp add: example_tasks_def example_new_task_def create_task_def get_task_def)

lemma example_pause:
  "\<exists>out e'. pause_task_locked load stop True 5 ''t1'' False example_open = Some (Inr out, e')"
  using example_task_open
  by (auto simp: pause_task_locked_def example_open_def refuse_pause_def TASK_STATUS_OPEN_def Let_def
      mark_pausing_def case_prod_beta intro: update_hit_get)

theorem pause_settles_witness:
  "\<exists>out e'. pause_task_locked (\<lambda>_. Inl ''no file'') (\<lambda>_. None) True 5 ''t1'' False example_open = Some (Inr out, e')
    \<and> detached_runner_count ''t1'' PollRunner (en_runners e') = 0
    \<and> get_task ''t2'' (en_tasks e') = get_task ''t2'' example_tasks"
proof -
  obtain out e' where run: "pause_task_locked (\<lambda>_. Inl ''no file'') (\<lambda>_. None) True 5 ''t1'' False example_open
      = Some (Inr out, e')"
    using example_pause by blast
  have "tasks_ok (en_tasks example_open)"
    using task_steps_ok [OF example_task_steps tasks_ok_Nil] by (simp add: example_open_def)
  moreover have "detached_ok (en_runners example_open)"
    using detached_step_ok [OF spawned detached_new_ok] by (simp add: example_open_def)
  ultimately show ?thesis
    using pause_settles [OF run, of "''t2''"] run by (simp add: example_open_def)
qed

definition example_coding :: stage_def where
  "example_coding = StageDef (AgentTurn ''r'' None None []) [(''done'', ''end'')] None"


text \<open>A group of which one branch was recorded as started, and no session exists.\<close>

definition example_held :: engine where
  "example_held = example_paused
     \<lparr>en_starts := [\<lparr>bs_task = ''t1'', bs_group = ''review'', bs_branch = ''tests'', bs_kind = ''agent_turn'',
                       bs_entry = 1, bs_via = None\<rparr>]\<rparr>"

lemma example_entry: "group_entry (ws_payload example_row) ''review'' = Some 1"
  by code_simp

lemma example_running:
  "branch_state (ws_payload example_row) ''tests'' = Some ''running''"
  "branch_state (ws_payload example_row) ''docs'' = Some ''running''"
  by code_simp+

lemma example_progress:
  "n = ''tests'' \<or> n = ''docs'' \<Longrightarrow> progress_of ''t1'' n 1 example_held = Some NeverStarted"
  by (auto simp: progress_of_def example_held_def example_paused_def example_open_def example_turns_def
      joined_tasks_def queue_exists_def get_current_for_stage_def branch_progress_def)

lemma example_held_plan:
  assumes "ts_id t = ''t1''"
  shows "plan_resume reg global t d
    (StageDef (Parallel [(''tests'', b1), (''docs'', b2)]) [] None) example_row example_held
      = Some (StartBranches [(''tests'', None), (''docs'', None)])"
proof -
  have stage: "ws_current_stage example_row = ''review''" by (simp add: example_row_def)
  have "branch_start_exists ''t1'' ''tests'' 1 example_held"
    by (simp add: branch_start_exists_def example_held_def)
  then show ?thesis
    by (simp add: plan_resume_def assms plan_group_def stage example_entry ikeys_def plan_branch_def
        example_running example_progress plan_of_branches_def)
qed


lemma example_window:
  "poll_window_for example_chrono (ws_payload example_watching) ''ci'' =
     Inr (Some \<lparr>pw_stage = ''ci'', pw_entered_at = 3, pw_deadline = Some 13\<rparr>)"
  by (simp add: poll_window_for_def example_watching_def jget_obj_of_map read_window_written
      read_window_fields_def read_deadline_def)
    (simp add: example_chrono_def)

lemma example_paused_task:
  "\<exists>t. get_task ''t1'' (en_tasks example_paused) = Some t \<and> ts_status t = ''paused''
     \<and> ts_id t = ''t1'' \<and> ts_paused_at t = Some 10"
  by (simp add: example_paused_def example_tasks_def example_new_task_def create_task_def get_task_def)

lemma example_resume:
  "\<exists>payload e'. resume_open example_chrono [] example_global (\<lambda>_. Inr example_polling) True 20 ''t1'' example_paused
     = Some (Inr (StartStage None, ''ci'', payload), e')"
proof -
  obtain t where t: "get_task ''t1'' (en_tasks example_paused) = Some t" "ts_status t = ''paused''"
    "ts_id t = ''t1''" "ts_paused_at t = Some 10"
    using example_paused_task by blast
  let ?sd = "StageDef (Poll None example_watch) [(''done'', ''end''), (''timeout'', ''ask'')] None"
  have row: "map_of (en_rows example_paused) ''t1'' = Some example_watching"
    by (simp add: example_paused_def example_open_def)
  have stage: "ws_current_stage example_watching = ''ci''" "ws_stage_entered_at example_watching = Some 3"
    by (simp_all add: example_watching_def)
  have sd: "stage_of example_polling ''ci'' = Some ?sd" by code_simp
  have plan: "plan_resume [] example_global t example_polling ?sd example_watching example_paused = Some (StartStage None)"
    by (simp add: plan_resume_def has_detached_runner_def example_paused_def detached_new_def has_key_def ikeys_def)
  have hit: "fst (resume_in ''t1'' 20 (en_tasks example_paused))"
    unfolding resume_in_def by (rule update_hit_get [OF t(1)]) (simp add: t)
  obtain p where "shift_poll_window example_chrono (ws_payload example_watching) ''ci''
      (20 - paused_since 20 t example_watching) = Some p"
    by (simp add: shift_poll_window_def example_window paused_since_def t stage)
      (simp add: example_chrono_def)
  then show ?thesis
    using hit by (simp add: resume_open_def t row stage sd plan refuse_resume_def is_pause_status_def
        TASK_STATUS_PAUSING_def TASK_STATUS_PAUSED_def resume_write_def Let_def case_prod_beta)
qed


end
