(* ===== verification/Watch.thy ===== *)
theory Watch
  imports Capture Payload Tasks
begin

text \<open>
  The commands that run beside the task lock: a shell stage's one run (engine/shell_stage.rs), the
  matching of a polled command's output (poll.rs), the loop of a watcher (run_watch of
  engine/watch.rs), and what the outcome of either does to the task (finish_detached of
  engine/runners.rs). A round of the loop takes what the world answered in it: the clock at each
  place it is read, the two checks of the task, and what shell::run gave. Times near the end of
  chrono's calendar are left out.
\<close>

section \<open>Commands\<close>

record shell_outcome =
  sh_exit_code :: "int option"
  sh_stdout :: string
  sh_stderr :: string
  sh_duration :: duration
  sh_timed_out :: bool
  sh_escaped :: bool

datatype shell_error = ShellSpawn string | ShellIo string

fun show_shell_error :: "shell_error \<Rightarrow> string" where
  "show_shell_error (ShellSpawn err) = ''failed to start command: '' @ err"
| "show_shell_error (ShellIo err) = ''failed to read command output: '' @ err"

definition succeeded :: "shell_outcome \<Rightarrow> bool" where
  "succeeded outcome = (sh_exit_code outcome = Some 0)"

definition EVENT_OUTPUT_TAIL_BYTES :: nat where
  "EVENT_OUTPUT_TAIL_BYTES = 2048"

text \<open>No UTF-8 character is split: a continuation byte is 10xxxxxx.\<close>

definition char_boundary :: "char \<Rightarrow> bool" where
  "char_boundary c = (of_char c div 64 \<noteq> (2 :: nat))"

definition tail :: "string \<Rightarrow> string" where
  "tail text =
     (let trimmed = trim text in
      if length trimmed \<le> EVENT_OUTPUT_TAIL_BYTES then trimmed
      else [CHR 0xE2, CHR 0x80, CHR 0xA6]
           @ dropWhile (\<lambda>c. \<not> char_boundary c) (drop (length trimmed - EVENT_OUTPUT_TAIL_BYTES) trimmed))"

definition duration_ms :: "duration \<Rightarrow> u64" where
  "duration_ms d =
     (let ms = as_secs d * 1000 + subsec_nanos d div 1000000
      in if ms < 2 ^ 64 then of_nat ms else - 1)"

fun describe_command :: "shell_command \<Rightarrow> string" where
  "describe_command (Inline line) = line"
| "describe_command (ScriptFile file) = file"

definition jword :: "u64 \<Rightarrow> json" where
  "jword n = JNum (PosInt n)"

definition jcode :: "int option \<Rightarrow> json" where
  "jcode code =
     (case code of None \<Rightarrow> JNull
      | Some n \<Rightarrow> JNum (if n < 0 then NegInt n else PosInt (of_int n)))"

definition UNCONFIRMED :: string where
  "UNCONFIRMED = ''could not confirm the process group exited '' @ [CHR 0xE2, CHR 0x80, CHR 0x94]
     @ '' something may still be running''"

section \<open>A shell stage\<close>

text \<open>The outcome the task advances on, the capture, and the event on the timeline.\<close>

definition shell_note :: "json_parser \<Rightarrow> capture option \<Rightarrow> shell_outcome \<Rightarrow> json option \<times> string option" where
  "shell_note P capture outcome =
     (let (captured, note) =
        (if succeeded outcome then derive_capture P capture (sh_stdout outcome) ''stdout''
         else if capture \<noteq> None then (None, Some ''stdout not captured: the command did not succeed'')
         else (None, None))
      in (captured, if sh_escaped outcome then Some UNCONFIRMED else note))"

definition run_shell_stage ::
  "json_parser \<Rightarrow> string \<Rightarrow> shell_command \<Rightarrow> capture option \<Rightarrow> duration \<Rightarrow>
   (shell_error, shell_outcome) result \<Rightarrow> string \<times> json option \<times> json"
where
  "run_shell_stage P stage command capture elapsed answer =
     (case answer of
        Inl err \<Rightarrow>
          (''error'', None,
           obj_of [(''stage'', JStr stage), (''command'', JStr (describe_command command)),
                   (''exit_code'', JNull), (''timed_out'', JBool False),
                   (''duration_ms'', jword (duration_ms elapsed)), (''stdout_tail'', JStr ''''),
                   (''stderr_tail'', JStr ''''), (''note'', JStr (show_shell_error err))])
      | Inr outcome \<Rightarrow>
          (case shell_note P capture outcome of (captured, note) \<Rightarrow>
            (if succeeded outcome then ''done'' else ''error'', captured,
             obj_of ([(''stage'', JStr stage), (''command'', JStr (describe_command command)),
                      (''exit_code'', jcode (sh_exit_code outcome)), (''timed_out'', JBool (sh_timed_out outcome)),
                      (''escaped'', JBool (sh_escaped outcome)),
                      (''duration_ms'', jword (duration_ms (sh_duration outcome))),
                      (''stdout_tail'', JStr (tail (sh_stdout outcome))),
                      (''stderr_tail'', JStr (tail (sh_stderr outcome)))]
                     @ (case note of None \<Rightarrow> [] | Some n \<Rightarrow> [(''note'', JStr n)])))))"

section \<open>Matching\<close>

text \<open>\<open>is_match\<close> is the regular-expression engine; the first rule that matches wins.\<close>

definition matching :: "(string \<Rightarrow> string \<Rightarrow> bool) \<Rightarrow> poll_outcome list \<Rightarrow> string \<Rightarrow> poll_outcome option" where
  "matching is_match rules stdout =
     (let haystack = trim stdout in find (\<lambda>r. is_match (po_pattern r) haystack) rules)"

section \<open>The watcher\<close>

record watch_externals =
  wx_chrono :: chrono
  wx_rfc3339 :: "time \<Rightarrow> string"
  wx_hms :: "time \<Rightarrow> string"
  wx_is_match :: "string \<Rightarrow> string \<Rightarrow> bool"
  wx_json :: json_parser

record watch_run =
  wn_stage :: string
  wn_command :: shell_command
  wn_capture :: "capture option"
  wn_watch :: watch
  wn_entered_at :: time
  wn_deadline :: "time option"
  wn_outcomes :: "poll_outcome list"

datatype attempt_kind = Regular | CatchUpFirst | Final

record catch_up =
  cu_end :: time
  cu_since_deadline :: duration
  cu_len :: duration

definition first_note :: "watch_externals \<Rightarrow> catch_up \<Rightarrow> string" where
  "first_note X c =
     ''the deadline passed '' @ format_duration (round_for_note (cu_since_deadline c))
     @ '' ago while the stage could not watch; watching until '' @ wx_hms X (cu_end c) @ '' UTC''"

text \<open>The loop's variables.\<close>

record watcher =
  wt_attempt :: u64
  wt_previous :: "string option"
  wt_catch_up :: "catch_up option"
  wt_last_attempt_end :: "time option"

definition watcher_new :: watcher where
  "watcher_new = \<lparr>wt_attempt = 0, wt_previous = None, wt_catch_up = None, wt_last_attempt_end = None\<rparr>"

text \<open>
  A round: the answers of the two checks, the clock at each place it is read (in the order of the
  code), how long the attempt ran, and what shell::run answers when given a limit.
\<close>

datatype clock_place =
    AtTop | WhenOver | IntervalWhenOver | AtCatchUp | AtStart | FinalCap | Age | AgeCap | SliverCap
  | IntervalAtEnd | BeforeSleep | AtFinish

record round =
  rd_in_stage :: bool
  rd_cancelled :: bool
  rd_clock :: "clock_place \<Rightarrow> time"
  rd_ran :: duration
  rd_answer :: "duration option \<Rightarrow> (shell_error, shell_outcome) result"

definition or_zero :: "duration option \<Rightarrow> duration" where
  "or_zero d = (case d of None \<Rightarrow> duration_ZERO | Some x \<Rightarrow> x)"

definition interval_now :: "watch_run \<Rightarrow> time \<Rightarrow> duration" where
  "interval_now run now = interval_at (wn_watch run) (or_zero (to_std (now - wn_entered_at run)))"

text \<open>\<open>chrono::Duration::from_std\<close>, zero when out of range.\<close>

definition span :: "watch_externals \<Rightarrow> duration \<Rightarrow> int" where
  "span X d = (case ch_limit (wx_chrono X) d of Inr n \<Rightarrow> n | Inl _ \<Rightarrow> 0)"

definition attempt_end :: "watch_externals \<Rightarrow> time \<Rightarrow> duration \<Rightarrow> time" where
  "attempt_end X started_wall took = started_wall + span X took"

definition window_end :: "watch_run \<Rightarrow> watcher \<Rightarrow> time option" where
  "window_end run w = (case wt_catch_up w of Some c \<Rightarrow> Some (cu_end c) | None \<Rightarrow> wn_deadline run)"

definition started_catch_up ::
  "watch_externals \<Rightarrow> watch_run \<Rightarrow> watcher \<Rightarrow> time \<Rightarrow> round \<Rightarrow> catch_up option"
where
  "started_catch_up X run w end' rd =
     (let now = rd_clock rd WhenOver;
          interval = interval_now run (rd_clock rd IntervalWhenOver);
          since = (case wt_last_attempt_end w of None \<Rightarrow> end' | Some at \<Rightarrow> max at end');
          late = or_zero (to_std (now - since))
      in case w_timeout (wn_watch run) of
           Some timeout \<Rightarrow>
             (if wt_catch_up w = None \<and> missed (wt_attempt w) late interval then
                Some \<lparr>cu_end = now + span X (catch_up_len timeout),
                      cu_since_deadline = or_zero (to_std (now - end')), cu_len = catch_up_len timeout\<rparr>
              else None)
         | None \<Rightarrow> None)"

text \<open>What the round is, the catch-up after it began, and what is left of the window.\<close>

definition plan_attempt ::
  "watch_externals \<Rightarrow> watch_run \<Rightarrow> watcher \<Rightarrow> round \<Rightarrow> attempt_kind \<times> catch_up option \<times> duration option"
where
  "plan_attempt X run w rd =
     (case window_end run w of
        None \<Rightarrow> (Regular, wt_catch_up w, None)
      | Some end' \<Rightarrow>
          (let remaining = remaining_budget end' (rd_clock rd AtTop) in
           if remaining = duration_ZERO then
             (case started_catch_up X run w end' rd of
                Some c \<Rightarrow> (CatchUpFirst, Some c, Some (remaining_budget (cu_end c) (rd_clock rd AtCatchUp)))
              | None \<Rightarrow> (Final, wt_catch_up w, Some remaining))
           else (Regular, wt_catch_up w, Some remaining)))"

text \<open>The time an attempt may run; \<open>attempt\<close> counts this one.\<close>

definition attempt_limit ::
  "watch_run \<Rightarrow> attempt_kind \<Rightarrow> u64 \<Rightarrow> duration option \<Rightarrow> round \<Rightarrow> duration option"
where
  "attempt_limit run kind attempt remaining rd =
     (if kind = Final then Some (final_attempt_limit (interval_now run (rd_clock rd FinalCap)))
      else if attempt > 1
        \<or> or_zero (to_std (rd_clock rd Age - wn_entered_at run))
            > final_attempt_limit (interval_now run (rd_clock rd AgeCap))
      then map_option (\<lambda>r. max r (final_attempt_limit (interval_now run (rd_clock rd SliverCap)))) remaining
      else remaining)"

text \<open>The event of an attempt, without the notes.\<close>

definition attempt_fields :: "watch_run \<Rightarrow> u64 \<Rightarrow> (string \<times> json) list" where
  "attempt_fields run attempt =
     [(''stage'', JStr (wn_stage run)), (''command'', JStr (describe_command (wn_command run))),
      (''attempt'', jword attempt)]"

definition outcome_fields :: "shell_outcome \<Rightarrow> (string \<times> json) list" where
  "outcome_fields outcome =
     [(''exit_code'', jcode (sh_exit_code outcome)), (''timed_out'', JBool (sh_timed_out outcome)),
      (''escaped'', JBool (sh_escaped outcome)), (''duration_ms'', jword (duration_ms (sh_duration outcome))),
      (''stdout_tail'', JStr (tail (sh_stdout outcome))), (''stderr_tail'', JStr (tail (sh_stderr outcome)))]"

definition no_output_fields :: "duration \<Rightarrow> (string \<times> json) list" where
  "no_output_fields took =
     [(''exit_code'', JNull), (''timed_out'', JBool False), (''duration_ms'', jword (duration_ms took)),
      (''stdout_tail'', JStr ''''), (''stderr_tail'', JStr '''')]"

definition catch_up_until :: "watch_externals \<Rightarrow> attempt_kind \<Rightarrow> catch_up option \<Rightarrow> (string \<times> json) list" where
  "catch_up_until X kind catch_up' =
     (case (kind, catch_up') of
        (CatchUpFirst, Some c) \<Rightarrow> [(''catch_up_until'', JStr (wx_rfc3339 X (cu_end c)))]
      | _ \<Rightarrow> [])"

text \<open>finish_poll_timed_out, up to the report of \<open>timeout\<close>.\<close>

definition timed_out_note ::
  "u64 \<Rightarrow> duration \<Rightarrow> catch_up option \<Rightarrow> string option \<Rightarrow> string"
where
  "timed_out_note attempts elapsed catch_up' io_note =
     (''no outcome matched in '' @ show_nat (unat attempts) @ '' attempts over '' @ format_duration elapsed
      @ (case catch_up' of
           None \<Rightarrow> ''; timeout elapsed''
         | Some c \<Rightarrow> ''; the deadline was missed by '' @ format_duration (round_for_note (cu_since_deadline c))
             @ '', so the stage watched up to '' @ format_duration (round_for_note (cu_len c)) @ '' more'')
      @ (case io_note of None \<Rightarrow> ''''
         | Some err \<Rightarrow> ''; the final attempt'' @ [CHR 0x27] @ ''s output could not be read: '' @ err))"

definition finish_poll_timed_out ::
  "watch_externals \<Rightarrow> watch_run \<Rightarrow> u64 \<Rightarrow> shell_outcome option \<Rightarrow> catch_up option \<Rightarrow> string option \<Rightarrow> time \<Rightarrow> json"
where
  "finish_poll_timed_out X run attempts last_outcome catch_up' io_note now =
     (let elapsed = round_for_note (or_zero (to_std (now - wn_entered_at run)));
          escaped = (case last_outcome of None \<Rightarrow> False | Some x \<Rightarrow> sh_escaped x);
          note' = (if escaped then UNCONFIRMED else timed_out_note attempts elapsed catch_up' io_note)
      in obj_of (attempt_fields run attempts
           @ [(''exit_code'', jcode (Option.bind last_outcome sh_exit_code)), (''timed_out'', JBool True),
              (''escaped'', JBool escaped),
              (''duration_ms'', (case last_outcome of None \<Rightarrow> jword 0 | Some x \<Rightarrow> jword (duration_ms (sh_duration x)))),
              (''stdout_tail'', JStr (case last_outcome of None \<Rightarrow> '''' | Some x \<Rightarrow> tail (sh_stdout x))),
              (''stderr_tail'', JStr (case last_outcome of None \<Rightarrow> '''' | Some x \<Rightarrow> tail (sh_stderr x))),
              (''note'', JStr note')]
           @ (case catch_up' of None \<Rightarrow> [] | Some c \<Rightarrow> [(''catch_up_until'', JStr (wx_rfc3339 X (cu_end c)))])))"

text \<open>
  record_poll_attempt: the new \<open>previous\<close> and the events, one when the key changed. The first attempt
  of a catch-up is recorded always.
\<close>

definition record_poll_attempt :: "string option \<Rightarrow> string \<Rightarrow> json \<Rightarrow> string option \<times> json list" where
  "record_poll_attempt previous current payload =
     (Some current, if previous \<noteq> Some current then [payload] else [])"

definition debug_code :: "int option \<Rightarrow> string" where
  "debug_code code =
     (case code of None \<Rightarrow> ''None''
      | Some n \<Rightarrow> ''Some('' @ (if n < 0 then ''-'' else '''') @ show_nat (nat \<bar>n\<bar>) @ '')'')"

definition sleep_before_next_attempt :: "duration \<Rightarrow> time option \<Rightarrow> time \<Rightarrow> duration" where
  "sleep_before_next_attempt interval deadline now =
     (case deadline of None \<Rightarrow> interval | Some at \<Rightarrow> min interval (remaining_budget at now))"

datatype watch_step =
    Abandoned
  | Reports string "json option" "json list"
  | Sleeps watcher "json list" duration

text \<open>The end of a round that decided nothing.\<close>

definition next_round ::
  "watch_run \<Rightarrow> watcher \<Rightarrow> json list \<Rightarrow> round \<Rightarrow> watch_step"
where
  "next_round run w events rd =
     Sleeps w events (sleep_before_next_attempt (interval_now run (rd_clock rd IntervalAtEnd))
       (window_end run w) (rd_clock rd BeforeSleep))"

definition match_note ::
  "attempt_kind \<Rightarrow> u64 \<Rightarrow> poll_outcome \<Rightarrow> catch_up option \<Rightarrow> string option \<Rightarrow> bool \<Rightarrow> string"
where
  "match_note kind attempt rule catch_up' capture_note escaped =
     (if escaped then UNCONFIRMED
      else ''matched '' @ [CHR 0x22] @ po_pattern rule @ [CHR 0x22] @ '' on attempt '' @ show_nat (unat attempt)
        @ (case catch_up' of None \<Rightarrow> ''''
           | Some c \<Rightarrow> ''; in the catch-up after a missed deadline''
               @ (if kind = CatchUpFirst then
                    '' (the deadline passed '' @ format_duration (round_for_note (cu_since_deadline c))
                    @ '' ago while the stage could not watch)'' else ''''))
        @ (case capture_note of None \<Rightarrow> '''' | Some n \<Rightarrow> ''; '' @ n))"

text \<open>What the attempt of a round decides; \<open>w\<close> has the attempt counted and the catch-up set.\<close>

definition after_attempt ::
  "watch_externals \<Rightarrow> watch_run \<Rightarrow> attempt_kind \<Rightarrow> watcher \<Rightarrow> round \<Rightarrow> (shell_error, shell_outcome) result \<Rightarrow>
   watch_step"
where
  "after_attempt X run kind w rd answer =
     (let attempt = wt_attempt w; c = wt_catch_up w;
          w' = w\<lparr>wt_last_attempt_end := Some (attempt_end X (rd_clock rd AtStart) (rd_ran rd))\<rparr>
      in case answer of
           Inl (ShellSpawn err) \<Rightarrow>
             Reports ''error'' None
               [obj_of (attempt_fields run attempt @ no_output_fields (rd_ran rd)
                  @ [(''note'', JStr (show_shell_error (ShellSpawn err)))] @ catch_up_until X kind c)]
         | Inl (ShellIo err) \<Rightarrow>
             (let note' = show_shell_error (ShellIo err); key = CHR 0x00 # ''io:'' @ note' in
              if kind = Final then
                Reports ''timeout'' None
                  [finish_poll_timed_out X run attempt None c (Some note') (rd_clock rd AtFinish)]
              else
                (case (kind, c) of
                   (CatchUpFirst, Some cu) \<Rightarrow>
                     next_round run (w'\<lparr>wt_previous := Some key\<rparr>)
                       [obj_of (attempt_fields run attempt @ no_output_fields (rd_ran rd)
                          @ [(''note'', JStr (first_note X cu @ ''; '' @ note'))] @ catch_up_until X kind c)] rd
                 | _ \<Rightarrow>
                     (case record_poll_attempt (wt_previous w) key
                             (obj_of (attempt_fields run attempt @ no_output_fields (rd_ran rd)
                                @ [(''note'', JStr note')])) of
                        (previous, events) \<Rightarrow> next_round run (w'\<lparr>wt_previous := previous\<rparr>) events rd)))
         | Inr outcome \<Rightarrow>
             (case matching (wx_is_match X) (wn_outcomes run) (sh_stdout outcome) of
                Some rule \<Rightarrow>
                  (case derive_capture (wx_json X) (wn_capture run) (sh_stdout outcome) ''stdout'' of
                     (captured, capture_note) \<Rightarrow>
                       Reports (po_then rule) captured
                         [obj_of (attempt_fields run attempt @ outcome_fields outcome
                            @ [(''matched'', JStr (po_pattern rule)), (''outcome'', JStr (po_then rule)),
                               (''note'', JStr (match_note kind attempt rule c capture_note (sh_escaped outcome)))]
                            @ catch_up_until X kind c)])
              | None \<Rightarrow>
                  (if sh_timed_out outcome \<or> kind = Final then
                     Reports ''timeout'' None
                       [finish_poll_timed_out X run attempt (Some outcome) c None (rd_clock rd AtFinish)]
                   else
                     (let key = trim (sh_stdout outcome) @ CHR 0x00 # ''exit:'' @ debug_code (sh_exit_code outcome) in
                      case (kind, c) of
                        (CatchUpFirst, Some cu) \<Rightarrow>
                          next_round run (w'\<lparr>wt_previous := Some key\<rparr>)
                            [obj_of (attempt_fields run attempt @ outcome_fields outcome
                               @ [(''note'', JStr (first_note X cu))] @ catch_up_until X kind c)] rd
                      | _ \<Rightarrow>
                          (case record_poll_attempt (wt_previous w) key
                                  (obj_of (attempt_fields run attempt @ outcome_fields outcome)) of
                             (previous, events) \<Rightarrow> next_round run (w'\<lparr>wt_previous := previous\<rparr>) events rd)))))"

text \<open>One round of the loop, and the loop over the rounds the world has in store.\<close>

definition watch_round :: "watch_externals \<Rightarrow> watch_run \<Rightarrow> watcher \<Rightarrow> round \<Rightarrow> watch_step" where
  "watch_round X run w rd =
     (if wt_attempt w > 0 \<and> (\<not> rd_in_stage rd \<or> rd_cancelled rd) then Abandoned
      else (case plan_attempt X run w rd of
              (kind, catch_up', remaining) \<Rightarrow>
                (let attempt = wt_attempt w + 1 in
                 after_attempt X run kind (w\<lparr>wt_attempt := attempt, wt_catch_up := catch_up'\<rparr>) rd
                   (rd_answer rd (attempt_limit run kind attempt remaining rd)))))"

fun run_watch :: "watch_externals \<Rightarrow> watch_run \<Rightarrow> watcher \<Rightarrow> round list \<Rightarrow> watch_step list" where
  "run_watch X run w [] = []"
| "run_watch X run w (rd # rds) =
     (case watch_round X run w rd of
        Sleeps w' events d \<Rightarrow> Sleeps w' events d # run_watch X run w' rds
      | step \<Rightarrow> [step])"

section \<open>What the outcome does to the task\<close>

datatype finish = Advanced | Discarded | Stuck string bool

text \<open>
  finish_detached, by what advance_from_stage answered; \<open>blamed\<close> is the stage it names to blame.
  A \<open>Stuck\<close> carries the reason and whether its event was recorded already.
\<close>

definition finish_detached :: "string \<Rightarrow> string \<Rightarrow> (engine_error, unit) result \<Rightarrow> finish" where
  "finish_detached stage_name blamed answer =
     (case answer of
        Inr _ \<Rightarrow> Advanced
      | Inl err \<Rightarrow>
          (case err of
             UnknownOutcome stage outcome \<Rightarrow>
               Stuck (''stage '' @ squote stage @ '': command finished with outcome '' @ squote outcome
                 @ '' but the stage has no '' @ squote ''on:'' @ '' edge for it'') False
           | StageMovedOn _ _ \<Rightarrow> Discarded
           | TaskCancelled _ \<Rightarrow> Discarded
           | _ \<Rightarrow>
               Stuck (if blamed = stage_name then
                        ''stage '' @ squote stage_name @ '': command completed but the transition failed: ''
                        @ show_engine_error err
                      else
                        ''stage '' @ squote blamed @ '': could not be entered after '' @ squote stage_name
                        @ '' completed: '' @ show_engine_error err)
                 (case err of EngineTemplate _ _ \<Rightarrow> True | _ \<Rightarrow> False)))"

section \<open>Lemmas\<close>

lemma remaining_zero: "remaining_budget at now = duration_ZERO \<longleftrightarrow> at \<le> now"
proof (cases "at - now < 0")
  case False
  then have "nat (at - now) div 1000000000 = 0 \<and> nat (at - now) mod 1000000000 = 0 \<longleftrightarrow> nat (at - now) = 0"
    by (metis div_mult_mod_eq mult_zero_left add_0 div_0 mod_0)
  then show ?thesis using False
    by (auto simp: remaining_budget_def to_std_def duration_ZERO_def)
qed (auto simp: remaining_budget_def to_std_def)

text \<open>What the code reports for an attempt, from its answer and kind alone.\<close>

definition verdict :: "watch_externals \<Rightarrow> watch_run \<Rightarrow> attempt_kind \<Rightarrow> (shell_error, shell_outcome) result \<Rightarrow> string option" where
  "verdict X run kind answer =
     (case answer of
        Inl (ShellSpawn _) \<Rightarrow> Some ''error''
      | Inl (ShellIo _) \<Rightarrow> (if kind = Final then Some ''timeout'' else None)
      | Inr outcome \<Rightarrow>
          (case matching (wx_is_match X) (wn_outcomes run) (sh_stdout outcome) of
             Some rule \<Rightarrow> Some (po_then rule)
           | None \<Rightarrow> (if sh_timed_out outcome \<or> kind = Final then Some ''timeout'' else None)))"

lemma next_round_sleeps: "\<exists>d. next_round run w ev rd = Sleeps w ev d"
  by (simp add: next_round_def)

lemma after_reports:
  "verdict X run kind answer = Some v \<Longrightarrow> \<exists>c ev. after_attempt X run kind w rd answer = Reports v c ev"
  by (auto simp: verdict_def after_attempt_def Let_def
      split: sum.splits shell_error.splits option.splits if_splits prod.splits)

lemma after_sleeps:
  assumes "verdict X run kind answer = None"
  shows "kind \<noteq> Final \<and> (\<exists>w' ev d. after_attempt X run kind w rd answer = Sleeps w' ev d
    \<and> wt_attempt w' = wt_attempt w \<and> wt_catch_up w' = wt_catch_up w)"
proof (cases answer)
  case (Inl err)
  then obtain e where err: "err = ShellIo e" and k: "kind \<noteq> Final"
    using assms by (cases err) (auto simp: verdict_def split: if_splits)
  show ?thesis
    using k by (auto simp: Inl err after_attempt_def Let_def next_round_def record_poll_attempt_def
        split: attempt_kind.split option.split)
next
  case (Inr out)
  then have m: "matching (wx_is_match X) (wn_outcomes run) (sh_stdout out) = None"
    and k: "kind \<noteq> Final" "\<not> sh_timed_out out"
    using assms by (auto simp: verdict_def split: option.splits if_splits)
  show ?thesis
    using k by (auto simp: Inr m after_attempt_def Let_def next_round_def record_poll_attempt_def
        split: attempt_kind.split option.split)
qed

text \<open>A round that is looked at: its kind, the catch-up it leaves, and the limit of its attempt.\<close>

definition round_answer :: "watch_externals \<Rightarrow> watch_run \<Rightarrow> watcher \<Rightarrow> round \<Rightarrow> (shell_error, shell_outcome) result" where
  "round_answer X run w rd =
     (case plan_attempt X run w rd of
        (kind, _, remaining) \<Rightarrow> rd_answer rd (attempt_limit run kind (wt_attempt w + 1) remaining rd))"

lemma watch_round_cases:
  assumes "plan_attempt X run w rd = (kind, c, remaining)"
  shows "(\<exists>ev cap. watch_round X run w rd = Abandoned
      \<or> (\<exists>v. verdict X run kind (round_answer X run w rd) = Some v \<and> watch_round X run w rd = Reports v cap ev))
    \<or> (\<exists>w' ev d. watch_round X run w rd = Sleeps w' ev d \<and> kind \<noteq> Final \<and> wt_catch_up w' = c
         \<and> verdict X run kind (round_answer X run w rd) = None)"
proof (cases "wt_attempt w > 0 \<and> (\<not> rd_in_stage rd \<or> rd_cancelled rd)")
  case False
  let ?w = "w\<lparr>wt_attempt := wt_attempt w + 1, wt_catch_up := c\<rparr>"
  have run: "watch_round X run w rd = after_attempt X run kind ?w rd (round_answer X run w rd)"
    using False assms by (auto simp: watch_round_def round_answer_def Let_def)
  show ?thesis
  proof (cases "verdict X run kind (round_answer X run w rd)")
    case None
    then show ?thesis using after_sleeps [OF None, of ?w rd] run by auto
  next
    case (Some v)
    then show ?thesis using after_reports [OF Some, of ?w rd] run by auto
  qed
qed (auto simp: watch_round_def)

lemma plan_open: "window_end run w = Some at \<Longrightarrow> rd_clock rd AtTop < at \<Longrightarrow>
    \<exists>r. plan_attempt X run w rd = (Regular, wt_catch_up w, Some r)"
  using remaining_zero [of at "rd_clock rd AtTop"] by (simp add: plan_attempt_def)

lemma plan_over: "window_end run w = Some at \<Longrightarrow> at \<le> rd_clock rd AtTop \<Longrightarrow>
    plan_attempt X run w rd = (case started_catch_up X run w at rd of
        Some c \<Rightarrow> (CatchUpFirst, Some c, Some (remaining_budget (cu_end c) (rd_clock rd AtCatchUp)))
      | None \<Rightarrow> (Final, wt_catch_up w, Some duration_ZERO))"
  using remaining_zero [of at "rd_clock rd AtTop"] by (simp add: plan_attempt_def)

lemma plan_final:
  assumes "plan_attempt X run w rd = (Final, c, remaining)"
  shows "\<exists>at. window_end run w = Some at \<and> at \<le> rd_clock rd AtTop"
  using assms remaining_zero by (auto simp: plan_attempt_def Let_def split: option.splits if_splits)

lemma started_once: "started_catch_up X run w at rd = Some c \<Longrightarrow> wt_catch_up w = None"
  by (auto simp: started_catch_up_def Let_def split: option.splits if_splits)

lemma started_end:
  assumes "started_catch_up X run w at rd = Some c"
  shows "\<exists>t. w_timeout (wn_watch run) = Some t \<and> cu_end c = rd_clock rd WhenOver + span X (catch_up_len t)"
  using assms by (auto simp: started_catch_up_def Let_def split: option.splits if_splits)


text \<open>A stretch of rounds that keeps something about the watcher adds at most its own length.\<close>

lemma run_stretch:
  assumes step: "\<And>w rd w' ev d. rd \<in> set rds \<Longrightarrow> P w \<Longrightarrow> watch_round X run w rd = Sleeps w' ev d \<Longrightarrow> P w'"
    and "P w"
  shows "\<exists>w'. P w' \<and> length (run_watch X run w (rds @ rest)) \<le> length rds + length (run_watch X run w' rest)"
  using assms
proof (induction rds arbitrary: w)
  case (Cons rd rds)
  show ?case
  proof (cases "watch_round X run w rd")
    case (Sleeps w' ev d)
    have "P w'" using Cons.prems(1) [of rd w w' ev d] Cons.prems(2) Sleeps by simp
    moreover have "P x \<Longrightarrow> watch_round X run x r = Sleeps y ev d \<Longrightarrow> P y" if "r \<in> set rds" for r x y ev d
      using Cons.prems(1) [of r x y ev d] that by simp
    ultimately obtain v where "P v" "length (run_watch X run w' (rds @ rest)) \<le> length rds + length (run_watch X run v rest)"
      using Cons.IH [of w'] by blast
    then show ?thesis using Sleeps by auto
  qed (use Cons.prems(2) in auto)
qed auto

lemma sleeps_catch_up:
  assumes "watch_round X run w rd = Sleeps w' ev d"
  shows "\<exists>kind remaining. plan_attempt X run w rd = (kind, wt_catch_up w', remaining) \<and> kind \<noteq> Final"
proof -
  obtain kind c remaining where plan: "plan_attempt X run w rd = (kind, c, remaining)"
    by (cases "plan_attempt X run w rd") auto
  then show ?thesis
    using watch_round_cases [OF plan] assms by auto
qed

lemma catch_up_stays:
  assumes "watch_round X run w rd = Sleeps w' ev d" and "wt_catch_up w = Some c"
  shows "wt_catch_up w' = Some c \<and> rd_clock rd AtTop < cu_end c"
proof -
  obtain kind remaining where plan: "plan_attempt X run w rd = (kind, wt_catch_up w', remaining)" "kind \<noteq> Final"
    using sleeps_catch_up [OF assms(1)] by blast
  have at: "window_end run w = Some (cu_end c)"
    using assms(2) by (simp add: window_end_def)
  have no: "started_catch_up X run w (cu_end c) rd = None"
    using started_once assms(2) by (cases "started_catch_up X run w (cu_end c) rd") force+
  show ?thesis
  proof (cases "rd_clock rd AtTop < cu_end c")
    case True
    then show ?thesis using plan_open [OF at True, of X] plan assms(2) by auto
  next
    case False
    then show ?thesis using plan_over [OF at, of rd X] plan no by simp
  qed
qed

lemma no_catch_up_open:
  assumes "watch_round X run w rd = Sleeps w' ev d" and "wt_catch_up w = None"
    and "wn_deadline run = Some dl" and "rd_clock rd AtTop < dl"
  shows "wt_catch_up w' = None"
proof -
  have "window_end run w = Some dl" using assms(2,3) by (simp add: window_end_def)
  from plan_open [OF this assms(4), of X] show ?thesis
    using sleeps_catch_up [OF assms(1)] assms(2) by auto
qed

lemma over_starts_catch_up:
  assumes "watch_round X run w rd = Sleeps w' ev d" and "wt_catch_up w = None"
    and "wn_deadline run = Some dl" and "dl \<le> rd_clock rd AtTop"
  shows "\<exists>c. wt_catch_up w' = Some c \<and> started_catch_up X run w dl rd = Some c"
proof -
  have "window_end run w = Some dl" using assms(2,3) by (simp add: window_end_def)
  from plan_over [OF this assms(4), of X] show ?thesis
    using sleeps_catch_up [OF assms(1)]
    by (cases "started_catch_up X run w dl rd"; cases "wt_catch_up w'") auto
qed

text \<open>
  C25. A watcher with a timeout ends: it runs no attempt after the first round that starts half an
  hour after the round that first found the deadline passed, however its command behaves.
  Chrono's span of the catch-up, which is never longer than half an hour, is exact.
\<close>

theorem late_watcher_gives_up:
  assumes "wn_deadline run = Some dl"
    and "list_all (\<lambda>rd. rd_clock rd AtTop < dl) before"
    and "dl \<le> rd_clock found AtTop"
    and "rd_clock found WhenOver + 1800 * 1000000000 \<le> rd_clock late AtTop"
    and "\<forall>t. w_timeout (wn_watch run) = Some t \<longrightarrow> span X (catch_up_len t) \<le> 1800 * 1000000000"
  shows "length (run_watch X run watcher_new (before @ found # between @ late # after))
    \<le> length before + length between + 2"
proof -
  let ?tail = "between @ late # after"
  obtain w where w: "wt_catch_up w = None"
    and len: "length (run_watch X run watcher_new (before @ found # ?tail))
      \<le> length before + length (run_watch X run w (found # ?tail))"
    using run_stretch [where P = "\<lambda>w. wt_catch_up w = None" and rds = before and X = X and run = run
        and w = watcher_new and rest = "found # ?tail"] assms(1,2) no_catch_up_open
    by (auto simp: list_all_iff watcher_new_def)
  have "length (run_watch X run w (found # ?tail)) \<le> length between + 2"
  proof (cases "watch_round X run w found")
    case (Sleeps w' ev d)
    obtain c where c: "wt_catch_up w' = Some c" "started_catch_up X run w dl found = Some c"
      using over_starts_catch_up [OF Sleeps w assms(1,3)] by blast
    have end': "cu_end c \<le> rd_clock late AtTop"
      using started_end [OF c(2)] assms(4,5) by force
    obtain v where v: "wt_catch_up v = Some c"
      and len': "length (run_watch X run w' (between @ late # after))
        \<le> length between + length (run_watch X run v (late # after))"
      using run_stretch [where P = "\<lambda>w. wt_catch_up w = Some c" and rds = between and X = X and run = run
          and w = w' and rest = "late # after"] c(1) catch_up_stays by blast
    have "length (run_watch X run v (late # after)) \<le> 1"
      using catch_up_stays [OF _ v, of X run late] end'
      by (cases "watch_round X run v late") force+
    then show ?thesis using Sleeps len' by simp
  qed simp_all
  then show ?thesis using len by simp
qed

text \<open>
  No attempt of a watcher with a timeout can hang: it may run for what is left of the window or
  for a minute, whichever is longer; the first attempt of a stage just entered never longer than the
  window; and the final attempt for at most a minute and at most its interval.
\<close>

theorem attempts_are_bounded:
  assumes "plan_attempt X run w rd = (kind, c, remaining)" and "window_end run w = Some at"
  shows "case attempt_limit run kind attempt remaining rd of
      None \<Rightarrow> False
    | Some limit \<Rightarrow>
        limit \<le> max (case remaining of Some r \<Rightarrow> r | None \<Rightarrow> duration_ZERO) (from_secs 60)
        \<and> (if kind = Final then limit \<le> from_secs 60 \<and> limit \<le> interval_now run (rd_clock rd FinalCap) else True)
        \<and> (if kind = Regular \<and> attempt = 1 \<and> or_zero (to_std (rd_clock rd Age - wn_entered_at run))
               \<le> final_attempt_limit (interval_now run (rd_clock rd AgeCap))
           then Some limit = remaining else True)"
proof -
  obtain r where r: "remaining = Some r"
    using assms by (auto simp: plan_attempt_def Let_def split: if_splits option.splits)
  have cap: "final_attempt_limit i \<le> from_secs 60" "final_attempt_limit i \<le> i" for i
    by (simp_all add: final_attempt_limit_def)
  have "max r (final_attempt_limit i) \<le> max r (from_secs 60)" for i
    using cap(1) by (simp add: max.coboundedI2)
  then show ?thesis
    using cap by (auto simp: r attempt_limit_def max.coboundedI2)
qed

section \<open>Examples\<close>

text \<open>A watcher with a timeout of 10 nanoseconds whose command prints nothing, or hangs.\<close>

definition example_externals :: watch_externals where
  "example_externals =
     \<lparr>wx_chrono = example_chrono, wx_rfc3339 = (\<lambda>t. ''stamp''), wx_hms = (\<lambda>t. ''12:00:00''),
      wx_is_match = (\<lambda>p s. p = s), wx_json = (\<lambda>s. Inl ''not json'')\<rparr>"

definition example_watch_run :: watch_run where
  "example_watch_run =
     \<lparr>wn_stage = ''ci'', wn_command = Inline ''gh pr checks'', wn_capture = None,
      wn_watch = \<lparr>w_command = Inline ''gh pr checks'', w_env = [], w_interval = from_secs 30,
        w_timeout = Some (Duration 0 10), w_backoff = [], w_outcomes = []\<rparr>,
      wn_entered_at = 0, wn_deadline = Some 10,
      wn_outcomes = [\<lparr>po_pattern = ''SUCCESS'', po_then = ''done''\<rparr>]\<rparr>"

definition example_round :: "bool \<Rightarrow> time \<Rightarrow> round" where
  "example_round hangs now =
     \<lparr>rd_in_stage = True, rd_cancelled = False, rd_clock = (\<lambda>_. now), rd_ran = Duration 0 1,
      rd_answer = (\<lambda>limit. Inr \<lparr>sh_exit_code = (if hangs then None else Some 1), sh_stdout = '''',
        sh_stderr = '''', sh_duration = Duration 0 1, sh_timed_out = hangs, sh_escaped = False\<rparr>)\<rparr>"

lemma example_no_match: "matching (wx_is_match example_externals) (wn_outcomes example_watch_run) '''' = None"
  by code_simp

lemma example_plan: "plan_attempt example_externals example_watch_run watcher_new (example_round b 3) =
    (Regular, None, Some (Duration 0 7))"
  by (simp add: plan_attempt_def window_end_def watcher_new_def example_watch_run_def example_round_def
      remaining_budget_def to_std_def duration_ZERO_def)

lemma example_killed:
  "\<exists>ev. watch_round example_externals example_watch_run watcher_new (example_round True 3) = Reports ''timeout'' None ev"
proof -
  have "wn_outcomes example_watch_run = [\<lparr>po_pattern = ''SUCCESS'', po_then = ''done''\<rparr>]"
    by (simp add: example_watch_run_def)
  moreover have "\<not> 0 < wt_attempt watcher_new" by (simp add: watcher_new_def)
  ultimately show ?thesis
    using example_no_match example_plan [of True]
    by (simp add: watch_round_def after_attempt_def Let_def example_round_def)
qed


theorem late_watcher_gives_up_witness:
  "length (run_watch example_externals example_watch_run watcher_new
     [example_round False 3, example_round False 20, example_round False (20 + 1800 * 1000000000),
      example_round False (30 + 1800 * 1000000000)]) \<le> 3"
proof -
  have "span example_externals (catch_up_len (Duration 0 10)) \<le> 1800 * 1000000000"
    by (simp add: span_def example_externals_def example_chrono_def catch_up_len_def from_secs_def
        min_def less_eq_duration_def)
  then show ?thesis
    using late_watcher_gives_up [of example_watch_run 10 "[example_round False 3]" "example_round False 20"
        "example_round False (20 + 1800 * 1000000000)" example_externals "[]"
        "[example_round False (30 + 1800 * 1000000000)]"]
    by (simp add: example_watch_run_def example_round_def)
qed

theorem attempts_are_bounded_witness:
  "\<exists>limit. attempt_limit example_watch_run Regular 2 (Some (Duration 0 7)) (example_round False 3) = Some limit
     \<and> limit \<le> max (Duration 0 7) (from_secs 60)"
proof -
  have "window_end example_watch_run watcher_new = Some 10"
    by (simp add: window_end_def watcher_new_def example_watch_run_def)
  from attempts_are_bounded [where attempt = 2, OF example_plan [of False] this] show ?thesis
    by (auto split: option.splits)
qed

end
