(* ===== verification/ReadOnly.thy ===== *)
theory ReadOnly
  imports Pause Watch Report
begin

text \<open>
  The check of a read-only role around its turn (engine/turn.rs: read_only_baseline,
  read_only_verdict, unverified_note): the worktree is compared with the baseline recorded before
  the turn, which a resumed turn inherits. The table of
  \<open>worktree_changed\<close> events is an argument and a result, so that recording one once can be stated;
  the baseline's event, git's answer and what \<open>append\<close> and \<open>list_for_session\<close> answer are arguments.
\<close>

section \<open>The check\<close>

record worktree_state =
  wk_head :: string
  wk_branch :: string
  wk_status_sha256 :: string
  wk_status_entries :: u64
  wk_status_preview :: "string list"

text \<open>\<open>ro_baseline\<close>: the newest worktree_baseline event of a session; \<open>ro_snapshot\<close>: git at a path.\<close>

record read_only_world =
  ro_baseline :: "string \<Rightarrow> (string, json option) result"
  ro_snapshot :: "string \<Rightarrow> (string, worktree_state) result"
  ro_listed :: bool
  ro_appended :: bool

definition short_sha :: "string \<Rightarrow> string" where
  "short_sha sha = (if 7 < length sha \<and> char_boundary (sha ! 7) then take 7 sha else sha)"

definition branch_label :: "string \<Rightarrow> string" where
  "branch_label br = (if br = [] then ''(detached)'' else br)"

record baseline =
  bl_cwd :: string
  bl_head :: string
  bl_branch :: string
  bl_sha :: string
  bl_entries :: u64

definition baseline_field :: "json \<Rightarrow> string \<Rightarrow> (string, string) result" where
  "baseline_field b key =
     (case Option.bind (jget key b) as_str of
        Some v \<Rightarrow> Inr v | None \<Rightarrow> Inl (''the worktree baseline has no '' @ squote key))"

definition read_baseline :: "read_only_world \<Rightarrow> string \<Rightarrow> (string, baseline) result" where
  "read_baseline W session_id =
     (case ro_baseline W session_id of
        Inl err \<Rightarrow> Inl (''could not read the worktree baseline: '' @ err)
      | Inr None \<Rightarrow> Inl ''this session has no worktree baseline''
      | Inr (Some b) \<Rightarrow>
          and_then (baseline_field b ''cwd'') (\<lambda>cwd.
          and_then (baseline_field b ''head'') (\<lambda>head.
          and_then (baseline_field b ''branch'') (\<lambda>br.
          and_then (baseline_field b ''status_sha256'') (\<lambda>sha.
            (case Option.bind (jget ''status_entries'' b) as_u64 of
               None \<Rightarrow> Inl (''the worktree baseline has no '' @ squote ''status_entries'')
             | Some n \<Rightarrow> Inr \<lparr>bl_cwd = cwd, bl_head = head, bl_branch = br, bl_sha = sha, bl_entries = n\<rparr>))))))"

text \<open>What differs: a phrase for the reason and a record for the event, field by field.\<close>

definition worktree_changes :: "baseline \<Rightarrow> worktree_state \<Rightarrow> (string \<times> json) list" where
  "worktree_changes b now =
     (if wk_head now \<noteq> bl_head b then
        [(''HEAD '' @ short_sha (bl_head b) @ '' '' @ ARROW @ '' '' @ short_sha (wk_head now),
          obj_of [(''field'', JStr ''head''), (''before'', JStr (bl_head b)), (''after'', JStr (wk_head now))])]
      else [])
   @ (if wk_branch now \<noteq> bl_branch b then
        [(''branch '' @ branch_label (bl_branch b) @ '' '' @ ARROW @ '' '' @ branch_label (wk_branch now),
          obj_of [(''field'', JStr ''branch''), (''before'', JStr (bl_branch b)), (''after'', JStr (wk_branch now))])]
      else [])
   @ (if wk_status_sha256 now \<noteq> bl_sha b then
        [((if bl_entries b = wk_status_entries now
           then ''git status or file contents changed ('' else ''git status changed ('')
            @ show_nat (unat (wk_status_entries now)) @ '' entries)'',
          obj_of [(''field'', JStr ''status''), (''before'', jword (bl_entries b)),
                  (''after'', jword (wk_status_entries now)), (''before_sha256'', JStr (bl_sha b)),
                  (''after_sha256'', JStr (wk_status_sha256 now))])]
      else [])"

definition changed_reason :: "string \<Rightarrow> string \<Rightarrow> (string \<times> json) list \<Rightarrow> string" where
  "changed_reason role stage_name changes =
     ''read-only role '' @ squote role @ '' changed the worktree in stage '' @ squote stage_name @ '': ''
     @ join ''; '' (map fst changes)
     @ ''. Nothing was reverted: inspect the worktree, reset it, then choco task retry''"

definition changed_event :: "string \<Rightarrow> string \<Rightarrow> (string \<times> json) list \<Rightarrow> worktree_state \<Rightarrow> string \<Rightarrow> json" where
  "changed_event role stage_name changes now reason =
     obj_of [(''stage'', JStr stage_name), (''role'', JStr role), (''changes'', JArr (map snd changes)),
             (''status_entries'', jword (wk_status_entries now)),
             (''status'', JArr (map JStr (wk_status_preview now))), (''message'', JStr reason)]"

type_synonym changed_events = "(string \<times> json) list"

text \<open>The worktree_changed event of a session is recorded once; a failed listing errs to twice.\<close>

definition record_change ::
  "read_only_world \<Rightarrow> string \<Rightarrow> json \<Rightarrow> changed_events \<Rightarrow> changed_events"
where
  "record_change W session_id ev evs =
     (if ro_listed W \<and> list_ex (\<lambda>(s, _). s = session_id) evs then evs
      else if ro_appended W then evs @ [(session_id, ev)] else evs)"

definition compare_worktree ::
  "read_only_world \<Rightarrow> string \<Rightarrow> string \<Rightarrow> string \<Rightarrow> changed_events \<Rightarrow>
   (string, string option) result \<times> changed_events"
where
  "compare_worktree W role stage_name session_id evs =
     (case and_then (read_baseline W session_id) (\<lambda>b. map_sum id (Pair b) (ro_snapshot W (bl_cwd b))) of
        Inl err \<Rightarrow> (Inl err, evs)
      | Inr (b, now) \<Rightarrow>
          (let changes = worktree_changes b now in
           if changes = [] then (Inr None, evs)
           else (let reason = changed_reason role stage_name changes in
                 (Inr (Some reason),
                  record_change W session_id (changed_event role stage_name changes now reason) evs))))"

definition unverified :: "workflow_definition \<Rightarrow> string \<Rightarrow> bool \<Rightarrow> string \<Rightarrow> string" where
  "unverified d stage_name outcome_pending err =
     ''could not verify that ''
     @ (case agent_role_of d stage_name of
          Some role \<Rightarrow> ''read-only role '' @ squote role | None \<Rightarrow> ''stage '' @ squote stage_name)
     @ '' left the worktree unchanged in stage '' @ squote stage_name @ '': '' @ err @ ''. ''
     @ (if outcome_pending
        then ''The turn'' @ [CHR 0x27] @ ''s outcome was not applied: inspect the worktree, then choco task retry''
        else ''Inspect the worktree, then choco task retry'')"

definition judge_read_only ::
  "read_only_world \<Rightarrow> workflow_definition \<Rightarrow> string \<Rightarrow> string \<Rightarrow> bool \<Rightarrow> changed_events \<Rightarrow>
   read_only_verdict \<times> changed_events"
where
  "judge_read_only W d stage_name session_id outcome_pending evs =
     (case agent_role_of d stage_name of
        None \<Rightarrow>
          (Unverified (unverified d stage_name outcome_pending
             (''stage '' @ squote stage_name @ '' has no agent_turn role in the workflow definition'')), evs)
      | Some role \<Rightarrow>
          (case map_of (wd_roles d) role of
             None \<Rightarrow>
               (Unverified (unverified d stage_name outcome_pending
                  (''stage '' @ squote stage_name @ '' has no agent_turn role in the workflow definition'')), evs)
           | Some rd \<Rightarrow>
               (if \<not> rd_read_only rd then (Clean, evs)
                else (case compare_worktree W role stage_name session_id evs of
                        (answer, evs) \<Rightarrow>
                          ((case answer of
                              Inr None \<Rightarrow> Clean
                            | Inr (Some reason) \<Rightarrow> Violation reason
                            | Inl err \<Rightarrow> Unverified (unverified d stage_name outcome_pending err)), evs)))))"

text \<open>The restart sweep's note when it has no session to ask about.\<close>

definition unverified_note :: "workflow_definition \<Rightarrow> string \<Rightarrow> string \<Rightarrow> string option" where
  "unverified_note d stage err =
     (let role = Option.bind (stage_of d stage) (\<lambda>s. kind_role (sd_kind s)) in
      case Option.bind role (map_of (wd_roles d)) of
        Some rd \<Rightarrow> (if \<not> rd_read_only rd then None else Some
          (''could not verify that read-only role '' @ squote (the role)
           @ '' left the worktree unchanged in stage '' @ squote stage @ '': '' @ err
           @ ''; inspect and reset the worktree before retrying''))
      | None \<Rightarrow> Some
          (case role of
             Some r \<Rightarrow> ''could not verify that read-only role '' @ squote r
               @ '' left the worktree unchanged in stage '' @ squote stage @ '': '' @ err
               @ ''; inspect and reset the worktree before retrying''
           | None \<Rightarrow> ''could not verify that stage '' @ squote stage
               @ '' left the worktree unchanged: it is not an agent_turn stage in the workflow definition ('' @ err
               @ ''); inspect and reset the worktree before retrying''))"

section \<open>The baseline\<close>

definition baseline_missing :: "json \<Rightarrow> string option" where
  "baseline_missing b =
     (case find (\<lambda>key. Option.bind (jget key b) as_str = None) [''cwd'', ''head'', ''branch'', ''status_sha256''] of
        Some key \<Rightarrow> Some key
      | None \<Rightarrow> (if Option.bind (jget ''status_entries'' b) as_u64 = None then Some ''status_entries'' else None))"

definition or_null :: "json option \<Rightarrow> json" where
  "or_null v = (case v of None \<Rightarrow> JNull | Some x \<Rightarrow> x)"

text \<open>The fields a baseline starts from: the resumed session's, or a snapshot of \<open>cwd\<close>.\<close>

definition baseline_source ::
  "read_only_world \<Rightarrow> string \<Rightarrow> string option \<Rightarrow> (string, (string \<times> json) list) result"
where
  "baseline_source W cwd resumed_session =
     (case resumed_session of
        Some previous \<Rightarrow>
          (case ro_baseline W previous of
             Inl err \<Rightarrow> Inl (''could not read the worktree baseline of session '' @ previous @ '' being resumed: '' @ err)
           | Inr None \<Rightarrow> Inl (''session '' @ previous @ '' being resumed has no worktree baseline; check the worktree, ''
               @ ''then choco task retry --fresh'')
           | Inr (Some prev) \<Rightarrow>
               (case baseline_missing prev of
                  Some key \<Rightarrow> Inl (''the worktree baseline of session '' @ previous @ '' being resumed has no ''
                    @ squote key @ ''; check the worktree, then choco task retry --fresh'')
                | None \<Rightarrow> Inr (map (\<lambda>key. (key, or_null (jget key prev)))
                      [''cwd'', ''head'', ''branch'', ''status_sha256'', ''status_entries'', ''status'']
                    @ [(''inherited_from'', JStr previous)])))
      | None \<Rightarrow>
          map_sum id (\<lambda>snap.
            [(''cwd'', JStr cwd), (''head'', JStr (wk_head snap)), (''branch'', JStr (wk_branch snap)),
             (''status_sha256'', JStr (wk_status_sha256 snap)), (''status_entries'', jword (wk_status_entries snap)),
             (''status'', JArr (map JStr (wk_status_preview snap))), (''inherited_from'', JNull)])
            (ro_snapshot W cwd))"

definition text_of :: "(string \<times> json) list \<Rightarrow> string \<Rightarrow> string" where
  "text_of kvs key =
     (case Option.bind (map_of kvs key) as_str of None \<Rightarrow> [] | Some s \<Rightarrow> s)"

definition baseline_message :: "string \<Rightarrow> (string \<times> json) list \<Rightarrow> string" where
  "baseline_message role kvs =
     ''worktree baseline for read-only role '' @ squote role @ '': HEAD '' @ short_sha (text_of kvs ''head'')
     @ '' on '' @ branch_label (text_of kvs ''branch'') @ '', ''
     @ (case Option.bind (map_of kvs ''status_entries'') as_u64 of
          None \<Rightarrow> [] | Some n \<Rightarrow> show_nat (unat n)) @ '' status entries''"

definition read_only_baseline ::
  "read_only_world \<Rightarrow> string \<Rightarrow> string \<Rightarrow> string \<Rightarrow> string option \<Rightarrow> (engine_error, json) result"
where
  "read_only_baseline W stage role cwd resumed_session =
     map_sum (ReadOnlyBaseline stage role)
       (\<lambda>kvs. obj_of ([(''stage'', JStr stage), (''role'', JStr role)] @ kvs
                         @ [(''message'', JStr (baseline_message role kvs))]))
       (baseline_source W cwd resumed_session)"

section \<open>What the check catches\<close>

text \<open>
  The baselines of a turn and of the turns that resume it, each read and written in its own world:
  \<open>taken cwd snap b\<close> says \<open>b\<close> goes back to the snapshot \<open>snap\<close> of \<open>cwd\<close>.
\<close>

inductive taken :: "string \<Rightarrow> worktree_state \<Rightarrow> json \<Rightarrow> bool" where
  fresh: "ro_snapshot W cwd = Inr snap \<Longrightarrow> read_only_baseline W stage role cwd None = Inr b \<Longrightarrow> taken cwd snap b"
| inherited: "taken cwd snap b \<Longrightarrow> ro_baseline W previous = Inr (Some b) \<Longrightarrow>
    read_only_baseline W stage role cwd' (Some previous) = Inr b' \<Longrightarrow> taken cwd snap b'"

definition same_worktree :: "worktree_state \<Rightarrow> worktree_state \<Rightarrow> bool" where
  "same_worktree a b =
     (wk_head a = wk_head b \<and> wk_branch a = wk_branch b \<and> wk_status_sha256 a = wk_status_sha256 b)"

definition baseline_is :: "string \<Rightarrow> worktree_state \<Rightarrow> json \<Rightarrow> bool" where
  "baseline_is cwd snap b =
     (jget ''cwd'' b = Some (JStr cwd) \<and> jget ''head'' b = Some (JStr (wk_head snap))
      \<and> jget ''branch'' b = Some (JStr (wk_branch snap))
      \<and> jget ''status_sha256'' b = Some (JStr (wk_status_sha256 snap))
      \<and> jget ''status_entries'' b = Some (jword (wk_status_entries snap)))"

lemma taken_is: "taken cwd snap b \<Longrightarrow> baseline_is cwd snap b"
proof (induction rule: taken.induct)
  case (fresh W cwd snap stage role b)
  then show ?case
    by (auto simp: read_only_baseline_def baseline_source_def baseline_is_def jget_obj_of_map)
next
  case (inherited cwd snap b W previous stage role cwd' b')
  have none: "baseline_missing b = None"
    using inherited.IH by (auto simp: baseline_missing_def baseline_is_def jword_def)
  then show ?case
    using inherited
    by (auto simp: read_only_baseline_def baseline_source_def baseline_is_def jget_obj_of_map or_null_def)
qed

lemma baseline_reads:
  assumes "baseline_is cwd snap b" and "ro_baseline W session_id = Inr (Some b)"
  shows "read_baseline W session_id =
    Inr \<lparr>bl_cwd = cwd, bl_head = wk_head snap, bl_branch = wk_branch snap, bl_sha = wk_status_sha256 snap,
         bl_entries = wk_status_entries snap\<rparr>"
  using assms by (simp add: baseline_is_def read_baseline_def baseline_field_def result_simps jword_def)

lemma no_changes_iff:
  "worktree_changes \<lparr>bl_cwd = cwd, bl_head = wk_head snap, bl_branch = wk_branch snap,
     bl_sha = wk_status_sha256 snap, bl_entries = n\<rparr> now = [] \<longleftrightarrow> same_worktree snap now"
  by (auto simp: worktree_changes_def same_worktree_def)

text \<open>
  C9. A read-only role cannot change the worktree unnoticed: the check compares it with the snapshot
  taken before the first of the turns that resume one another, in the directory of that turn. It is
  clean exactly when HEAD, branch and contents are as they were; otherwise the change is reported, and
  recorded for the session once; and when git cannot be asked the check is not passed.
\<close>

theorem read_only_change_is_caught:
  assumes "taken cwd snap b" and "ro_baseline W session_id = Inr (Some b)"
    and "agent_role_of d stage_name = Some role" and "map_of (wd_roles d) role = Some rd" and "rd_read_only rd"
  shows "case judge_read_only W d stage_name session_id pending evs of (found, evs') \<Rightarrow>
    (case ro_snapshot W cwd of
       Inl err \<Rightarrow> (case found of Unverified why \<Rightarrow> evs' = evs | _ \<Rightarrow> False)
     | Inr now \<Rightarrow>
         (if same_worktree snap now then found = Clean \<and> evs' = evs
          else (case found of
                  Violation why \<Rightarrow>
                    (if ro_listed W \<and> list_ex (\<lambda>(s, _). s = session_id) evs then evs' = evs
                     else if ro_appended W then \<exists>ev. evs' = evs @ [(session_id, ev)] else evs' = evs)
                | _ \<Rightarrow> False)))"
proof -
  note read = baseline_reads [OF taken_is [OF assms(1)] assms(2)]
  show ?thesis
  proof (cases "ro_snapshot W cwd")
    case (Inl err)
    then show ?thesis
      using assms(3-5) by (simp add: judge_read_only_def compare_worktree_def read result_simps)
  next
    case (Inr now)
    then show ?thesis
      using assms(3-5) no_changes_iff [of cwd snap "wk_status_entries snap" now]
      by (auto simp: judge_read_only_def compare_worktree_def read result_simps Let_def record_change_def)
  qed
qed

text \<open>A role that may write, by contrast, is not asked about.\<close>

section \<open>Example\<close>

definition example_worktree :: "string \<Rightarrow> worktree_state" where
  "example_worktree head =
     \<lparr>wk_head = head, wk_branch = ''refs/heads/choco'', wk_status_sha256 = ''e3b0'', wk_status_entries = 0,
      wk_status_preview = []\<rparr>"

definition example_world :: "(string \<Rightarrow> json option) \<Rightarrow> string \<Rightarrow> read_only_world" where
  "example_world baselines head =
     \<lparr>ro_baseline = (\<lambda>s. Inr (baselines s)), ro_snapshot = (\<lambda>_. Inr (example_worktree head)),
      ro_listed = True, ro_appended = True\<rparr>"

definition example_first_baseline :: json where
  "example_first_baseline = projr (read_only_baseline (example_world (\<lambda>_. None) ''aaaaaaaaaa'') ''review'' ''reviewer'' ''/w'' None)"

definition example_second :: json where
  "example_second = projr (read_only_baseline
     (example_world (\<lambda>s. if s = ''s1'' then Some example_first_baseline else None) ''bbbbbbbbbb'')
     ''review'' ''reviewer'' ''/w'' (Some ''s1''))"

lemma example_taken: "taken ''/w'' (example_worktree ''aaaaaaaaaa'') example_second"
proof (rule inherited)
  show "taken ''/w'' (example_worktree ''aaaaaaaaaa'') example_first_baseline"
    by (rule fresh [of "example_world (\<lambda>_. None) ''aaaaaaaaaa''"])
       (simp_all add: example_world_def example_first_baseline_def read_only_baseline_def baseline_source_def)
  show "ro_baseline (example_world (\<lambda>s. if s = ''s1'' then Some example_first_baseline else None) ''bbbbbbbbbb'') ''s1''
      = Inr (Some example_first_baseline)"
    by (simp add: example_world_def)
  show "read_only_baseline (example_world (\<lambda>s. if s = ''s1'' then Some example_first_baseline else None) ''bbbbbbbbbb'')
      ''review'' ''reviewer'' ''/w'' (Some ''s1'') = Inr example_second"
    by code_simp
qed

definition example_review :: workflow_definition where
  "example_review =
     \<lparr>wd_name = ''panel'',
      wd_roles = [(''reviewer'', \<lparr>rd_cli = None, rd_model = None, rd_system_prompt_file = None,
         rd_isolation = InheritOperatorConfig, rd_disallowed_tools = [], rd_read_only = True,
         rd_claude_settings = []\<rparr>)],
      wd_stages = [(''review'', StageDef (AgentTurn ''reviewer'' None None []) [(''done'', ''end'')] None),
                   (''end'', StageDef Terminal [] None)],
      wd_worktree = True\<rparr>"

theorem read_only_change_is_caught_witness:
  "case judge_read_only (example_world (\<lambda>s. if s = ''s2'' then Some example_second else None) ''bbbbbbbbbb'')
       example_review ''review'' ''s2'' True [] of
     (found, evs) \<Rightarrow> (case found of Violation why \<Rightarrow> length evs = 1 | _ \<Rightarrow> False)"
proof -
  let ?W = "example_world (\<lambda>s. if s = ''s2'' then Some example_second else None) ''bbbbbbbbbb''"
  have "ro_baseline ?W ''s2'' = Inr (Some example_second)" by (simp add: example_world_def)
  moreover have "agent_role_of example_review ''review'' = Some ''reviewer''" by code_simp
  ultimately show ?thesis
    using read_only_change_is_caught [where W = ?W and session_id = "''s2''" and d = example_review
        and stage_name = "''review''" and role = "''reviewer''" and pending = True and evs = "[]", OF example_taken]
    by (auto simp: example_review_def example_world_def example_worktree_def same_worktree_def
        split: prod.splits read_only_verdict.splits)
qed

end
