(* ===== verification/TurnEnd.thy ===== *)
theory TurnEnd
  imports ReadOnly
begin

text \<open>
  The end of an agent's turn (engine/turn.rs): what the watcher makes of the session's row, the
  outcome and the capture it reads off the turn, the transition or the branch's end it applies
  (advance_from_stage of engine/mod.rs, finish_branch of engine/parallel.rs), what parks the task, and
  the event that tells it. The state is Pause's tables with the two kinds of events that matter here.
  Entering the next stage and starting a stage again are arguments: functions of the tables. A failed
  database read is left out, except those of the report and of the reply, which the code recovers from
  in different ways. An outer \<open>None\<close> is a panic.
\<close>

section \<open>How a turn ended\<close>

datatype turn_end =
    Completed
  | Incomplete string
  | TurnCancelled
  | TurnPaused
  | TurnDaemonStopped string
  | SessionGone

text \<open>engine/sweep.rs; the watcher and the restart sweep say the same.\<close>

definition agent_reason :: "string \<Rightarrow> string" where
  "agent_reason stage =
     ''stage '' @ squote stage @ '' was running an agent turn when the daemon stopped; ''
     @ squote ''choco task retry'' @ '' continues it, resuming the agent'' @ [CHR 0x27] @ ''s session when it can''"

text \<open>One look of the watcher at the session's row: how the turn ended, \<open>None\<close> to look again.\<close>

definition role_name :: "workflow_definition \<Rightarrow> string \<Rightarrow> string" where
  "role_name d stage = (case agent_role_of d stage of Some r \<Rightarrow> r | None \<Rightarrow> ''unknown'')"

definition turn_watch ::
  "workflow_definition \<Rightarrow> string \<Rightarrow> (string, session option) result \<Rightarrow> turn_end option"
where
  "turn_watch d stage_name answer =
     (case answer of
        Inl err \<Rightarrow> Some (Incomplete (''stage '' @ squote stage_name @ '': lost track of the agent turn: '' @ err))
      | Inr None \<Rightarrow> Some SessionGone
      | Inr (Some run) \<Rightarrow>
     (if se_end_reason run = Some Cancelled then Some TurnCancelled
      else if se_end_reason run = Some Reaped then
        Some (Incomplete (''stage '' @ squote stage_name @ '': the agent turn was force-closed by ''
          @ ''the idle reaper before completing; '' @ squote ''choco task retry'' @ '' will resume it''))
      else if se_end_reason run = Some Interrupted then
        Some (Incomplete (''stage '' @ squote stage_name @ '': the agent'' @ [CHR 0x27] @ ''s turn was interrupted by a ''
          @ ''usage limit before it could report; '' @ squote ''choco task retry'' @ '' will resume it''))
      else if se_end_reason run = Some DaemonStopped then Some (TurnDaemonStopped (agent_reason stage_name))
      else if se_end_reason run = Some Paused then Some TurnPaused
      else if se_end_reason run = Some ClaudeSettingsRejected then
        Some (Incomplete (''stage '' @ squote stage_name @ '': Claude Code did not apply role ''
          @ squote (role_name d stage_name) @ [CHR 0x27]
          @ ''s claude_settings (it ignores the whole settings when one value is ''
          @ ''invalid), so choco stopped the turn; fix the value and run '' @ squote ''choco task retry''))
      else if se_end_reason run = Some ClaudeSettingsUnconfirmed then
        Some (Incomplete (''stage '' @ squote stage_name @ '': choco could not confirm that Claude Code applied role ''
          @ squote (role_name d stage_name) @ [CHR 0x27] @ ''s claude_settings, so it stopped the turn; ''
          @ ''the session'' @ [CHR 0x27] @ ''s error event says why; '' @ squote ''choco task retry'' @ '' tries again''))
      else if se_status run = session_status.Idle then Some Completed
      else if se_status run = Exited \<and> se_end_reason run = Some NoReport then
        Some (Incomplete (''stage '' @ squote stage_name @ '': the agent'' @ [CHR 0x27]
          @ ''s turn ended without calling report_outcome''))
      else if se_status run = Exited \<and> se_end_reason run = Some Lingered then
        Some (Incomplete (''stage '' @ squote stage_name @ '': after the turn ended, choco tried to kill ''
          @ ''what it may have left running (the agent'' @ [CHR 0x27] @ ''s process group or ''
          @ ''something it started); its session notes say what the last check ''
          @ ''saw, or that it could not check; work the turn started may be incomplete''))
      else if se_status run = Exited then
        Some (Incomplete (''stage '' @ squote stage_name @ '': the agent process exited without completing its turn''))
      else None))"

section \<open>What the turn says\<close>

text \<open>The world at the end of the turn: \<open>tw_report\<close> and \<open>tw_reply\<close> as read off the session's events.\<close>

record turn_world =
  tw_chrono :: chrono
  tw_json :: json_parser
  tw_print :: "json \<Rightarrow> string"
  tw_read_only :: read_only_world
  tw_registry :: registry
  tw_global :: "(global_config_error, global_config) result"
  tw_report :: "(string, json option) result"
  tw_reply :: "(string, string) result"
  tw_event_ok :: bool
  tw_now :: time
  tw_nows :: "time \<times> time \<times> time"
  tw_enter :: "string \<Rightarrow> string \<Rightarrow> json \<Rightarrow> engine \<Rightarrow> (engine_error, unit) result \<times> engine"
  tw_restart :: "reentry \<Rightarrow> engine \<Rightarrow> (string, unit) result \<times> engine"

record turn_reading =
  tr_captured :: "json option"
  tr_outcome :: string
  tr_note :: "string option"
  tr_source :: "string option"

definition somes :: "'a option list \<Rightarrow> 'a list" where
  "somes = List.map_filter id"

definition report_read :: "turn_world \<Rightarrow> json option \<times> string option" where
  "report_read W =
     (case tw_report W of
        Inr report \<Rightarrow> (report, None)
      | Inl err \<Rightarrow> (None, Some (''could not check for a report_outcome call ('' @ err @ ''); used the turn'' @ [CHR 0x27]
                            @ ''s reply instead'')))"

definition unroutable_note :: "capture option \<Rightarrow> json option \<Rightarrow> string option" where
  "unroutable_note capture report =
     (if capture \<noteq> Some CaptureJson
         \<and> (case report of None \<Rightarrow> False
            | Some r \<Rightarrow> Option.bind (jget ''outcome'' r) as_str \<noteq> Some TURN_DEFAULT_OUTCOME)
      then Some (''a report_outcome call was made, but this stage does not route on it ''
                 @ ''(it declares no '' @ squote ''capture: json'' @ '')'')
      else None)"

definition read_report :: "turn_world \<Rightarrow> json \<Rightarrow> turn_reading" where
  "read_report W report =
     (let bytes = length (tw_print W report) in
      if bytes > MAX_CAPTURE_BYTES then
        \<lparr>tr_captured = None, tr_outcome = TURN_DEFAULT_OUTCOME,
         tr_note = Some (''report not captured: '' @ show_nat bytes @ '' bytes exceeds the ''
                         @ show_nat MAX_CAPTURE_BYTES @ ''-byte limit''),
         tr_source = Some ''tool''\<rparr>
      else
        \<lparr>tr_captured = Some report, tr_outcome = fst (outcome_from_report report),
         tr_note = snd (outcome_from_report report), tr_source = Some ''tool''\<rparr>)"

definition read_reply :: "turn_world \<Rightarrow> capture \<Rightarrow> string option \<Rightarrow> string \<Rightarrow> turn_reading" where
  "read_reply W c unroutable reply =
     (case derive_agent_reply_capture (tw_json W) c (unwrap_code_fence (trim reply)) of
        (captured, capture_note) \<Rightarrow>
          (case turn_outcome c captured of
             (outcome, outcome_note) \<Rightarrow>
               (let text = join ''; '' (somes [if capture_note \<noteq> None then capture_note else outcome_note, unroutable]) in
                \<lparr>tr_captured = captured, tr_outcome = outcome,
                 tr_note = (if text = [] then None else Some text), tr_source = Some ''reply''\<rparr>)))"

text \<open>The outcome and the capture; \<open>Inl\<close>: the reply that was needed could not be read.\<close>

definition read_turn :: "turn_world \<Rightarrow> capture option \<Rightarrow> (string, turn_reading) result" where
  "read_turn W capture =
     (case (if capture = Some CaptureJson then fst (report_read W) else None) of
        Some report \<Rightarrow> Inr (read_report W report)
      | None \<Rightarrow>
          (let unroutable = unroutable_note capture (fst (report_read W)) in
           case capture of
             None \<Rightarrow> Inr \<lparr>tr_captured = None, tr_outcome = TURN_DEFAULT_OUTCOME, tr_note = unroutable,
                          tr_source = None\<rparr>
           | Some c \<Rightarrow> map_sum id (read_reply W c unroutable) (tw_reply W)))"

section \<open>Writes\<close>

definition stuck_in :: "turn_world \<Rightarrow> string \<Rightarrow> string \<Rightarrow> bool \<Rightarrow> engine \<Rightarrow> engine" where
  "stuck_in W task_id reason recorded e =
     e\<lparr>en_tasks := snd (mark_stuck (recorded \<or> tw_event_ok W) task_id reason (tw_now W) (en_tasks e))\<rparr>"

definition is_template_error :: "engine_error \<Rightarrow> bool" where
  "is_template_error err = (case err of EngineTemplate _ _ \<Rightarrow> True | _ \<Rightarrow> False)"

definition stage_to_blame :: "string \<Rightarrow> string \<Rightarrow> engine \<Rightarrow> string" where
  "stage_to_blame task_id from_stage e =
     (case map_of (en_rows e) task_id of Some row \<Rightarrow> ws_current_stage row | None \<Rightarrow> from_stage)"

definition put_row :: "turn_world \<Rightarrow> string \<Rightarrow> state_update \<Rightarrow> engine \<Rightarrow> engine" where
  "put_row W task_id u e =
     (case map_of (en_rows e) task_id of
        None \<Rightarrow> e
      | Some row \<Rightarrow> e\<lparr>en_rows := imap_insert task_id (update_state u (tw_now W) row) (en_rows e)\<rparr>)"

text \<open>\<open>advance_from_stage\<close> as a runner calls it: the watcher of a gate is not stopped.\<close>

definition advance_from_stage ::
  "turn_world \<Rightarrow> string \<Rightarrow> workflow_definition \<Rightarrow> string \<Rightarrow> string option \<Rightarrow> json option \<Rightarrow> engine \<Rightarrow>
   ((engine_error, unit) result \<times> engine) option"
where
  "advance_from_stage W task_id d outcome expected capture e =
     map_option (\<lambda>decision.
       case decision of
         Inl err \<Rightarrow> (Inl err, e)
       | Inr (next_stage, u) \<Rightarrow> tw_enter W next_stage outcome (su_payload u) (put_row W task_id u e))
       (decide_advance (tw_chrono W) d (tw_nows W) task_id
          (map_option ts_status (get_task task_id (en_tasks e))) (map_of (en_rows e) task_id) expected outcome capture)"

datatype branch_applied = BranchRecorded bool | BranchDropped string | BranchParked string

definition ended_done :: "workflow_definition \<Rightarrow> string \<Rightarrow> branch_outcome \<Rightarrow> bool" where
  "ended_done d branch out =
     (case checked_end branch (case branch_of d branch of None \<Rightarrow> [] | Some b \<Rightarrow> bf_results b) out of
        BranchDone _ _ _ \<Rightarrow> True | BranchFailed _ \<Rightarrow> False)"

definition not_entered :: "string \<Rightarrow> string \<Rightarrow> string \<Rightarrow> engine_error \<Rightarrow> string" where
  "not_entered what stage blamed err =
     (if blamed = stage then
        ''stage '' @ squote stage @ '': '' @ what @ '' completed but the transition failed: '' @ show_engine_error err
      else
        ''stage '' @ squote blamed @ '': could not be entered after '' @ squote stage @ '' completed: ''
        @ show_engine_error err)"

definition after_branch_end ::
  "turn_world \<Rightarrow> string \<Rightarrow> string \<Rightarrow> bool \<Rightarrow> branch_step \<Rightarrow> engine \<Rightarrow> branch_applied \<times> engine"
where
  "after_branch_end W task_id grp ok step e =
     (case step of
        Dropped why \<Rightarrow> (BranchDropped why, e)
      | RecordedRunning u \<Rightarrow> (BranchRecorded ok, put_row W task_id u e)
      | SettledStuck u reason \<Rightarrow>
          (BranchRecorded ok,
           (let e = put_row W task_id u e in
            e\<lparr>en_tasks := snd (mark_stuck_in task_id reason (tw_now W) (en_tasks e))\<rparr>))
      | LeftGroup next_stage u \<Rightarrow>
          (case tw_enter W next_stage ''done'' (su_payload u) (put_row W task_id u e) of
             (entered, e) \<Rightarrow>
               (BranchRecorded ok,
                (case entered of
                   Inr _ \<Rightarrow> e
                 | Inl err \<Rightarrow>
                     stuck_in W task_id (not_entered ''parallel stage'' grp (stage_to_blame task_id grp e) err)
                       (is_template_error err) e))))"

text \<open>The verdict on resuming the branch's session, which only a failed branch is asked for.\<close>

definition branch_verdict ::
  "turn_world \<Rightarrow> string \<Rightarrow> workflow_definition \<Rightarrow> string \<Rightarrow> string \<Rightarrow> engine \<Rightarrow> bool"
where
  "branch_verdict W task_id d branch session_id e =
     (case (get_task task_id (en_tasks e), branch_of d branch, get_session (en_sessions e) session_id) of
        (Some t, Some b, Some session) \<Rightarrow>
          is_ok (resumable_session (tw_registry W) (en_sessions e)
            (current_role_cli d (tw_global W) (ts_config t) (bf_def b)) (bf_def b) session True)
      | _ \<Rightarrow> False)"

definition finish_branch ::
  "turn_world \<Rightarrow> string \<Rightarrow> workflow_definition \<Rightarrow> branch_watch \<Rightarrow> string \<Rightarrow> string \<Rightarrow> branch_outcome \<Rightarrow> engine \<Rightarrow>
   (branch_applied \<times> engine) option"
where
  "finish_branch W task_id d w branch session_id out e =
     (case get_current_for_stage (en_sessions e) task_id branch of
        None \<Rightarrow> None
      | Some current \<Rightarrow>
          map_option (\<lambda>step.
            case step of
              Inl err \<Rightarrow>
                (BranchParked (show_engine_error err),
                 stuck_in W task_id (''stage '' @ squote branch @ '': could not record the branch'' @ [CHR 0x27]
                   @ ''s end: '' @ show_engine_error err) False e)
            | Inr step \<Rightarrow> after_branch_end W task_id (bw_group w) (ended_done d branch out) step e)
            (apply_branch_end (tw_chrono W) d (tw_nows W) (tw_now W)
               (map_option ts_status (get_task task_id (en_tasks e))) (map_of (en_rows e) task_id) w branch session_id
               (map_option se_id current) (Inr (branch_verdict W task_id d branch session_id e)) out))"

definition fail_branch_turn ::
  "turn_world \<Rightarrow> string \<Rightarrow> workflow_definition \<Rightarrow> branch_watch \<Rightarrow> string \<Rightarrow> string \<Rightarrow> string \<Rightarrow> engine \<Rightarrow> engine option"
where
  "fail_branch_turn W task_id d w branch session_id reason e =
     map_option snd (finish_branch W task_id d w branch session_id (BranchFailed reason) e)"

text \<open>A stage's turn parks the task, a branch's turn fails the branch.\<close>

definition park_turn ::
  "turn_world \<Rightarrow> string \<Rightarrow> workflow_definition \<Rightarrow> string \<Rightarrow> string \<Rightarrow> branch_watch option \<Rightarrow> string \<Rightarrow> engine \<Rightarrow>
   engine option"
where
  "park_turn W task_id d stage_name session_id branch reason e =
     (case branch of
        None \<Rightarrow> Some (stuck_in W task_id reason False e)
      | Some w \<Rightarrow> fail_branch_turn W task_id d w stage_name session_id reason e)"

definition beside :: "workflow_definition \<Rightarrow> branch_watch option \<Rightarrow> string \<Rightarrow> string" where
  "beside d branch stage_name = (case branch of None \<Rightarrow> [] | Some w \<Rightarrow> ran_beside d (bw_group w) stage_name)"

definition park_incomplete_turn ::
  "turn_world \<Rightarrow> string \<Rightarrow> workflow_definition \<Rightarrow> string \<Rightarrow> string \<Rightarrow> string \<Rightarrow> branch_watch option \<Rightarrow>
   engine \<times> changed_events \<Rightarrow> (engine \<times> changed_events) option"
where
  "park_incomplete_turn W task_id d stage_name session_id reason branch st =
     (case st of (e, evs) \<Rightarrow>
       (case judge_read_only (tw_read_only W) d stage_name session_id False evs of
          (found, evs) \<Rightarrow>
            map_option (\<lambda>e. (e, evs))
              (park_turn W task_id d stage_name session_id branch
                (case found of
                   Clean \<Rightarrow> reason
                 | Violation why \<Rightarrow> reason @ ''; '' @ why @ beside d branch stage_name
                 | Unverified why \<Rightarrow> reason @ ''; '' @ why @ beside d branch stage_name) e)))"

text \<open>\<open>Inr\<close> when the turn may be applied, else the parked state.\<close>

definition read_only_check_passes ::
  "turn_world \<Rightarrow> string \<Rightarrow> workflow_definition \<Rightarrow> string \<Rightarrow> string \<Rightarrow> branch_watch option \<Rightarrow>
   engine \<times> changed_events \<Rightarrow> (bool \<times> engine \<times> changed_events) option"
where
  "read_only_check_passes W task_id d stage_name session_id branch st =
     (case st of (e, evs) \<Rightarrow>
       (case judge_read_only (tw_read_only W) d stage_name session_id True evs of
          (found, evs) \<Rightarrow>
            (case found of
               Clean \<Rightarrow> Some (True, e, evs)
             | Violation why \<Rightarrow> map_option (\<lambda>e. (False, e, evs))
                 (park_turn W task_id d stage_name session_id branch (why @ beside d branch stage_name) e)
             | Unverified why \<Rightarrow> map_option (\<lambda>e. (False, e, evs))
                 (park_turn W task_id d stage_name session_id branch (why @ beside d branch stage_name) e))))"

section \<open>A completed turn\<close>

text \<open>
  Applying the outcome: whether it was applied, a note when it was not, and the tables.
  \<open>None\<close> within is a turn whose stage has started a newer run: nothing is written, not even the event.
\<close>

definition apply_to_branch ::
  "turn_world \<Rightarrow> string \<Rightarrow> workflow_definition \<Rightarrow> branch_watch \<Rightarrow> string \<Rightarrow> string \<Rightarrow> turn_reading \<Rightarrow> engine \<Rightarrow>
   ((bool \<times> string option) \<times> engine) option"
where
  "apply_to_branch W task_id d w stage_name session_id r e =
     map_option (\<lambda>(applied, e).
       ((case applied of
           BranchRecorded ok \<Rightarrow> (ok, if ok then None else Some ''branch recorded as failed'')
         | BranchDropped why \<Rightarrow> (False, Some (''not applied: '' @ why))
         | BranchParked why \<Rightarrow> (False, Some (''not applied: '' @ why))), e))
       (finish_branch W task_id d w stage_name session_id
          (BranchDone (tr_outcome r) (tr_captured r) (tr_note r)) e)"

definition no_edge_reason :: "string \<Rightarrow> string \<Rightarrow> string option \<Rightarrow> string" where
  "no_edge_reason stage outcome note' =
     ''stage '' @ squote stage @ '': turn outcome '' @ squote outcome @ '' has no '' @ squote ''on:'' @ '' edge''
     @ (case note' of None \<Rightarrow> [] | Some n \<Rightarrow> '' ('' @ n @ '')'')"

definition refused_advance ::
  "turn_world \<Rightarrow> string \<Rightarrow> string \<Rightarrow> string option \<Rightarrow> engine_error \<Rightarrow> engine \<Rightarrow> string \<times> engine"
where
  "refused_advance W task_id stage_name note' err e =
     (case err of
        UnknownOutcome stage outcome \<Rightarrow>
          (''parked: stage '' @ squote stage @ '' has no '' @ squote ''on:'' @ '' edge for '' @ squote outcome,
           stuck_in W task_id (no_edge_reason stage outcome note') False e)
      | StageMovedOn expected actual \<Rightarrow>
          (''not applied: the task had already left '' @ squote expected @ '' for '' @ squote actual, e)
      | TaskCancelled _ \<Rightarrow> (''not applied: the task was cancelled'', e)
      | _ \<Rightarrow>
          (''not applied: '' @ show_engine_error err,
           stuck_in W task_id (not_entered ''turn'' stage_name (stage_to_blame task_id stage_name e) err)
             (is_template_error err) e))"

definition is_current_run_for_stage :: "string \<Rightarrow> string \<Rightarrow> string \<Rightarrow> engine \<Rightarrow> bool option" where
  "is_current_run_for_stage task_id stage_name session_id e =
     map_option (\<lambda>current. map_option se_id current = Some session_id)
       (get_current_for_stage (en_sessions e) task_id stage_name)"

definition apply_to_stage ::
  "turn_world \<Rightarrow> string \<Rightarrow> workflow_definition \<Rightarrow> string \<Rightarrow> string \<Rightarrow> turn_reading \<Rightarrow> engine \<Rightarrow>
   ((bool \<times> string option) \<times> engine) option option"
where
  "apply_to_stage W task_id d stage_name session_id r e =
     (case is_current_run_for_stage task_id stage_name session_id e of
        None \<Rightarrow> None
      | Some False \<Rightarrow> Some None
      | Some True \<Rightarrow>
          map_option (\<lambda>(answer, e). Some
            (case answer of
               Inr _ \<Rightarrow> ((True, None), e)
             | Inl err \<Rightarrow> (case refused_advance W task_id stage_name (tr_note r) err e of
                            (why, e) \<Rightarrow> ((False, Some why), e))))
            (advance_from_stage W task_id d (tr_outcome r) (Some stage_name) (tr_captured r) e))"

definition apply_turn ::
  "turn_world \<Rightarrow> string \<Rightarrow> workflow_definition \<Rightarrow> string \<Rightarrow> string \<Rightarrow> branch_watch option \<Rightarrow> turn_reading \<Rightarrow>
   engine \<Rightarrow> ((bool \<times> string option) \<times> engine) option option"
where
  "apply_turn W task_id d stage_name session_id branch r e =
     (case branch of
        Some w \<Rightarrow> map_option Some (apply_to_branch W task_id d w stage_name session_id r e)
      | None \<Rightarrow> apply_to_stage W task_id d stage_name session_id r e)"

text \<open>The turn_outcome events, one at most, and only where there is something to tell.\<close>

definition jtext :: "string option \<Rightarrow> json" where
  "jtext s = (case s of None \<Rightarrow> JNull | Some t \<Rightarrow> JStr t)"

definition outcome_event ::
  "turn_world \<Rightarrow> capture option \<Rightarrow> string \<Rightarrow> turn_reading \<Rightarrow> bool \<Rightarrow> string option \<Rightarrow> json list"
where
  "outcome_event W capture stage_name r applied applied_note =
     (let (report, fetch_note) = report_read W in
      if capture \<noteq> None \<or> unroutable_note capture report \<noteq> None \<or> fetch_note \<noteq> None then
        (let hint = (if capture = Some CaptureText \<and> \<not> applied
                     then Some (squote ''capture: text'' @ '' keeps the reply but carries no verdict; use ''
                       @ squote ''capture: json'' @ '' to route on an '' @ squote ''outcome'' @ '' key'')
                     else None);
             ns = somes [tr_note r, applied_note, hint, fetch_note]
         in [obj_of [(''stage'', JStr stage_name), (''capture'', capture_label capture),
                     (''outcome'', JStr (tr_outcome r)), (''applied'', JBool applied),
                     (''note'', if ns = [] then JNull else JStr (join ''; '' ns)),
                     (''source'', jtext (tr_source r))]])
      else [])"

definition unread_event :: "turn_world \<Rightarrow> capture option \<Rightarrow> string \<Rightarrow> string \<Rightarrow> json" where
  "unread_event W capture stage_name err =
     obj_of [(''stage'', JStr stage_name), (''capture'', capture_label capture), (''outcome'', JNull),
             (''applied'', JBool False),
             (''note'', JStr (join ''; '' (somes
                [Some (''the turn'' @ [CHR 0x27] @ ''s reply could not be read back: '' @ err),
                 unroutable_note capture (fst (report_read W)), snd (report_read W)]))),
             (''source'', JNull)]"

record turn_state =
  tu_engine :: engine
  tu_changed :: changed_events
  tu_outcomes :: "json list"

text \<open>\<open>finish_turn\<close> after the read-only check.\<close>

definition finish_read_turn ::
  "turn_world \<Rightarrow> string \<Rightarrow> workflow_definition \<Rightarrow> string \<Rightarrow> capture option \<Rightarrow> string \<Rightarrow> branch_watch option \<Rightarrow>
   engine \<Rightarrow> (engine \<times> json list) option"
where
  "finish_read_turn W task_id d stage_name capture session_id branch e =
     (case read_turn W capture of
        Inl err \<Rightarrow>
          map_option (\<lambda>e. (e, [unread_event W capture stage_name err]))
            (park_turn W task_id d stage_name session_id branch
              (''stage '' @ squote stage_name @ '': the turn'' @ [CHR 0x27] @ ''s reply could not be read back: '' @ err) e)
      | Inr r \<Rightarrow>
          map_option (\<lambda>result.
            case result of
              None \<Rightarrow> (e, [])
            | Some ((applied, why), e) \<Rightarrow> (e, outcome_event W capture stage_name r applied why))
            (apply_turn W task_id d stage_name session_id branch r e))"

definition finish_turn ::
  "turn_world \<Rightarrow> string \<Rightarrow> workflow_definition \<Rightarrow> string \<Rightarrow> capture option \<Rightarrow> string \<Rightarrow> branch_watch option \<Rightarrow>
   turn_state \<Rightarrow> turn_state option"
where
  "finish_turn W task_id d stage_name capture session_id branch st =
     (case read_only_check_passes W task_id d stage_name session_id branch (tu_engine st, tu_changed st) of
        None \<Rightarrow> None
      | Some (passes, e, evs) \<Rightarrow>
          (if \<not> passes then Some (st\<lparr>tu_engine := e, tu_changed := evs\<rparr>)
           else map_option (\<lambda>(e, outs). \<lparr>tu_engine = e, tu_changed = evs, tu_outcomes = tu_outcomes st @ outs\<rparr>)
             (finish_read_turn W task_id d stage_name capture session_id branch e)))"

section \<open>Every end\<close>

text \<open>A turn stopped from outside; \<open>daemon_stopped\<close> is the park's wording when the daemon did it.\<close>

definition handle_requested_end ::
  "turn_world \<Rightarrow> string \<Rightarrow> workflow_definition \<Rightarrow> string \<Rightarrow> string \<Rightarrow> string option \<Rightarrow> branch_watch option \<Rightarrow>
   engine \<times> changed_events \<Rightarrow> (engine \<times> changed_events) option"
where
  "handle_requested_end W task_id d stage_name session_id daemon_stopped branch st =
     (case st of (e, evs) \<Rightarrow>
       (case map_option ts_status (get_task task_id (en_tasks e)) of
          None \<Rightarrow> Some (e, evs)
        | Some status \<Rightarrow>
            (if is_pause_status status then
               (case judge_read_only (tw_read_only W) d stage_name session_id False evs of
                  (found, evs) \<Rightarrow>
                    Some (check_pause_end (tw_event_ok W) (tw_now W) task_id d stage_name branch found e, evs))
             else if status \<noteq> TASK_STATUS_OPEN then Some (e, evs)
             else
               (case daemon_stopped of
                  Some reason \<Rightarrow> park_incomplete_turn W task_id d stage_name session_id reason branch (e, evs)
                | None \<Rightarrow>
                    map_option (\<lambda>reentry.
                      (case reentry of
                         ReenterNothing \<Rightarrow> e
                       | _ \<Rightarrow>
                           (case tw_restart W reentry e of
                              (Inr _, e) \<Rightarrow> e
                            | (Inl why, e) \<Rightarrow>
                                stuck_in W task_id (''stage '' @ squote stage_name @ '': resume failed: '' @ why) False e),
                       evs))
                      (reenter_after_pause_locked (tw_registry W) (tw_global W) task_id d stage_name session_id branch e)))))"

definition handle_turn_end ::
  "turn_world \<Rightarrow> string \<Rightarrow> workflow_definition \<Rightarrow> string \<Rightarrow> capture option \<Rightarrow> string \<Rightarrow> branch_watch option \<Rightarrow>
   turn_end \<Rightarrow> turn_state \<Rightarrow> turn_state option"
where
  "handle_turn_end W task_id d stage_name capture session_id branch end' st =
     (let kept = map_option (\<lambda>(e, evs). st\<lparr>tu_engine := e, tu_changed := evs\<rparr>);
          now = (tu_engine st, tu_changed st)
      in case end' of
           Completed \<Rightarrow> finish_turn W task_id d stage_name capture session_id branch st
         | Incomplete reason \<Rightarrow> kept (park_incomplete_turn W task_id d stage_name session_id reason branch now)
         | TurnPaused \<Rightarrow> kept (handle_requested_end W task_id d stage_name session_id None branch now)
         | TurnDaemonStopped reason \<Rightarrow>
             kept (handle_requested_end W task_id d stage_name session_id (Some reason) branch now)
         | TurnCancelled \<Rightarrow> Some st
         | SessionGone \<Rightarrow> Some st)"

text \<open>
  The watcher from the end it saw: the slot is free before the result is handled, the settling entry
  goes after it, and then a pausing task may be paused.
\<close>

definition turn_ended ::
  "turn_world \<Rightarrow> string \<Rightarrow> workflow_definition \<Rightarrow> string \<Rightarrow> capture option \<Rightarrow> string \<Rightarrow> branch_watch option \<Rightarrow>
   u64 option \<Rightarrow> turn_end \<Rightarrow> turn_state \<Rightarrow> turn_state option"
where
  "turn_ended W task_id d stage_name capture session_id branch permit end' st =
     (let (settling, g) = (case permit of
             Some i \<Rightarrow> (i, free_slot i (en_gate (tu_engine st)))
           | None \<Rightarrow> settling_entry task_id stage_name (en_gate (tu_engine st)))
      in map_option (\<lambda>st.
           st\<lparr>tu_engine := settle_pause_locked (tw_event_ok W) (tw_now W) task_id
                ((tu_engine st)\<lparr>en_gate := remove_permit settling (en_gate (tu_engine st))\<rparr>)\<rparr>)
           (handle_turn_end W task_id d stage_name capture session_id branch end'
              (st\<lparr>tu_engine := (tu_engine st)\<lparr>en_gate := g\<rparr>\<rparr>)))"

section \<open>The two readings of a session's end\<close>

text \<open>
  C38. The watcher of a turn and the code that finds a run later (a resume, the restart sweep) agree
  on which ends are failures: run_failure names exactly the ends the watcher parks, and a run it does
  not name either completed, was stopped from outside, or is still running.
\<close>

theorem run_failure_is_what_parks:
  "if se_status s = Active then run_failure s = None
   else (case turn_watch d stage (Inr (Some s)) of
           Some (Incomplete why) \<Rightarrow> run_failure s \<noteq> None
         | Some Completed \<Rightarrow> run_failure s = None \<and> se_status s = session_status.Idle
         | Some SessionGone \<Rightarrow> False
         | Some _ \<Rightarrow> run_failure s = None \<and> se_end_reason s \<in> {Some Cancelled, Some Paused, Some DaemonStopped}
         | None \<Rightarrow> False)"
  by (cases "se_status s"; cases "se_end_reason s")
     (auto simp: turn_watch_def run_failure_def run_failed_def split: session_end_reason.splits)

section \<open>No end is left unhandled\<close>

text \<open>What is relied on of entering a stage: a failure is no race, and leaves the task one that can be marked.\<close>

definition live_task :: "string \<Rightarrow> engine \<Rightarrow> bool" where
  "live_task task_id e =
     (case get_task task_id (en_tasks e) of
        None \<Rightarrow> False | Some t \<Rightarrow> ts_status t \<in> {''open'', ''pausing'', ''paused'', ''stuck''})"

definition no_race :: "engine_error \<Rightarrow> bool" where
  "no_race err = (case err of StageMovedOn _ _ \<Rightarrow> False | TaskCancelled _ \<Rightarrow> False | _ \<Rightarrow> True)"

definition fails_openly :: "turn_world \<Rightarrow> string \<Rightarrow> bool" where
  "fails_openly W task_id \<longleftrightarrow> (\<forall>next_stage outcome p e err e'.
     live_task task_id e \<and> tw_enter W next_stage outcome p e = (Inl err, e') \<longrightarrow>
     live_task task_id e' \<and> no_race err)"

definition is_stuck :: "string \<Rightarrow> engine \<Rightarrow> bool" where
  "is_stuck task_id e \<longleftrightarrow> map_option ts_status (get_task task_id (en_tasks e)) = Some ''stuck''"

lemma mark_stuck_get:
  "get_task i (snd (mark_stuck event_ok i reason now db)) =
     map_option (\<lambda>t. if event_ok \<and> ts_status t \<in> {''open'', ''pausing'', ''paused''}
       then t\<lparr>ts_status := ''stuck'', ts_stuck_reason := Some reason, ts_paused_at := None, ts_updated_at := now\<rparr>
       else t) (get_task i db)"
proof (cases "fst (mark_stuck_in i reason now db) \<and> event_ok")
  case True
  then have "snd (mark_stuck event_ok i reason now db) = snd (mark_stuck_in i reason now db)"
    by (simp add: mark_stuck_def case_prod_beta)
  then show ?thesis
    using True get_task_id by (cases "get_task i db") (auto simp: mark_stuck_in_def get_update)
next
  case False
  then have "snd (mark_stuck event_ok i reason now db) = db"
    by (simp add: mark_stuck_def case_prod_beta)
  moreover have "\<not> ts_status t \<in> {''open'', ''pausing'', ''paused''}" if "get_task i db = Some t" "event_ok" for t
  proof
    assume live: "ts_status t \<in> {''open'', ''pausing'', ''paused''}"
    have "fst (mark_stuck_in i reason now db)"
      unfolding mark_stuck_in_def by (rule update_hit_get [OF that(1)]) (use live get_task_id [OF that(1)] in simp)
    then show False using False that by simp
  qed
  ultimately show ?thesis by (cases "get_task i db") auto
qed

lemma stuck_in_get:
  "get_task task_id (en_tasks (stuck_in W task_id reason recorded e)) =
     map_option (\<lambda>t. if (recorded \<or> tw_event_ok W) \<and> ts_status t \<in> {''open'', ''pausing'', ''paused''}
       then t\<lparr>ts_status := ''stuck'', ts_stuck_reason := Some reason, ts_paused_at := None,
              ts_updated_at := tw_now W\<rparr>
       else t) (get_task task_id (en_tasks e))"
  by (simp add: stuck_in_def mark_stuck_get)

lemma stuck_in_rows [simp]: "en_rows (stuck_in W task_id reason recorded e) = en_rows e"
  by (simp add: stuck_in_def)

lemma stuck_in_sticks:
  assumes "live_task task_id e" and "tw_event_ok W"
  shows "is_stuck task_id (stuck_in W task_id reason recorded e)"
  using assms by (cases "get_task task_id (en_tasks e)") (auto simp: is_stuck_def stuck_in_get live_task_def)

lemma fails_openlyD:
  assumes "fails_openly W task_id" and "live_task task_id e" and "tw_enter W n out p e = (Inl err, e')"
  shows "live_task task_id e' \<and> no_race err"
  using assms unfolding fails_openly_def by blast

lemma refused_advance_sticks:
  assumes "live_task task_id e" and "tw_event_ok W" and "no_race err"
  shows "is_stuck task_id (snd (refused_advance W task_id stage note' err e))"
  using assms stuck_in_sticks by (cases err) (simp_all add: refused_advance_def no_race_def)

lemma and_then_Inl: "and_then m f = Inl e \<longleftrightarrow> m = Inl e \<or> (\<exists>x. m = Inr x \<and> f x = Inl e)"
  by (cases m) auto

lemma map_err_Inl: "map_err g m = Inl e \<longleftrightarrow> (\<exists>x. m = Inl x \<and> e = g x)"
  by (cases m) auto

lemma window_deadline_error: "window_deadline C stage timeout now = Inl err \<Longrightarrow> no_race err"
  by (cases timeout) (auto simp: window_deadline_def and_then_Inl map_err_Inl no_race_def split: option.splits)

lemma set_poll_window_no_race: "set_poll_window C d stage now p = Inl err \<Longrightarrow> no_race err"
  by (cases "watch_of d stage")
    (auto simp: set_poll_window_def Let_def and_then_Inl dest: window_deadline_error)

lemma stamp_payload_no_race: "stamp_payload C d nows f out n capture p = Inl err \<Longrightarrow> no_race err"
  by (auto simp: stamp_payload_def Let_def and_then_Inl dest: set_poll_window_no_race)

lemma compute_no_race:
  assumes "compute_transition C d nows row outcome capture = Some (Inl err)"
  shows "no_race err"
proof (rule ccontr)
  assume race: "\<not> no_race err"
  then have no: "stamp_payload C d nows f out n capture p \<noteq> Inl err" for f out n p
    using stamp_payload_no_race by blast
  show False
    using assms race
    by (auto simp: compute_transition_def Let_def and_then_Inl no bind_eq_Some_conv no_race_def
        split: option.splits if_splits)
qed

lemma put_row_tasks [simp]: "en_tasks (put_row W task_id u e) = en_tasks e"
  by (simp add: put_row_def split: option.split)

lemma live_task_tasks: "en_tasks e' = en_tasks e \<Longrightarrow> live_task task_id e' = live_task task_id e"
  by (simp add: live_task_def)

text \<open>A task whose turn it is: open, in the stage, and the session is the stage's current run.\<close>

definition turn_of :: "string \<Rightarrow> string \<Rightarrow> string \<Rightarrow> engine \<Rightarrow> bool" where
  "turn_of task_id stage_name session_id e =
     (map_option ts_status (get_task task_id (en_tasks e)) = Some ''open''
      \<and> map_option ws_current_stage (map_of (en_rows e) task_id) = Some stage_name
      \<and> is_current_run_for_stage task_id stage_name session_id e = Some True)"

text \<open>The transition was written and the next stage entered, which left the tables \<open>e'\<close>.\<close>

definition moved_on ::
  "turn_world \<Rightarrow> string \<Rightarrow> workflow_definition \<Rightarrow> string \<Rightarrow> turn_reading \<Rightarrow> engine \<Rightarrow> engine \<Rightarrow> bool"
where
  "moved_on W task_id d stage_name r e e' =
     (case map_of (en_rows e) task_id of
        None \<Rightarrow> False
      | Some row \<Rightarrow>
          (case compute_transition (tw_chrono W) d (tw_nows W) row (tr_outcome r) (tr_captured r) of
             Some (Inr (next_stage, u)) \<Rightarrow>
               tw_enter W next_stage (tr_outcome r) (su_payload u) (put_row W task_id u e) = (Inr (), e')
           | _ \<Rightarrow> False))"

lemma turn_of_live: "turn_of task_id stage_name session_id e \<Longrightarrow> live_task task_id e"
  by (cases "get_task task_id (en_tasks e)") (auto simp: turn_of_def live_task_def)

lemma turn_of_decides:
  assumes "turn_of task_id stage_name session_id e" and "map_of (en_rows e) task_id = Some row"
  shows "decide_advance C d nows task_id (map_option ts_status (get_task task_id (en_tasks e)))
      (map_of (en_rows e) task_id) (Some stage_name) outcome capture
    = compute_transition C d nows row outcome capture"
  using assms by (auto simp: turn_of_def decide_advance_def TASK_STATUS_CANCELLED_def)

lemma apply_to_stage_cases:
  assumes turn: "turn_of task_id stage_name session_id e" and ok: "tw_event_ok W" and fails: "fails_openly W task_id"
    and step: "apply_to_stage W task_id d stage_name session_id r e = Some result"
  obtains (applied) e' where "result = Some ((True, None), e')" and "moved_on W task_id d stage_name r e e'"
    | (refused) why e' where "result = Some ((False, Some why), e')" and "is_stuck task_id e'"
proof -
  obtain row where row: "map_of (en_rows e) task_id = Some row"
    using turn by (auto simp: turn_of_def)
  note decides = turn_of_decides [OF turn row, unfolded row]
  have current: "is_current_run_for_stage task_id stage_name session_id e = Some True"
    using turn by (simp add: turn_of_def)
  have refuse: "is_stuck task_id (snd (refused_advance W task_id stage_name (tr_note r) err e'))"
    if "live_task task_id e'" "no_race err" for err e'
    using refused_advance_sticks that ok by blast
  have refused': thesis if "advance_from_stage W task_id d (tr_outcome r) (Some stage_name) (tr_captured r) e = Some (Inl err, e')"
    "live_task task_id e'" "no_race err" for err e'
  proof -
    obtain why e'' where why: "refused_advance W task_id stage_name (tr_note r) err e' = (why, e'')" by fastforce
    then have "result = Some ((False, Some why), e'')" using step that(1) by (simp add: apply_to_stage_def current)
    moreover have "is_stuck task_id e''" using refuse [OF that(2,3)] why by simp
    ultimately show thesis by (rule refused)
  qed
  obtain decision where d: "compute_transition (tw_chrono W) d (tw_nows W) row (tr_outcome r) (tr_captured r) = Some decision"
    using step by (auto simp: apply_to_stage_def current advance_from_stage_def decides row)
  show thesis
  proof (cases decision)
    case (Inl err)
    then have "advance_from_stage W task_id d (tr_outcome r) (Some stage_name) (tr_captured r) e = Some (Inl err, e)"
      by (simp add: advance_from_stage_def row decides d)
    then show thesis
      using refused' turn_of_live [OF turn] compute_no_race d Inl by blast
  next
    case (Inr target)
    obtain n u where target: "target = (n, u)" by fastforce
    obtain answer e' where enter: "tw_enter W n (tr_outcome r) (su_payload u) (put_row W task_id u e) = (answer, e')"
      by fastforce
    have adv: "advance_from_stage W task_id d (tr_outcome r) (Some stage_name) (tr_captured r) e = Some (answer, e')"
      by (simp add: advance_from_stage_def row decides d Inr target enter)
    show thesis
    proof (cases answer)
      case good: (Inr x)
      have "result = Some ((True, None), e')" using step adv good by (simp add: apply_to_stage_def current)
      moreover have "moved_on W task_id d stage_name r e e'"
        using row d Inr target enter good by (simp add: moved_on_def)
      ultimately show thesis by (rule applied)
    next
      case bad: (Inl err)
      have "live_task task_id (put_row W task_id u e)"
        using turn_of_live [OF turn] live_task_tasks [OF put_row_tasks] by metis
      then have "live_task task_id e' \<and> no_race err"
        using fails_openlyD [OF fails] enter bad by blast
      then show thesis using refused' adv bad by blast
    qed
  qed
qed

lemma applied_told:
  "list_all (\<lambda>ev. jget ''applied'' ev = Some (JBool b)) (outcome_event W capture stage_name r b why)"
  "jget ''applied'' (unread_event W capture stage_name err) = Some (JBool False)"
  by (auto simp: outcome_event_def unread_event_def jget_obj_of_map Let_def case_prod_beta)

text \<open>What an end of a stage's turn may have come to: \<open>b\<close> is whether its outcome was applied.\<close>

definition handled ::
  "turn_world \<Rightarrow> string \<Rightarrow> workflow_definition \<Rightarrow> string \<Rightarrow> capture option \<Rightarrow> engine \<Rightarrow> bool \<Rightarrow> engine \<times> json list \<Rightarrow> bool"
where
  "handled W task_id d stage_name capture e b result =
     (case result of (e', told) \<Rightarrow>
        list_all (\<lambda>ev. jget ''applied'' ev = Some (JBool b)) told
        \<and> (if b then (case read_turn W capture of
                         Inl err \<Rightarrow> False | Inr r \<Rightarrow> moved_on W task_id d stage_name r e e')
           else is_stuck task_id e'))"

lemma finish_read_turn_handled:
  assumes turn: "turn_of task_id stage_name session_id e" and ok: "tw_event_ok W" and fails: "fails_openly W task_id"
    and step: "finish_read_turn W task_id d stage_name capture session_id None e = Some result"
  shows "\<exists>b. handled W task_id d stage_name capture e b result"
proof (cases "read_turn W capture")
  case (Inl err)
  then have "handled W task_id d stage_name capture e False result"
    using step stuck_in_sticks [OF turn_of_live [OF turn] ok] applied_told(2)
    by (auto simp: finish_read_turn_def park_turn_def handled_def)
  then show ?thesis ..
next
  case (Inr r)
  then obtain res where res: "apply_to_stage W task_id d stage_name session_id r e = Some res"
    using step by (auto simp: finish_read_turn_def apply_turn_def)
  from turn ok fails res show ?thesis
  proof (cases rule: apply_to_stage_cases)
    case (applied e')
    then have "handled W task_id d stage_name capture e True result"
      using step Inr res applied_told(1) by (auto simp: finish_read_turn_def apply_turn_def handled_def)
    then show ?thesis ..
  next
    case (refused why e')
    then have "handled W task_id d stage_name capture e False result"
      using step Inr res applied_told(1) by (auto simp: finish_read_turn_def apply_turn_def handled_def)
    then show ?thesis ..
  qed
qed

lemma read_only_check_cases:
  assumes "read_only_check_passes W task_id d stage_name session_id None (e, evs) = Some (passes, e', evs')"
  obtains (clean) "passes" "e' = e" "fst (judge_read_only (tw_read_only W) d stage_name session_id True evs) = Clean"
  | (dirty) reason where "\<not> passes" "e' = stuck_in W task_id reason False e"
      "fst (judge_read_only (tw_read_only W) d stage_name session_id True evs) \<noteq> Clean"
proof -
  obtain found evs2 where j: "judge_read_only (tw_read_only W) d stage_name session_id True evs = (found, evs2)" by fastforce
  show thesis
    by (cases found) (use assms j that in \<open>auto simp: read_only_check_passes_def park_turn_def\<close>)
qed



section \<open>Examples\<close>

text \<open>The reviewer of ReadOnly's example, whose second run has just gone idle.\<close>

definition example_turn :: turn_state where
  "example_turn =
     \<lparr>tu_engine = example_open
        \<lparr>en_rows := [(''t1'', create_state ''review'' ''agent_turn'' (obj_of []) 3)],
         en_sessions := [\<lparr>sr_id = ''s2'', sr_task_id = ''t1'', sr_stage = ''review'', sr_role = ''reviewer'',
           sr_cli_adapter = ''claude'', sr_model = '''', sr_adapter_session_id = None, sr_status = ''idle'',
           sr_end_reason = None, sr_resumed_from = None, sr_started_at = 4, sr_ended_at = None, sr_lap = None\<rparr>]\<rparr>,
      tu_changed = [], tu_outcomes = []\<rparr>"

definition example_end_of_turn :: "string \<Rightarrow> turn_world" where
  "example_end_of_turn head =
     \<lparr>tw_chrono = example_chrono, tw_json = (\<lambda>_. Inl ''not json''), tw_print = (\<lambda>_. ''{}''),
      tw_read_only = example_world (\<lambda>s. if s = ''s2'' then Some example_second else None) head,
      tw_registry = [], tw_global = example_global, tw_report = Inr None, tw_reply = Inr ''looks fine'',
      tw_event_ok = True, tw_now = 9, tw_nows = (9, 9, 9), tw_enter = (\<lambda>n out p e. (Inr (), e)),
      tw_restart = (\<lambda>r e. (Inr (), e))\<rparr>"

lemma example_turn_of: "turn_of ''t1'' ''review'' ''s2'' (tu_engine example_turn)"
  by code_simp

lemma example_fails_openly: "fails_openly (example_end_of_turn head) task_id"
  by (simp add: fails_openly_def example_end_of_turn_def)

lemma example_handled:
  "case handle_turn_end (example_end_of_turn ''aaaaaaaaaa'') ''t1'' example_review ''review'' None ''s2'' None
     Completed example_turn of None \<Rightarrow> False | Some _ \<Rightarrow> True"
  by code_simp

lemma example_dirty:
  "case judge_read_only (tw_read_only (example_end_of_turn ''bbbbbbbbbb'')) example_review ''review'' ''s2'' True [] of
     (found, _) \<Rightarrow> (case found of Clean \<Rightarrow> False | _ \<Rightarrow> True)"
  by code_simp

lemma example_finish:
  "finish_turn (example_end_of_turn ''bbbbbbbbbb'') ''t1'' example_review ''review'' None ''s2'' None example_turn \<noteq> None"
proof -
  obtain found evs where j: "judge_read_only (tw_read_only (example_end_of_turn ''bbbbbbbbbb'')) example_review ''review'' ''s2'' True
      (tu_changed example_turn) = (found, evs)"
    by fastforce
  then have "found \<noteq> Clean"
    using example_dirty by (auto simp: example_turn_def)
  then show ?thesis
    using j by (cases found) (simp_all add: finish_turn_def read_only_check_passes_def park_turn_def)
qed



end
