(* ===== verification/Sweep.thy ===== *)
theory Sweep
  imports TurnEnd Dispatch
begin

text \<open>
  The start of the daemon (engine/sweep.rs): parking what lost its process when the previous daemon
  stopped, resuming what was being watched, and the list of tasks a restart would strand. The state is
  Pause's tables and the worktree_changed events; loading a workflow, git, entering a stage, and
  whether a session, an event or a stage kind could be read or recorded are arguments. Other failures of the database are left
  out. An outer \<open>None\<close> is a panic on a session row that does not decode.
\<close>

section \<open>What a restart does to a stage\<close>

datatype restart_effect = Survives | StrandsAgentTurn | StrandsShell | PerBranch

definition restart_effect :: "stage_def \<Rightarrow> restart_effect" where
  "restart_effect sd =
     (case sd_kind sd of
        AgentTurn _ _ _ _ \<Rightarrow> (if sd_on sd = [] then Survives else StrandsAgentTurn)
      | Shell _ _ _ _ \<Rightarrow> StrandsShell
      | Poll _ _ \<Rightarrow> Survives
      | HumanGate _ _ _ \<Rightarrow> Survives
      | Terminal \<Rightarrow> Survives
      | Parallel _ \<Rightarrow> PerBranch)"

definition shell_reason :: "string \<Rightarrow> string" where
  "shell_reason stage =
     ''stage '' @ squote stage @ '' was running a shell command when the daemon stopped; ''
     @ squote ''choco task retry'' @ '' runs it again from the start''"

record sweep_world =
  sw_load :: "task \<Rightarrow> (string, workflow_definition) result"
  sw_chrono :: chrono
  sw_read_only :: read_only_world
  sw_registry :: registry
  sw_global :: "(global_config_error, global_config) result"
  sw_read_error :: "string option"
  sw_stop_error :: "string option"
  sw_event_ok :: bool
  sw_kind_ok :: bool
  sw_now :: time
  sw_enter :: "string \<Rightarrow> json \<Rightarrow> engine \<Rightarrow> (engine_error, unit) result \<times> engine"

record park_report =
  pk_agent_turns :: nat
  pk_shells :: nat
  pk_stuck_other :: nat
  pk_groups :: nat

record sweep_state =
  ss_engine :: engine
  ss_changed :: changed_events
  ss_report :: park_report

text \<open>A counter of the report counts the tasks whose status did change.\<close>

definition sweep_mark ::
  "sweep_world \<Rightarrow> string \<Rightarrow> string \<Rightarrow> (park_report \<Rightarrow> park_report) \<Rightarrow> sweep_state \<Rightarrow> sweep_state"
where
  "sweep_mark W task_id reason count st =
     (case mark_stuck (sw_event_ok W) task_id reason (sw_now W) (en_tasks (ss_engine st)) of
        (mark, db) \<Rightarrow>
          st\<lparr>ss_engine := (ss_engine st)\<lparr>en_tasks := db\<rparr>,
             ss_report := (if mark = Marked then count (ss_report st) else ss_report st)\<rparr>)"

definition park_mark_stuck :: "sweep_world \<Rightarrow> string \<Rightarrow> string \<Rightarrow> sweep_state \<Rightarrow> sweep_state" where
  "park_mark_stuck W task_id reason = sweep_mark W task_id reason (pk_stuck_other_update Suc)"

definition current_work_held :: "string \<Rightarrow> string \<Rightarrow> engine \<Rightarrow> bool" where
  "current_work_held task_id current_stage e = queue_exists task_id current_stage None (en_queue e)"

definition found_text :: "read_only_verdict \<Rightarrow> string option" where
  "found_text found = (case found of Clean \<Rightarrow> None | Violation why \<Rightarrow> Some why | Unverified why \<Rightarrow> Some why)"

definition appended :: "string option \<Rightarrow> string" where
  "appended s = (case s of None \<Rightarrow> [] | Some t \<Rightarrow> ''; '' @ t)"

text \<open>\<open>mark_daemon_stopped\<close>, unless the write fails.\<close>

definition stop_session :: "sweep_world \<Rightarrow> string \<Rightarrow> engine \<Rightarrow> engine" where
  "stop_session W session_id e =
     (if sw_stop_error W = None
      then e\<lparr>en_sessions := fst (mark_daemon_stopped (sw_now W) session_id (en_sessions e))\<rparr> else e)"

definition not_recorded :: "string \<Rightarrow> string" where
  "not_recorded err =
     ''the interrupted session could not be recorded ('' @ err @ ''), so retry will start the stage fresh''"

definition park_agent_turn ::
  "sweep_world \<Rightarrow> string \<Rightarrow> workflow_definition \<Rightarrow> string \<Rightarrow> sweep_state \<Rightarrow> sweep_state option"
where
  "park_agent_turn W task_id d stage st =
     (let e = ss_engine st; mark = (\<lambda>reason. sweep_mark W task_id reason (pk_agent_turns_update Suc)) in
      if current_work_held task_id stage e then Some st
      else
        (case sw_read_error W of
           Some err \<Rightarrow>
             Some (mark (agent_reason stage @ ''; '' @ not_recorded err @ appended (unverified_note d stage err)) st)
         | None \<Rightarrow>
             map_option (\<lambda>current.
               (case current of
                  None \<Rightarrow> mark (agent_reason stage) st
                | Some session \<Rightarrow>
                    (case judge_read_only (sw_read_only W) d stage (se_id session) False (ss_changed st) of
                       (found, evs) \<Rightarrow>
                         mark (agent_reason stage
                             @ (case sw_stop_error W of None \<Rightarrow> [] | Some err \<Rightarrow> ''; '' @ not_recorded err)
                             @ appended (found_text found))
                           (st\<lparr>ss_engine := stop_session W (se_id session) e, ss_changed := evs\<rparr>))))
               (get_current_for_stage (en_sessions e) task_id stage)))"

section \<open>A group\<close>

text \<open>
  What the sweep finds of one running branch: its run is recorded as stopped, and the worktree
  checked, before the next branch is looked at.
\<close>

definition branch_look ::
  "sweep_world \<Rightarrow> task \<Rightarrow> workflow_definition \<Rightarrow> branch \<Rightarrow> string \<Rightarrow> int \<Rightarrow> sweep_state \<Rightarrow>
   (branch_reads \<times> sweep_state) option"
where
  "branch_look W t d b name entry st =
     (case progress_of (ts_id t) name entry (ss_engine st) of
        None \<Rightarrow> None
      | Some work \<Rightarrow>
     (let plain = \<lparr>br_work = work, br_stopped = Inr None, br_resumable = (\<lambda>_. Inr False), br_read_only = (\<lambda>_. None)\<rparr> in
      case (case work of Live s \<Rightarrow> Some s | Ended s \<Rightarrow> Some s | _ \<Rightarrow> None) of
        None \<Rightarrow> Some (plain, st)
      | Some s \<Rightarrow>
          (if se_status s = Active then Some (plain, st)
           else
             (let e = (if se_status s = session_status.Idle \<and> se_end_reason s = None
                       then stop_session W (se_id s) (ss_engine st) else ss_engine st)
              in case get_session (en_sessions e) (se_id s) of
                   None \<Rightarrow> None
                 | Some reread \<Rightarrow>
                     (case judge_read_only (sw_read_only W) d name (se_id s) False (ss_changed st) of
                        (found, evs) \<Rightarrow>
                          Some (\<lparr>br_work = work,
                                 br_stopped = (case sw_stop_error W of Some err \<Rightarrow> Inl err | None \<Rightarrow> Inr reread),
                                 br_resumable = (\<lambda>s. Inr (is_ok (resumable_session (sw_registry W) (en_sessions e)
                                   (current_role_cli d (sw_global W) (ts_config t) (br_def b)) (br_def b) (Some s) True))),
                                 br_read_only = (\<lambda>_. found_text found)\<rparr>,
                                st\<lparr>ss_engine := e, ss_changed := evs\<rparr>))))))"

fun group_look ::
  "sweep_world \<Rightarrow> task \<Rightarrow> workflow_definition \<Rightarrow> json \<Rightarrow> int \<Rightarrow> branch imap \<Rightarrow> sweep_state \<Rightarrow>
   ((string \<times> branch_reads) list \<times> sweep_state) option"
where
  "group_look W t d payload entry [] st = Some ([], st)"
| "group_look W t d payload entry ((name, b) # bs) st =
     (if branch_state payload name \<noteq> Some ''running'' then group_look W t d payload entry bs st
      else (case branch_look W t d b name entry st of
              None \<Rightarrow> None
            | Some (reads, st) \<Rightarrow>
                map_option (\<lambda>(found, st). ((name, reads) # found, st)) (group_look W t d payload entry bs st)))"

definition row_written :: "sweep_world \<Rightarrow> string \<Rightarrow> workflow_state \<Rightarrow> state_update \<Rightarrow> sweep_state \<Rightarrow> sweep_state" where
  "row_written W task_id row u st =
     st\<lparr>ss_engine := (ss_engine st)
          \<lparr>en_rows := imap_insert task_id (update_state u (sw_now W) row) (en_rows (ss_engine st))\<rparr>\<rparr>"

text \<open>The writes of a parked group. A settle marks the task in the row's own transaction.\<close>

definition park_group_write ::
  "sweep_world \<Rightarrow> string \<Rightarrow> workflow_state \<Rightarrow> park_step \<Rightarrow> sweep_state \<Rightarrow> sweep_state"
where
  "park_group_write W task_id row step st =
     (case step of
        LeaveAlone \<Rightarrow> st
      | ParkStuck reason \<Rightarrow> sweep_mark W task_id reason (pk_groups_update Suc) st
      | ParkRunning u failed \<Rightarrow> row_written W task_id row u st
      | ParkSettled u reason failed \<Rightarrow>
          (case mark_stuck_in task_id reason (sw_now W) (en_tasks (ss_engine st)) of
             (hit, db) \<Rightarrow>
               (let st = row_written W task_id row u st in
                st\<lparr>ss_engine := (ss_engine st)\<lparr>en_tasks := db\<rparr>,
                   ss_report := (if hit then pk_groups_update Suc (ss_report st) else ss_report st)\<rparr>)))"

definition not_looked :: branch_reads where
  "not_looked = \<lparr>br_work = NeverStarted, br_stopped = Inr None, br_resumable = (\<lambda>_. Inr False), br_read_only = (\<lambda>_. None)\<rparr>"

definition reads_of :: "(string \<times> branch_reads) list \<Rightarrow> string \<Rightarrow> branch_reads" where
  "reads_of found name = (case map_of found name of Some r \<Rightarrow> r | None \<Rightarrow> not_looked)"

definition park_group ::
  "sweep_world \<Rightarrow> task \<Rightarrow> workflow_definition \<Rightarrow> string \<Rightarrow> branch imap \<Rightarrow> workflow_state \<Rightarrow> sweep_state \<Rightarrow>
   sweep_state option"
where
  "park_group W t d grp branches row st =
     (let look = (case (block_entry (ws_payload row) grp,
                        Option.bind (Option.bind (block_for (ws_payload row) grp) (jget ''branches'')) as_object) of
                    (Some entry, Some _) \<Rightarrow> group_look W t d (ws_payload row) entry branches st
                  | _ \<Rightarrow> Some ([], st))
      in map_option (\<lambda>(found, st).
           park_group_write W (ts_id t) row
             (park_group_locked (ch_stamp (sw_chrono W) (sw_now W)) grp branches (reads_of found) row) st) look)"

section \<open>A task that was pausing or paused\<close>

text \<open>The runs to look at, each with its stage or branch; \<open>Inl\<close> a failure to read them.\<close>

fun cut_off_branches :: "string \<Rightarrow> json \<Rightarrow> int \<Rightarrow> engine \<Rightarrow> string list \<Rightarrow> (string \<times> session) list option" where
  "cut_off_branches task_id payload entry e [] = Some []"
| "cut_off_branches task_id payload entry e (name # names) =
     (if branch_state payload name \<noteq> Some ''running'' then cut_off_branches task_id payload entry e names
      else (case progress_of task_id name entry e of
              None \<Rightarrow> None
            | Some work \<Rightarrow>
                map_option (\<lambda>found. (case work of Live s \<Rightarrow> (name, s) # found | Ended s \<Rightarrow> (name, s) # found | _ \<Rightarrow> found))
                  (cut_off_branches task_id payload entry e names)))"

definition this_entry :: "workflow_state \<Rightarrow> session option \<Rightarrow> session option" where
  "this_entry row current =
     (case current of
        None \<Rightarrow> None
      | Some s \<Rightarrow>
          (if (case ws_stage_entered_at row of None \<Rightarrow> True | Some entered \<Rightarrow> se_started_at s \<ge> entered)
           then Some s else None))"

definition cut_off ::
  "sweep_world \<Rightarrow> string \<Rightarrow> stage_def \<Rightarrow> workflow_state \<Rightarrow> engine \<Rightarrow> (string, (string \<times> session) list) result option"
where
  "cut_off W task_id sd row e =
     (let stage = ws_current_stage row in
      case restart_effect sd of
        StrandsAgentTurn \<Rightarrow>
          (case sw_read_error W of
             Some err \<Rightarrow> Some (Inl (''the interrupted session of stage '' @ squote stage @ '' could not be read ('' @ err @ '')''))
           | None \<Rightarrow> map_option (\<lambda>current. Inr (case this_entry row current of None \<Rightarrow> [] | Some s \<Rightarrow> [(stage, s)]))
               (get_current_for_stage (en_sessions e) task_id stage))
      | PerBranch \<Rightarrow>
          (case (Option.bind (Option.bind (jget ''parallel'' (ws_payload row)) (jget ''entry'')) as_i64,
                 group_branches (sd_kind sd)) of
             (Some entry, Some branches) \<Rightarrow>
               map_option Inr (cut_off_branches task_id (ws_payload row) entry e (ikeys branches))
           | _ \<Rightarrow> Some (Inr []))
      | _ \<Rightarrow> Some (Inr []))"

text \<open>The findings so far and the branches that had failed, with the reasons.\<close>

type_synonym findings = "string list \<times> (string \<times> string) list"

definition failed_before :: "string \<Rightarrow> bool \<Rightarrow> string \<Rightarrow> session \<Rightarrow> string option" where
  "failed_before stage is_group name session =
     map_option (\<lambda>why.
       (if is_group then ''branch '' @ squote name @ '' of '' @ squote stage else ''the turn of stage '' @ squote stage)
       @ '' failed before the restart ('' @ why @ ''); retry continues it'') (run_failure session)"

definition cut_off_finding ::
  "sweep_world \<Rightarrow> workflow_definition \<Rightarrow> string \<Rightarrow> bool \<Rightarrow> bool \<Rightarrow> string \<times> session \<Rightarrow> findings \<times> sweep_state \<Rightarrow>
   findings \<times> sweep_state"
where
  "cut_off_finding W d stage is_group paused run acc =
     (case (run, acc) of ((name, session), ((found, failed), st)) \<Rightarrow>
       (let dangling = (se_status session = session_status.Idle \<and> se_end_reason session = None);
            failure = failed_before stage is_group name session in
        if paused \<and> failure = None \<and> \<not> dangling then acc
        else
          (let st = (if dangling then st\<lparr>ss_engine := stop_session W (se_id session) (ss_engine st)\<rparr> else st);
               unrecorded = (case (dangling, sw_stop_error W) of
                   (True, Some err) \<Rightarrow> [''the interrupted session of '' @ squote name @ '' could not be recorded ('' @ err
                                        @ ''), so resume will start it fresh'']
                 | _ \<Rightarrow> []);
               (verdict', evs) = judge_read_only (sw_read_only W) d name (se_id session) False (ss_changed st)
           in ((found @ somes [failure] @ unrecorded @ somes [found_text verdict'],
                failed @ (if is_group then map (Pair name) (somes [failure]) else [])),
               st\<lparr>ss_changed := evs\<rparr>))))"

text \<open>A branch that had failed is recorded as failed; the others stay as they are.\<close>

definition record_failed_branches ::
  "sweep_world \<Rightarrow> string \<Rightarrow> workflow_state \<Rightarrow> (string \<times> string) list \<Rightarrow> sweep_state \<Rightarrow> sweep_state"
where
  "record_failed_branches W task_id row failed st =
     (if failed = [] then st
      else row_written W task_id row
        (group_update row (start_failures_payload (ch_stamp (sw_chrono W) (sw_now W)) failed (ws_payload row))) st)"

definition pausing_findings ::
  "sweep_world \<Rightarrow> task \<Rightarrow> bool \<Rightarrow> sweep_state \<Rightarrow> ((string, string list) result \<times> sweep_state) option"
where
  "pausing_findings W t paused st =
     (case map_of (en_rows (ss_engine st)) (ts_id t) of
        None \<Rightarrow> Some (Inr [], st)
      | Some row \<Rightarrow>
          (let stage = ws_current_stage row in
           case sw_load W t of
             Inl err \<Rightarrow>
               Some (Inl (''the daemon restarted and could not load this task'' @ [CHR 0x27] @ ''s workflow to check ''
                 @ ''whether stage '' @ squote stage @ '' was interrupted: '' @ err
                 @ ''; fix the workflow file, then retry''), st)
           | Inr d \<Rightarrow>
               (case stage_of d stage of
                  None \<Rightarrow> Some (Inl (''stage '' @ squote stage @ '' no longer exists in the task'' @ [CHR 0x27]
                                  @ ''s workflow''), st)
                | Some sd \<Rightarrow>
                    map_option (\<lambda>runs.
                      (case runs of
                         Inl why \<Rightarrow> (Inl why, st)
                       | Inr runs \<Rightarrow>
                           (case fold (cut_off_finding W d stage (restart_effect sd = PerBranch) paused) runs (([], []), st) of
                              ((found, failed), st) \<Rightarrow> (Inr found, record_failed_branches W (ts_id t) row failed st))))
                      (cut_off W (ts_id t) sd row (ss_engine st)))))"

definition park_pausing_turn_locked :: "sweep_world \<Rightarrow> task \<Rightarrow> sweep_state \<Rightarrow> sweep_state option" where
  "park_pausing_turn_locked W t st =
     map_option (\<lambda>(found, st).
       (case found of
          Inr [] \<Rightarrow> st\<lparr>ss_engine := commit_paused (sw_event_ok W) (sw_now W) (ts_id t) (ss_engine st)\<rparr>
        | Inr fs \<Rightarrow> park_mark_stuck W (ts_id t)
                     (''the daemon restarted while the task was pausing: '' @ join ''; '' fs) st
        | Inl reason \<Rightarrow> park_mark_stuck W (ts_id t) reason st))
       (pausing_findings W t False st)"

definition park_paused_turn_locked :: "sweep_world \<Rightarrow> task \<Rightarrow> sweep_state \<Rightarrow> sweep_state option" where
  "park_paused_turn_locked W t st =
     map_option (\<lambda>(found, st).
       (case found of
          Inr [] \<Rightarrow> st
        | Inr fs \<Rightarrow> park_mark_stuck W (ts_id t)
                     (''the daemon restarted while the task was paused: '' @ join ''; '' fs) st
        | Inl reason \<Rightarrow> st))
       (pausing_findings W t True st)"

section \<open>The sweep\<close>

definition park_open_turn :: "sweep_world \<Rightarrow> task \<Rightarrow> workflow_state \<Rightarrow> sweep_state \<Rightarrow> sweep_state option" where
  "park_open_turn W t row st =
     (let stage = ws_current_stage row; task_id = ts_id t in
      case sw_load W t of
        Inl err \<Rightarrow>
          Some (park_mark_stuck W task_id
            (''the daemon restarted and could not load this task'' @ [CHR 0x27] @ ''s workflow to check ''
             @ ''whether stage '' @ squote stage @ '' was interrupted: '' @ err
             @ ''; fix the workflow file, then retry'') st)
      | Inr d \<Rightarrow>
          (case stage_of d stage of
             None \<Rightarrow> Some (park_mark_stuck W task_id
               (''stage '' @ squote stage @ '' no longer exists in the task'' @ [CHR 0x27] @ ''s workflow'') st)
           | Some sd \<Rightarrow>
               (case restart_effect sd of
                  Survives \<Rightarrow> Some st
                | PerBranch \<Rightarrow>
                    (case group_branches (sd_kind sd) of
                       None \<Rightarrow> Some st
                     | Some branches \<Rightarrow> park_group W t d stage branches row st)
                | StrandsShell \<Rightarrow> Some (sweep_mark W task_id (shell_reason stage) (pk_shells_update Suc) st)
                | StrandsAgentTurn \<Rightarrow> park_agent_turn W task_id d stage st)))"

definition park_interrupted_turn_locked :: "sweep_world \<Rightarrow> string \<Rightarrow> sweep_state \<Rightarrow> sweep_state option" where
  "park_interrupted_turn_locked W task_id st =
     (case get_task task_id (en_tasks (ss_engine st)) of
        None \<Rightarrow> Some st
      | Some t \<Rightarrow>
          (if ts_status t = TASK_STATUS_PAUSING then park_pausing_turn_locked W t st
           else if ts_status t = TASK_STATUS_PAUSED then park_paused_turn_locked W t st
           else if ts_status t \<noteq> TASK_STATUS_OPEN then Some st
           else (case map_of (en_rows (ss_engine st)) task_id of
                   None \<Rightarrow> Some st
                 | Some row \<Rightarrow> park_open_turn W t row st)))"

definition empty_report :: park_report where
  "empty_report = \<lparr>pk_agent_turns = 0, pk_shells = 0, pk_stuck_other = 0, pk_groups = 0\<rparr>"

fun park_each :: "sweep_world \<Rightarrow> string list \<Rightarrow> sweep_state \<Rightarrow> sweep_state option" where
  "park_each W [] st = Some st"
| "park_each W (i # is) st = Option.bind (park_interrupted_turn_locked W i st) (park_each W is)"

definition park_interrupted_turns :: "sweep_world \<Rightarrow> engine \<Rightarrow> changed_events \<Rightarrow> sweep_state option" where
  "park_interrupted_turns W e evs =
     park_each W (map ts_id (list_tasks None (Some TASK_STATUS_OPEN) (en_tasks e)
                             @ list_tasks None (Some TASK_STATUS_PAUSING) (en_tasks e)
                             @ list_tasks None (Some TASK_STATUS_PAUSED) (en_tasks e)))
       \<lparr>ss_engine = e, ss_changed = evs, ss_report = empty_report\<rparr>"

section \<open>Watching again\<close>

record poll_report =
  pr_resumed :: nat
  pr_already_running :: nat
  pr_stuck :: nat
  pr_stage_kind_unrecorded :: nat

definition poll_mark ::
  "sweep_world \<Rightarrow> string \<Rightarrow> string \<Rightarrow> bool \<Rightarrow> poll_report \<times> engine \<Rightarrow> poll_report \<times> engine"
where
  "poll_mark W task_id reason recorded acc =
     (case acc of (rep, e) \<Rightarrow>
       (case mark_stuck (recorded \<or> sw_event_ok W) task_id reason (sw_now W) (en_tasks e) of
          (mark, db) \<Rightarrow> (if mark = Marked then pr_stuck_update Suc rep else rep, e\<lparr>en_tasks := db\<rparr>)))"

definition set_stage_kind :: "string \<Rightarrow> string \<Rightarrow> engine \<Rightarrow> engine" where
  "set_stage_kind task_id kind e =
     (case map_of (en_rows e) task_id of
        None \<Rightarrow> e
      | Some row \<Rightarrow> e\<lparr>en_rows := imap_insert task_id (row\<lparr>ws_stage_kind := Some kind\<rparr>) (en_rows e)\<rparr>)"

text \<open>The payload to watch with: the stored window's, or one derived from the row's last change.\<close>

definition window_payload ::
  "sweep_world \<Rightarrow> workflow_definition \<Rightarrow> string \<Rightarrow> workflow_state \<Rightarrow> (string, json) result"
where
  "window_payload W d stage row =
     (case poll_window_for (sw_chrono W) (ws_payload row) stage of
        Inr (Some _) \<Rightarrow> Inr (ws_payload row)
      | Inr None \<Rightarrow>
          map_err show_engine_error (set_poll_window (sw_chrono W) d stage (ws_updated_at row) (ws_payload row))
      | Inl err \<Rightarrow> Inl err)"

definition was_polling :: "sweep_world \<Rightarrow> workflow_state \<Rightarrow> bool" where
  "was_polling W row =
     (case poll_window_for (sw_chrono W) (ws_payload row) (ws_current_stage row) of Inr None \<Rightarrow> False | _ \<Rightarrow> True)"

definition not_resumed :: "string \<Rightarrow> string \<Rightarrow> string" where
  "not_resumed stage err =
     ''stage '' @ squote stage @ '': poll could not be resumed after a daemon restart: '' @ err"

definition resume_watch ::
  "sweep_world \<Rightarrow> string \<Rightarrow> workflow_definition \<Rightarrow> string \<Rightarrow> workflow_state \<Rightarrow> poll_report \<times> engine \<Rightarrow>
   poll_report \<times> engine"
where
  "resume_watch W task_id d stage row acc =
     (case window_payload W d stage row of
        Inl err \<Rightarrow> poll_mark W task_id (not_resumed stage err) False acc
      | Inr payload \<Rightarrow>
          (case acc of (rep, e) \<Rightarrow>
            (case sw_enter W stage payload e of
               (Inr _, e) \<Rightarrow> (pr_resumed_update Suc rep, e)
             | (Inl err, e) \<Rightarrow>
                 poll_mark W task_id (not_resumed stage (show_engine_error err)) (is_template_error err) (rep, e))))"

definition was_polling_but :: "string \<Rightarrow> string \<Rightarrow> string" where
  "was_polling_but stage why =
     ''stage '' @ squote stage @ '' was polling when the daemon stopped, but '' @ why"

definition resume_interrupted_poll_locked ::
  "sweep_world \<Rightarrow> string \<Rightarrow> poll_report \<times> engine \<Rightarrow> poll_report \<times> engine"
where
  "resume_interrupted_poll_locked W task_id acc =
     (case acc of (rep, e) \<Rightarrow>
       (case (get_task task_id (en_tasks e), map_of (en_rows e) task_id) of
          (Some t, Some row) \<Rightarrow>
            (if ts_status t \<noteq> TASK_STATUS_OPEN then acc
             else
               (let stage = ws_current_stage row;
                    only_if_polling = (\<lambda>why acc. if was_polling W row
                      then poll_mark W task_id (was_polling_but stage why) False acc else acc)
                in case sw_load W t of
                     Inl err \<Rightarrow> only_if_polling (''its workflow could not be loaded: '' @ err) acc
                   | Inr d \<Rightarrow>
                       (case stage_of d stage of
                          None \<Rightarrow> only_if_polling ''the workflow no longer defines it; retry to run it as defined'' acc
                        | Some sd \<Rightarrow>
                            (let kind = stage_kind_name (sd_kind sd);
                                 (rep, e) = (if ws_stage_kind row = Some kind then (rep, e)
                                   else if sw_kind_ok W then (rep, set_stage_kind task_id kind e)
                                   else (pr_stage_kind_unrecorded_update Suc rep, e))
                             in if stage_watch sd = None then
                                  only_if_polling ''the workflow no longer gives it a watcher; retry to run it as defined'' (rep, e)
                                else if has_detached_runner task_id (en_runners e) then
                                  (pr_already_running_update Suc rep, e)
                                else resume_watch W task_id d stage row (rep, e)))))
        | _ \<Rightarrow> acc))"

definition resume_interrupted_polls :: "sweep_world \<Rightarrow> engine \<Rightarrow> poll_report \<times> engine" where
  "resume_interrupted_polls W e =
     fold (\<lambda>t. resume_interrupted_poll_locked W (ts_id t)) (list_tasks None (Some TASK_STATUS_OPEN) (en_tasks e))
       (\<lparr>pr_resumed = 0, pr_already_running = 0, pr_stuck = 0, pr_stage_kind_unrecorded = 0\<rparr>, e)"

section \<open>What a restart would strand\<close>

record in_flight =
  if_task_id :: string
  if_title :: string
  if_stage :: string
  if_kind :: string

definition in_flight_kind ::
  "(task \<Rightarrow> (string, workflow_definition) result) \<Rightarrow> queue_snapshot \<Rightarrow> task \<Rightarrow> workflow_state \<Rightarrow> engine \<Rightarrow> string option"
where
  "in_flight_kind load sn t row e =
     (let stage = ws_current_stage row;
          pausing = (ts_status t = TASK_STATUS_PAUSING);
          at_work = running_for_task (ts_id t) (en_gate e) > 0
      in if pausing \<and> \<not> at_work \<and> \<not> has_detached_runner (ts_id t) (en_runners e) then None
         else
           (case load t of
              Inl err \<Rightarrow> Some ''unknown''
            | Inr d \<Rightarrow>
                (case stage_of d stage of
                   None \<Rightarrow> Some ''unknown''
                 | Some sd \<Rightarrow>
                     (case restart_effect sd of
                        PerBranch \<Rightarrow>
                          running_branch_kinds (ws_payload row) d stage
                            (\<lambda>br. if pausing
                                  then list_ex (\<lambda>r. qr_task_id r = ts_id t \<and> qr_stage r = br) (queue_list (en_queue e))
                                  else is_queued sn (ts_id t) br (Some stage) None)
                      | Survives \<Rightarrow> (if pausing then Some (if at_work then ''agent_turn'' else ''shell'') else None)
                      | StrandsAgentTurn \<Rightarrow>
                          (if pausing then Some (if at_work then ''agent_turn'' else ''shell'')
                           else if is_queued sn (ts_id t) stage None None then None
                           else Some ''agent_turn'')
                      | StrandsShell \<Rightarrow>
                          (if pausing \<and> at_work then Some ''agent_turn'' else Some ''shell'')))))"

definition in_flight ::
  "(task \<Rightarrow> (string, workflow_definition) result) \<Rightarrow> queue_snapshot \<Rightarrow> engine \<Rightarrow> in_flight list"
where
  "in_flight load sn e =
     List.map_filter (\<lambda>t.
       Option.bind (map_of (en_rows e) (ts_id t)) (\<lambda>row.
         map_option (\<lambda>kind. \<lparr>if_task_id = ts_id t, if_title = ts_title t, if_stage = ws_current_stage row, if_kind = kind\<rparr>)
           (in_flight_kind load sn t row e)))
       (list_tasks None (Some TASK_STATUS_OPEN) (en_tasks e) @ list_tasks None (Some TASK_STATUS_PAUSING) (en_tasks e))"

section \<open>The sweep and the list agree\<close>

lemma place_rows: "map pl_row (place_loop caps counts rows) = filter (\<lambda>r. is_admissible (qr_task_status r)) rows"
  by (induction rows arbitrary: counts) (auto simp: Let_def)

lemma is_queued_place:
  "is_queued (queue_snapshot config g db) i stage grp None \<longleftrightarrow>
     (\<exists>r\<in>set (queue_list db). is_admissible (qr_task_status r) \<and> qr_task_id r = i \<and> qr_stage r = stage \<and> qr_group_stage r = grp)"
proof -
  let ?ps = "place (queue_list db) (project_caps db)"
  have "is_queued (queue_snapshot config g db) i stage grp None \<longleftrightarrow>
      (\<exists>p\<in>set ?ps. qr_task_id (pl_row p) = i \<and> qr_stage (pl_row p) = stage \<and> qr_group_stage (pl_row p) = grp)"
    by (auto simp: is_queued_def queue_snapshot_def Let_def list_ex_iff zip_map_map zip_same_conv_map turn_view_def)
  also have "\<dots> \<longleftrightarrow> (\<exists>r\<in>set (map pl_row ?ps). qr_task_id r = i \<and> qr_stage r = stage \<and> qr_group_stage r = grp)"
    by auto
  also have "map pl_row ?ps = filter (\<lambda>r. is_admissible (qr_task_status r)) (queue_list db)"
    by (simp add: place_def place_rows)
  finally show ?thesis by auto
qed

text \<open>The queue's view of the tasks is the table's, and a stage's own row belongs to no group.\<close>

definition queue_reads :: "string \<Rightarrow> string \<Rightarrow> engine \<Rightarrow> bool" where
  "queue_reads task_id stage e =
     (queue_ok (en_queue e)
      \<and> map_option qt_status (map_of (qd_tasks (en_queue e)) task_id) = map_option ts_status (get_task task_id (en_tasks e))
      \<and> list_all (\<lambda>q. q_task_id q = task_id \<and> q_stage q = stage \<longrightarrow> q_group_stage q = None) (qd_queue (en_queue e)))"

lemma queued_is_held:
  assumes "queue_reads task_id stage e" and "get_task task_id (en_tasks e) = Some t" and "ts_status t = TASK_STATUS_OPEN"
  shows "is_queued (queue_snapshot config g (en_queue e)) task_id stage None None \<longleftrightarrow> current_work_held task_id stage e"
proof -
  let ?db = "en_queue e"
  obtain qt where qt: "map_of (qd_tasks ?db) task_id = Some qt" "qt_status qt = TASK_STATUS_OPEN"
    using assms by (auto simp: queue_reads_def)
  have ok: "queue_ok ?db" and none: "\<And>q. q \<in> set (qd_queue ?db) \<Longrightarrow> q_task_id q = task_id \<Longrightarrow> q_stage q = stage \<Longrightarrow> q_group_stage q = None"
    using assms(1) by (auto simp: queue_reads_def list_all_iff)
  have rows: "set (queue_list ?db) = {r. \<exists>q\<in>set (qd_queue ?db). join_row ?db q = Some r}"
    by (auto simp: queue_list_def map_filter_set)
  have joined: "\<exists>r. join_row ?db q = Some r \<and> is_admissible (qr_task_status r)" if "q_task_id q = task_id" for q
    using join_row_total [OF ok, of q] qt that by (auto simp: is_admissible_def)
  have "(\<exists>r\<in>set (queue_list ?db). is_admissible (qr_task_status r) \<and> qr_task_id r = task_id \<and> qr_stage r = stage
        \<and> qr_group_stage r = None) \<longleftrightarrow> (\<exists>q\<in>set (qd_queue ?db). q_task_id q = task_id \<and> q_stage q = stage)"
    (is "?L \<longleftrightarrow> ?R")
  proof
    assume ?L
    then obtain r q where "q \<in> set (qd_queue ?db)" "join_row ?db q = Some r" "qr_task_id r = task_id" "qr_stage r = stage"
      by (auto simp: rows)
    then show ?R using join_row_key by metis
  next
    assume ?R
    then obtain q where q: "q \<in> set (qd_queue ?db)" "q_task_id q = task_id" "q_stage q = stage" by blast
    from joined [OF q(2)] obtain r where r: "join_row ?db q = Some r" "is_admissible (qr_task_status r)" by blast
    then show ?L using join_row_key [OF r(1)] none [OF q] q by (auto simp: rows)
  qed
  then show ?thesis by (auto simp: is_queued_place current_work_held_def queue_exists_def list_ex_iff)
qed

lemma sweep_mark_stuck:
  assumes "live_task task_id (ss_engine st)" and "sw_event_ok W"
  shows "is_stuck task_id (ss_engine (sweep_mark W task_id reason count st))"
proof -
  have "en_tasks (ss_engine (sweep_mark W task_id reason count st)) =
      snd (mark_stuck True task_id reason (sw_now W) (en_tasks (ss_engine st)))"
    using assms(2) by (simp add: sweep_mark_def case_prod_beta)
  then show ?thesis
    using assms(1)
    by (cases "get_task task_id (en_tasks (ss_engine st))") (auto simp: is_stuck_def mark_stuck_get live_task_def)
qed

lemma live_task_state:
  "en_tasks (ss_engine st') = en_tasks (ss_engine st) \<Longrightarrow> live_task i (ss_engine st') = live_task i (ss_engine st)"
  by (simp add: live_task_def)

lemma stop_session_tasks [simp]: "en_tasks (stop_session W s e) = en_tasks e"
  by (simp add: stop_session_def)

lemma park_agent_turn_cases:
  assumes "park_agent_turn W task_id d stage st = Some st'"
  shows "if current_work_held task_id stage (ss_engine st) then st' = st
    else (\<exists>reason st2. st' = sweep_mark W task_id reason (pk_agent_turns_update Suc) st2
            \<and> en_tasks (ss_engine st2) = en_tasks (ss_engine st))"
proof (cases "current_work_held task_id stage (ss_engine st) \<or> sw_read_error W \<noteq> None")
  case True
  then show ?thesis
  proof (cases "current_work_held task_id stage (ss_engine st)")
    case False
    then obtain err where "sw_read_error W = Some err" using True by auto
    then show ?thesis
      using False assms by (simp add: park_agent_turn_def Let_def) blast
  qed (use assms in \<open>simp add: park_agent_turn_def Let_def\<close>)
next
  case False
  then obtain current where c: "get_current_for_stage (en_sessions (ss_engine st)) task_id stage = Some current"
    using assms by (auto simp: park_agent_turn_def Let_def)
  show ?thesis
  proof (cases current)
    case None
    then show ?thesis using False assms c by (auto simp: park_agent_turn_def Let_def)
  next
    case (Some session)
    obtain found evs where "judge_read_only (sw_read_only W) d stage (se_id session) False (ss_changed st) = (found, evs)"
      by fastforce
    then show ?thesis
      using False assms c Some
      by (auto simp: park_agent_turn_def Let_def
          intro!: exI [of _ "st\<lparr>ss_engine := stop_session W (se_id session) (ss_engine st), ss_changed := evs\<rparr>"])
  qed
qed


section \<open>A pausing task after the sweep\<close>

lemma newest_map:
  "(\<And>r. sr_id (f r) = sr_id r \<and> sr_started_at (f r) = sr_started_at r) \<Longrightarrow> newest (map f rs) = map_option f (newest rs)"
  by (induction rs) (auto simp: newer_def split: option.split)

lemma newest_in: "newest rs = Some r \<Longrightarrow> r \<in> set rs"
  by (induction rs arbitrary: r) (auto split: option.splits if_splits)

text \<open>A run without an end, found idle, is read back as stopped by the daemon.\<close>

lemma stopped_reads_back:
  assumes "table_ok db" and "get_current_for_stage db i stage = Some (Some s)"
    and "se_status s = session_status.Idle" and "se_end_reason s = None"
  shows "get_current_for_stage (fst (mark_daemon_stopped now (se_id s) db)) i stage =
    Some (Some (s\<lparr>se_status := Exited, se_end_reason := Some DaemonStopped, se_ended_at := Some now\<rparr>))"
proof -
  obtain r where r: "newest (filter (\<lambda>r. sr_task_id r = i \<and> sr_stage r = stage) db) = Some r" "session_of_row r = Some s"
    using assms(2) by (auto simp: get_current_for_stage_def split: option.splits)
  have "r \<in> set db" using newest_in [OF r(1)] by simp
  then have ok: "readable r" using assms(1) by (simp add: table_ok_def list_all_iff)
  have status: "sr_status r = ''idle''" and reason: "sr_end_reason r = None" and id: "sr_id r = se_id s"
    using r(2) assms(3,4) ok
    by (auto simp: session_of_row_def readable_def is_ok_iff parse_status_def split: sum.splits if_splits option.splits)
  let ?f = "\<lambda>r. if sr_id r = se_id s \<and> sr_status r = ''idle'' \<and> sr_end_reason r = None
      then r\<lparr>sr_status := ''exited'', sr_end_reason := Some ''daemon_stopped'', sr_ended_at := Some now\<rparr> else r"
  have "filter (\<lambda>r. sr_task_id r = i \<and> sr_stage r = stage) (map ?f db) =
      map ?f (filter (\<lambda>r. sr_task_id r = i \<and> sr_stage r = stage) db)"
    by (induction db) auto
  then have "newest (filter (\<lambda>r. sr_task_id r = i \<and> sr_stage r = stage) (map ?f db)) = Some (?f r)"
    using r(1) newest_map [of ?f] by simp
  moreover have "session_of_row (?f r) = Some (s\<lparr>se_status := Exited, se_end_reason := Some DaemonStopped, se_ended_at := Some now\<rparr>)"
    using r(2) status reason id
    by (cases s) (auto simp: session_of_row_def parse_status_def parse_end_reason_def split: sum.splits)
  ultimately show ?thesis
    by (simp add: get_current_for_stage_def mark_daemon_stopped_def Let_def)
qed

lemma commit_paused_get:
  assumes "get_task i (en_tasks e) = Some t" and "ts_status t = TASK_STATUS_PAUSING"
  shows "map_option ts_status (get_task i (en_tasks (commit_paused True now i e))) = Some TASK_STATUS_PAUSED"
proof -
  have "fst (mark_paused_in i now (en_tasks e))"
    unfolding mark_paused_in_def
    by (rule update_hit_get [OF assms(1)]) (use assms(2) get_task_id [OF assms(1)] in \<open>simp add: TASK_STATUS_PAUSING_def\<close>)
  then have "en_tasks (commit_paused True now i e) = snd (mark_paused_in i now (en_tasks e))"
    by (simp add: commit_paused_def case_prod_beta)
  then show ?thesis
    using assms get_task_id [OF assms(1)]
    by (simp add: mark_paused_in_def get_update TASK_STATUS_PAUSING_def TASK_STATUS_PAUSED_def)
qed

lemma commit_paused_other [simp]:
  "en_sessions (commit_paused ok now i e) = en_sessions e" "en_queue (commit_paused ok now i e) = en_queue e"
  "en_gate (commit_paused ok now i e) = en_gate e" "en_runners (commit_paused ok now i e) = en_runners e"
  by (simp_all add: commit_paused_def case_prod_beta)

text \<open>The one run a pausing task had, cut off by the restart and found clean, is no finding.\<close>

lemma clean_cut_off:
  assumes "se_status s = session_status.Idle" and "se_end_reason s = None" and "sw_stop_error W = None"
    and "fst (judge_read_only (sw_read_only W) d stage (se_id s) False (ss_changed st)) = Clean"
  shows "\<exists>evs. cut_off_finding W d stage False False (stage, s) (([], []), st)
    = (([], []), st\<lparr>ss_engine := stop_session W (se_id s) (ss_engine st), ss_changed := evs\<rparr>)"
proof -
  obtain evs where "judge_read_only (sw_read_only W) d stage (se_id s) False (ss_changed st) = (Clean, evs)"
    using assms(4) by (cases "judge_read_only (sw_read_only W) d stage (se_id s) False (ss_changed st)") auto
  moreover have "run_failure s = None" using assms(1,2) by (simp add: run_failure_def run_failed_def)
  ultimately show ?thesis
    using assms(1-3)
    by (auto simp: cut_off_finding_def failed_before_def somes_def map_filter_simps found_text_def intro!: exI [of _ evs])
qed


section \<open>A watch after the sweep\<close>

lemma kind_recorded [simp]: "en_tasks (set_stage_kind i kind e) = en_tasks e" "en_runners (set_stage_kind i kind e) = en_runners e"
  by (simp_all add: set_stage_kind_def split: option.split)

text \<open>
  C13. A restart does not restart a watch's clock. An open task at a watcher that nothing watches is
  either entered again or stuck; entered again, it is with the window it had, to the nanosecond, or
  for a row from before windows were stored with one that began when the row was last written; and
  its row is as before but for the recorded kind of the stage.
\<close>

theorem watch_resumes_in_its_window:
  assumes "get_task task_id (en_tasks e) = Some t" and "ts_status t = TASK_STATUS_OPEN"
    and "map_of (en_rows e) task_id = Some row" and "sw_load W t = Inr d" and "stage_of d (ws_current_stage row) = Some sd"
    and "stage_watch sd = Some w" and "\<not> has_detached_runner task_id (en_runners e)"
    and "reads_back (sw_chrono W) (ws_updated_at row)"
    and "\<forall>l at. ch_add (sw_chrono W) (ws_updated_at row) l = Some at \<longrightarrow> reads_back (sw_chrono W) at"
    and "sw_event_ok W" and "sw_kind_ok W"
  shows "let stage = ws_current_stage row;
      kind = stage_kind_name (sd_kind sd);
      e1 = (if ws_stage_kind row \<noteq> Some kind then set_stage_kind task_id kind e else e)
    in (case window_payload W d stage row of
          Inl err \<Rightarrow> is_stuck task_id (snd (resume_interrupted_poll_locked W task_id (rep, e)))
        | Inr payload \<Rightarrow>
            (case poll_window_for (sw_chrono W) (ws_payload row) stage of
               Inl err \<Rightarrow> False
             | Inr (Some window) \<Rightarrow> payload = ws_payload row
             | Inr None \<Rightarrow> (\<exists>dl. poll_window_for (sw_chrono W) payload stage =
                   Inr (Some \<lparr>pw_stage = stage, pw_entered_at = ws_updated_at row, pw_deadline = dl\<rparr>)
                 \<and> (dl = None \<longleftrightarrow> w_timeout w = None)))
            \<and> (case sw_enter W stage payload e1 of
                 (Inr _, e') \<Rightarrow> resume_interrupted_poll_locked W task_id (rep, e) = (pr_resumed_update Suc rep, e')
               | (Inl err, e') \<Rightarrow>
                   (if live_task task_id e' then is_stuck task_id (snd (resume_interrupted_poll_locked W task_id (rep, e)))
                    else True)))
       \<and> map_of (en_rows e1) task_id = Some (row\<lparr>ws_stage_kind := Some kind\<rparr>)"
proof -
  let ?stage = "ws_current_stage row" and ?kind = "stage_kind_name (sd_kind sd)"
  define e1 where "e1 = (if ws_stage_kind row \<noteq> Some ?kind then set_stage_kind task_id ?kind e else e)"
  have step: "resume_interrupted_poll_locked W task_id (rep, e) = resume_watch W task_id d ?stage row (rep, e1)"
    using assms(1-7,11) by (simp add: resume_interrupted_poll_locked_def Let_def e1_def)
  have live: "live_task task_id e1"
    using assms(1,2) by (simp add: e1_def live_task_def TASK_STATUS_OPEN_def)
  have stuck: "is_stuck task_id (snd (poll_mark W task_id reason recorded (rep', e')))" if "live_task task_id e'" for reason recorded rep' e'
    using that assms(10) by (cases "get_task task_id (en_tasks e')")
      (auto simp: poll_mark_def case_prod_beta is_stuck_def mark_stuck_get live_task_def)
  have row: "map_of (en_rows e1) task_id = Some (row\<lparr>ws_stage_kind := Some ?kind\<rparr>)"
    using assms(3) by (cases "ws_stage_kind row = Some ?kind")
      (auto simp: e1_def set_stage_kind_def imap_insert_lookup)
  have watch: "watch_of d ?stage = Some w" using assms(5,6) by (simp add: watch_of_def)
  have window: "case poll_window_for (sw_chrono W) (ws_payload row) ?stage of
       Inl err \<Rightarrow> False
     | Inr (Some window) \<Rightarrow> payload = ws_payload row
     | Inr None \<Rightarrow> (\<exists>dl. poll_window_for (sw_chrono W) payload ?stage =
           Inr (Some \<lparr>pw_stage = ?stage, pw_entered_at = ws_updated_at row, pw_deadline = dl\<rparr>)
         \<and> (dl = None \<longleftrightarrow> w_timeout w = None))" if p: "window_payload W d ?stage row = Inr payload" for payload
  proof (cases "poll_window_for (sw_chrono W) (ws_payload row) ?stage")
    case (Inr stored)
    show ?thesis
    proof (cases stored)
      case None
      then have "set_poll_window (sw_chrono W) d ?stage (ws_updated_at row) (ws_payload row) = Inr payload"
        using p Inr by (simp add: window_payload_def map_err_ok)
      from set_poll_window_read [OF this watch assms(8,9)] show ?thesis
        using None Inr by (auto split: option.splits)
    qed (use p Inr in \<open>simp add: window_payload_def\<close>)
  qed (use p in \<open>simp add: window_payload_def\<close>)
  show ?thesis
  proof (cases "window_payload W d ?stage row")
    case (Inl err)
    then have "is_stuck task_id (snd (resume_interrupted_poll_locked W task_id (rep, e)))"
      using stuck [OF live] by (simp add: step resume_watch_def)
    then show ?thesis
      using row Inl by (simp add: Let_def e1_def)
  next
    case (Inr payload)
    obtain answer e' where enter: "sw_enter W ?stage payload e1 = (answer, e')" by fastforce
    have "case answer of
        Inr _ \<Rightarrow> resume_interrupted_poll_locked W task_id (rep, e) = (pr_resumed_update Suc rep, e')
      | Inl err \<Rightarrow> (if live_task task_id e' then is_stuck task_id (snd (resume_interrupted_poll_locked W task_id (rep, e))) else True)"
      using Inr enter stuck by (cases answer) (auto simp: step resume_watch_def)
    then show ?thesis
      using row window [OF Inr] Inr enter by (simp add: Let_def e1_def)
  qed
qed

section \<open>Examples\<close>

text \<open>The reviewer of TurnEnd's example, idle without an end when the daemon starts.\<close>

definition example_daemon_start :: "(task \<Rightarrow> (string, workflow_definition) result) \<Rightarrow> sweep_world" where
  "example_daemon_start load =
     \<lparr>sw_load = load, sw_chrono = example_chrono,
      sw_read_only = example_world (\<lambda>s. if s = ''s2'' then Some example_second else None) ''aaaaaaaaaa'',
      sw_registry = [], sw_global = example_global, sw_read_error = None, sw_stop_error = None,
      sw_event_ok = True, sw_kind_ok = True, sw_now = 9, sw_enter = (\<lambda>stage p e. (Inr (), e))\<rparr>"

definition example_swept :: "string \<Rightarrow> sweep_state" where
  "example_swept status =
     \<lparr>ss_engine = (tu_engine example_turn)
        \<lparr>en_tasks := map (\<lambda>t. t\<lparr>ts_status := status\<rparr>) example_tasks,
         en_queue := example_turns\<lparr>qd_projects := [(''p'', \<lparr>qp_name = ''demo'', qp_max_agents = None\<rparr>)]\<rparr>\<rparr>,
      ss_changed = [], ss_report = empty_report\<rparr>"

abbreviation example_loads :: "task \<Rightarrow> (string, workflow_definition) result" where
  "example_loads \<equiv> \<lambda>_. Inr example_review"

lemma example_swept_parts:
  "map_of (en_rows (ss_engine (example_swept status))) ''t1'' = Some (create_state ''review'' ''agent_turn'' (obj_of []) 3)"
  "ws_current_stage (create_state ''review'' ''agent_turn'' (obj_of []) 3) = ''review''"
  "stage_of example_review ''review'' = Some (StageDef (AgentTurn ''reviewer'' None None []) [(''done'', ''end'')] None)"
  "restart_effect (StageDef (AgentTurn ''reviewer'' None None []) [(''done'', ''end'')] None) = StrandsAgentTurn"
  by (simp_all add: example_swept_def example_turn_def create_state_def example_review_def stage_of_def restart_effect_def)

lemma example_swept_task:
  "\<exists>t. get_task ''t1'' (en_tasks (ss_engine (example_swept status))) = Some t \<and> ts_status t = status"
  by (simp add: example_swept_def example_turn_def example_tasks_def example_new_task_def create_task_def get_task_def)

lemma example_queue_reads: "queue_reads ''t1'' ''review'' (ss_engine (example_swept ''open''))"
  by code_simp

lemma example_parks:
  "case park_interrupted_turn_locked (example_daemon_start example_loads) ''t1'' (example_swept ''open'') of None \<Rightarrow> False | Some _ \<Rightarrow> True"
  "case park_interrupted_turn_locked (example_daemon_start example_loads) ''t1'' (example_swept ''pausing'') of None \<Rightarrow> False | Some _ \<Rightarrow> True"
  by code_simp+


lemma example_cut_off:
  "table_ok (en_sessions (ss_engine (example_swept status)))"
  "running_for_task ''t1'' (en_gate (ss_engine (example_swept status))) = 0"
  "\<not> queue_exists ''t1'' ''review'' None (en_queue (ss_engine (example_swept status)))"
  "fst (judge_read_only (sw_read_only (example_daemon_start example_loads)) example_review ''review'' ''s2'' False
     (ss_changed (example_swept status))) = Clean"
  subgoal by (simp add: example_swept_def example_turn_def table_ok_def readable_def parents_in_def parse_status_def)
  subgoal by (simp add: example_swept_def example_turn_def example_open_def running_for_task_def permits_def gate_new_def)
  subgoal by (simp add: example_swept_def example_turn_def example_turns_def joined_tasks_def queue_exists_def)
  subgoal proof -
    have "case judge_read_only (sw_read_only (example_daemon_start example_loads)) example_review ''review'' ''s2'' False [] of
        (found, _) \<Rightarrow> (case found of Clean \<Rightarrow> True | _ \<Rightarrow> False)"
      by code_simp
    then show ?thesis by (auto simp: example_swept_def split: prod.splits read_only_verdict.splits)
  qed
  done

lemma example_idle_run:
  "\<exists>s. get_current_for_stage (en_sessions (ss_engine (example_swept status))) ''t1'' ''review'' = Some (Some s)
     \<and> se_status s = session_status.Idle \<and> se_end_reason s = None \<and> se_id s = ''s2'' \<and> se_started_at s = 4"
  by (simp add: example_swept_def example_turn_def get_current_for_stage_def session_of_row_def parse_status_def)


definition example_watched :: engine where
  "example_watched = example_open\<lparr>en_runners := detached_new\<rparr>"

theorem watch_resumes_in_its_window_witness:
  "\<exists>payload e'. window_payload (example_daemon_start (\<lambda>_. Inr example_polling)) example_polling ''ci'' example_watching = Inr payload
     \<and> payload = ws_payload example_watching
     \<and> resume_interrupted_poll_locked (example_daemon_start (\<lambda>_. Inr example_polling)) ''t1''
         (\<lparr>pr_resumed = 0, pr_already_running = 0, pr_stuck = 0, pr_stage_kind_unrecorded = 0\<rparr>, example_watched)
       = (\<lparr>pr_resumed = 1, pr_already_running = 0, pr_stuck = 0, pr_stage_kind_unrecorded = 0\<rparr>, e')"
proof -
  let ?W = "example_daemon_start (\<lambda>_. Inr example_polling)" and ?rep = "\<lparr>pr_resumed = 0, pr_already_running = 0, pr_stuck = 0, pr_stage_kind_unrecorded = 0\<rparr>"
  obtain t :: task where t: "get_task ''t1'' (en_tasks example_watched) = Some t" "ts_status t = TASK_STATUS_OPEN"
    using example_task_open by (auto simp: example_watched_def example_open_def TASK_STATUS_OPEN_def)
  have row: "map_of (en_rows example_watched) ''t1'' = Some example_watching"
    by (simp add: example_watched_def example_open_def)
  have stage: "ws_current_stage example_watching = ''ci''" "ws_updated_at example_watching = 3"
    "ws_stage_kind example_watching = Some ''poll''"
    by (simp_all add: example_watching_def)
  have sd: "stage_of example_polling ''ci'' = Some (StageDef (Poll None example_watch) [(''done'', ''end''), (''timeout'', ''ask'')] None)"
    by code_simp
  have quiet: "\<not> has_detached_runner ''t1'' (en_runners example_watched)"
    by (simp add: example_watched_def has_detached_runner_def detached_new_def has_key_def ikeys_def)
  have ch: "sw_chrono ?W = example_chrono" by (simp add: example_daemon_start_def)
  have later: "ch_add example_chrono 3 l = Some at \<Longrightarrow> 0 \<le> at" for l at
    by (auto simp: example_chrono_def split: if_splits)
  have C: "reads_back (sw_chrono ?W) (ws_updated_at example_watching)"
    "\<forall>l at. ch_add (sw_chrono ?W) (ws_updated_at example_watching) l = Some at \<longrightarrow> reads_back (sw_chrono ?W) at"
    using later by (simp_all only: ch stage example_reads_back) auto
  have stored: "poll_window_for (sw_chrono ?W) (ws_payload example_watching) ''ci'' =
      Inr (Some \<lparr>pw_stage = ''ci'', pw_entered_at = 3, pw_deadline = Some 13\<rparr>)"
    using example_window by (simp add: example_daemon_start_def)
  then have payload: "window_payload ?W example_polling ''ci'' example_watching = Inr (ws_payload example_watching)"
    by (simp add: window_payload_def)
  have "sw_load ?W t = Inr example_polling" "sw_event_ok ?W" "sw_kind_ok ?W" "stage_watch (StageDef (Poll None example_watch)
      [(''done'', ''end''), (''timeout'', ''ask'')] None) = Some example_watch"
    by (simp_all add: example_daemon_start_def stage_watch_def)
  note resumes = watch_resumes_in_its_window [OF t row this(1) _ this(4) quiet C this(2,3), unfolded stage, OF sd, of ?rep]
  show ?thesis
    using resumes payload stored by (auto simp: Let_def example_daemon_start_def split: if_splits)
qed

end
