(* ===== verification/Spec2Isabelle.thy ===== *)
theory Spec2Isabelle
  imports Durations Template Report Settings Workflow Resolve Graph Validate Capture Payload Sessions Roles Resume Transition Group Retry Runs Gates TurnQueue Turns Dispatch Tasks Runners Pause Watch ReadOnly TurnEnd Sweep
begin

text \<open>
  A verification development for ChocoFactory, a daemon (chocofactoryd) that takes a task through
  a workflow of stages run by coding agents, shell commands and people.

  \<^bold>\<open>The program and its parts.\<close> A workflow is a YAML file: stages with outcomes
  (\<open>on:\<close>), loop guards, watchers, parallel groups of branches, and roles saying which agent CLI
  runs a stage with which settings. The daemon loads and checks it (workflow_def.rs). A task is a
  row of the table workflow_state: the current stage, the loop counters and a JSON payload. The
  engine (engine/) enters a stage, runs its agent turn, shell command, watcher or group of
  branches, turns what came back into an outcome and a capture, computes the transition and writes
  it with one UPDATE under the task's lock. Agents report outcomes through a tool
  (chocofactory-core/src/mcp.rs); every agent run is a row of the table sessions, which a later run may
  resume; a person answers at a gate, pauses, resumes, retries or cancels. Turns wait in a queue until
  their project and the daemon have a free slot. When the daemon starts, a sweep parks what lost its
  process and watches again what was being watched.

  \<^bold>\<open>Theories, in the order the code depends on them.\<close>
  \<^item> Prelude: results as sums (\<open>Inl\<close> the error), loops that stop at the first error,
    insertion-ordered maps (IndexMap), Rust's strings as UTF-8 byte lists. Locale
    \<open>string_map\<close>: what an insert and a remove promise to a lookup; interpreted on the ordered map
    (\<open>imap\<close>) and, in Json, on the sorted object (\<open>obj\<close>).
  \<^item> Json: serde_json's Value. Locale \<open>payload_write\<close>: a write that keeps the payload an object
    and touches only the keys it owns; interpreted in Payload and Capture on every
    engine-owned write, so that each write's frame comes from one lemma.
  \<^item> Durations (chocofactory-core/src/duration.rs), Template (template.rs), Report
    (chocofactory-core/src/mcp.rs), Settings (claude_settings.rs).
  \<^item> Workflow, Resolve, Graph, Validate (workflow_def.rs, fileref.rs): the data, the raw file to
    the definition, the two graph walks, the checks. Locale \<open>worklist_search\<close> in Graph is the
    contract of both walks.
  \<^item> Capture (engine/stage_capture.rs), Payload (the facts the engine writes into a payload,
    engine/mod.rs, engine/watch.rs, engine/parallel.rs), Transition (compute_transition,
    advance_from_stage, start_task, db/workflow_state.rs), Group (the branches of a
    parallel group, engine/parallel.rs), Retry (retry_task_locked), Gates (engine/gate.rs).
  \<^item> Sessions (db/sessions.rs), Roles (role_config.rs, global_config.rs, adapter/mod.rs), Resume
    (resumable_session).
  \<^item> Runs: the histories a task can have, one rule per write of the engine to its row.
  \<^item> TurnQueue (db/turn_queue.rs), Turns (the slots, engine/turns.rs) and Dispatch (a pass over the
    queue): which turn starts next. Locale \<open>waiting_line\<close> is what Turns relies on of a line in which
    the longest waiting is served first; interpreted on the model's queue as \<open>line\<close>.
  \<^item> Tasks (db/tasks.rs, cancel_task), Runners (engine/runners.rs), Pause (engine/pause.rs), Watch
    (engine/watch.rs, engine/shell_stage.rs). Record \<open>engine\<close> of Pause holds the tables together.
  \<^item> ReadOnly and TurnEnd (engine/turn.rs): the check of a read-only role, and everything between the
    end of an agent's process and the transition. Sweep (engine/sweep.rs): the start of the daemon.

  \<^bold>\<open>State and operations.\<close> A row, a slot or a table is a record or a list of records with the
  columns of the code; an operation is a function of the value it reads to the value it writes,
  under the name it has in the source. A Rust \<open>Result\<close> is a sum; where the code can panic
  (indexing a missing key, \<open>unwrap\<close>) the function is partial and the panic is the outer \<open>None\<close>.
  Integers of the payload and the guards have their width (\<open>64 word\<close>, \<open>32 word\<close>).

  \<^bold>\<open>What the lemmas show.\<close>
  \<^item> Loading: validate accepts exactly the definitions of a declarative contract
    (\<open>definition_ok\<close>), never panics, and what it accepts has no branch that can change files; the
    walks decide reachability; a resolved stage is well formed and its files are inside the
    workflow's directory.
  \<^item> Running: over all runs of a task the stored row names the stage of the last transition, the
    way it arrived, the finished stages and the open window and group; a loop counter is the
    number of consecutive guarded outcomes, so a guard trips exactly when it should; and a workflow that
    validates never fails to compute a transition.
  \<^item> Groups: the end of a branch is applied once and decides whether the group waits, is stuck or
    moves on; the sweep after a restart leaves every branch settled; a retry re-enters exactly the
    branches that are not done.
  \<^item> Agents: every reply has a capture and an outcome, the only braced object of a reply is
    found exactly when it is the only one, a recorded report can be routed on, a chain of resumed
    sessions is bounded, a role's restrictions cannot be loosened by task config.
  \<^item> Turns: the limits of every pool hold over all interleavings, a turn never overtakes one that
    waits in its pool, a free slot is filled, and a turn that fails to start is not lost.
  \<^item> Tasks: the rows stay consistent and a finished task stays finished; a pause ends when nothing of
    the task runs; a resume gives back the time paused and never leaves a task open with nothing to
    carry it on; a watcher has a last look before its timeout and ends.
  \<^item> Ends: every end of a turn is applied or parks the task, and the timeline says which; a read-only
    role that changed the worktree, over any chain of resumed turns, gets nothing applied; the watcher
    and the code that finds a run later agree on what is a failure.
  \<^item> Restarts: the sweep parks exactly what the list of tasks in flight shows; a pause survives the
    restart, and a watch keeps its window.
  \<^item> Texts: templates parse without loss and render each reference by its value, durations read back,
    a fenced block is unwrapped exactly, a gate's verdict is read off marker lines.

  \<^bold>\<open>Termination, bounds and fuel.\<close> Loops are structural recursion over the list the code
  walks, or a \<open>function\<close> with a measure: the worklists by the unvisited known names, the template
  scanner and the heading normaliser by the length of the text, the walk along resumed sessions by
  the limit it is given. A watcher's rounds come with the answers of the shell, one per round, so
  that run_watch is structural; that no attempt follows the deadline is a theorem. The only fuel is the length of the text in \<open>strip_all\<close>, which every round
  shortens (\<open>strip_all_done\<close>).

  \<^bold>\<open>Parameters.\<close> Code outside the repository is an argument: the YAML parse, the file system and
  the regex compiler (\<open>externals\<close>), the JSON parser (\<open>json_parser\<close>), chrono (\<open>chrono\<close>), Unicode's
  tables (\<open>unicode\<close>), adapters (reached through a trait in the code), git (\<open>read_only_world\<close>), what a command or a stopped
  process answers, and the values a step reads from other tables. Entering a stage (engine/mod.rs
  enter_stage: prompts, processes, timeline events) is an argument of the steps that end in it.
  No law of a parameter is assumed except where a theorem names it, as a hypothesis that its
  witness discharges on a concrete parameter.

  \<^bold>\<open>Not modelled.\<close> The async orchestration (spawning turns, watchers and processes, the locks
  themselves), failures of the database except where a theory says so, agent command lines and streams (adapter/, session.rs), git (worktree.rs),
  SQL connections, the HTTP and WebSocket handlers (api/), and the client (choco/): they
  are input and output around the decisions above. Steps under the task's lock are modelled as
  atomic; what happens between two of them is any order of the rules of Runs.
\<close>


end
